theory Spec2Isabelle
  imports Main
begin

section \<open>Text helpers used by the supervisor's logging\<close>

text \<open>
  JavaScript strings are modelled as \<open>string\<close>, one \<open>char\<close> per code unit below 256.
  The character classes are those of the regular expressions in \<open>unified-server.js\<close>
  (no \<open>u\<close> or \<open>i\<close> flag): \<open>\d\<close> is \<open>[0-9]\<close>, \<open>\w\<close> is \<open>[A-Za-z0-9_]\<close>, and \<open>\s\<close>
  is the white space of ECMAScript restricted to code units below 256.
\<close>

definition is_digit :: "char \<Rightarrow> bool" where
  "is_digit c = (c \<in> set ''0123456789'')"

definition is_word :: "char \<Rightarrow> bool" where
  "is_word c = (c \<in> set ''abcdefghijklmnopqrstuvwxyzABCDEFGHIJKLMNOPQRSTUVWXYZ0123456789_'')"

definition is_space :: "char \<Rightarrow> bool" where
  "is_space c = (c \<in> {CHR '' '', CHR 0x09, CHR 0x0A, CHR 0x0B, CHR 0x0C, CHR 0x0D, CHR 0xA0})"

text \<open>\<open>String.prototype.trim\<close>.\<close>

definition trim :: "string \<Rightarrow> string" where
  "trim s = rev (dropWhile is_space (rev (dropWhile is_space s)))"

text \<open>Decimal rendering of a number inside a template literal.\<close>

fun show_nat :: "nat \<Rightarrow> string" where
  "show_nat n = (if n < 10 then [''0123456789'' ! n]
                 else show_nat (n div 10) @ [''0123456789'' ! (n mod 10)])"

declare show_nat.simps [simp del]

text \<open>\<open>String.prototype.toUpperCase\<close> on ASCII letters.\<close>

definition upper_char :: "char \<Rightarrow> char" where
  "upper_char c =
     (case map_of (zip ''abcdefghijklmnopqrstuvwxyz'' ''ABCDEFGHIJKLMNOPQRSTUVWXYZ'') c of
        Some u \<Rightarrow> u | None \<Rightarrow> c)"

definition toUpperCase :: "string \<Rightarrow> string" where
  "toUpperCase s = map upper_char s"

subsection \<open>The two regular expressions of \<open>logProcessOutput\<close>\<close>

text \<open>
  \<open>/\b(DEBUG|INFO|WARNING|ERROR|CRITICAL)\b/\<close>: the leftmost position where one of the
  tokens stands between two word boundaries. Every token starts and ends with a word
  character, so the boundary before it is "start of input or a non-word character" and the
  boundary after it is "end of input or a non-word character".
\<close>

definition level_tokens :: "string list" where
  "level_tokens = [''DEBUG'', ''INFO'', ''WARNING'', ''ERROR'', ''CRITICAL'']"

definition token_at :: "string \<Rightarrow> string \<Rightarrow> bool" where
  "token_at tok rest =
     (take (length tok) rest = tok \<and>
      (case drop (length tok) rest of [] \<Rightarrow> True | c # _ \<Rightarrow> \<not> is_word c))"

fun match_level :: "bool \<Rightarrow> string \<Rightarrow> string option" where
  "match_level prev_word [] = None"
| "match_level prev_word (c # cs) =
     (if prev_word then match_level (is_word c) cs
      else (case find (\<lambda>tok. token_at tok (c # cs)) level_tokens of
              Some tok \<Rightarrow> Some tok
            | None \<Rightarrow> match_level (is_word c) cs))"

definition logLevelMatch :: "string \<Rightarrow> string option" where
  "logLevelMatch message = match_level False message"

text \<open>
  \<open>/^\d{4}-\d{2}-\d{2}\s+\d{2}:\d{2}:\d{2}/\<close>. The greedy \<open>\s+\<close> never has to give a
  character back, since the digit that must follow it is not white space.
\<close>

definition digits :: "nat \<Rightarrow> string \<Rightarrow> string option" where
  "digits n s = (if n \<le> length s \<and> list_all is_digit (take n s) then Some (drop n s) else None)"

definition lit :: "char \<Rightarrow> string \<Rightarrow> string option" where
  "lit c s = (case s of [] \<Rightarrow> None | d # ds \<Rightarrow> if d = c then Some ds else None)"

definition spaces1 :: "string \<Rightarrow> string option" where
  "spaces1 s = (case s of [] \<Rightarrow> None
                | c # cs \<Rightarrow> if is_space c then Some (dropWhile is_space cs) else None)"

definition timestamp_prefix :: "string \<Rightarrow> string option" where
  "timestamp_prefix m =
     Option.bind (Option.bind (Option.bind (Option.bind (Option.bind (Option.bind
     (Option.bind (Option.bind (Option.bind (Option.bind (digits 4 m)
       (lit CHR ''-'')) (digits 2)) (lit CHR ''-'')) (digits 2)) spaces1)
       (digits 2)) (lit CHR '':'')) (digits 2)) (lit CHR '':'')) (digits 2)"

definition hasTimestamp :: "string \<Rightarrow> bool" where
  "hasTimestamp message = (timestamp_prefix message \<noteq> None)"

section \<open>The supervisor's state\<close>

text \<open>
  The three managed services are the keys of \<open>CONFIG\<close>, \<open>this.processes\<close> and
  \<open>this.restartCounts\<close>; \<open>Object.entries(this.processes)\<close> lists them in the order
  backend, frontend, stagehand.
\<close>

datatype name = Backend | Frontend | Stagehand

fun name_str :: "name \<Rightarrow> string" where
  "name_str Backend = ''backend''"
| "name_str Frontend = ''frontend''"
| "name_str Stagehand = ''stagehand''"

definition service_keys :: "name list" where
  "service_keys = [Backend, Frontend, Stagehand]"

text \<open>
  A child process object is identified by a handle number, given out by \<open>spawn\<close>.
  Pending timers are named by what their callback does.
\<close>

datatype timer =
    TRestart name
  | TForceKill name nat
  | THealthRetry
  | TCleanupDelay
  | TBackendDelay

text \<open>
  What the supervisor does to the outside world, in the order in which it does it.
  \<open>EHealthResult name attempt ok\<close> records the outcome that the \<open>curl\<close> callback of
  \<open>checkHealth\<close> hands to \<open>resolve(!error)\<close> in round \<open>attempt\<close> of the loop.
\<close>

datatype effect =
    ESpawn name nat
  | EKill nat string
  | ESetTimeout timer nat
  | ECurlHealth string
  | EHealthResult name nat bool
  | ECurlCleanup
  | EFetchCleanup
  | ELogEnd
  | EExit nat

text \<open>Where the asynchronous function \<open>start\<close> is suspended.\<close>

datatype start_pc =
    PcInit
  | PcHealth name nat
  | PcHealthSleep name nat
  | PcCleanupSleep
  | PcFetch
  | PcBackendDelay
  | PcDone
  | PcFailed

record server =
  now :: "nat \<Rightarrow> string"
  tick :: nat
  dirname :: string
  nodeEnv :: "string option"
  ownPid :: nat
  backendCommand :: string
  processes :: "name \<Rightarrow> nat option"
  logEnded :: bool
  logFile :: "string list"
  console :: "string list"
  isShuttingDown :: bool
  restartCounts :: "name \<Rightarrow> nat"
  nextHandle :: nat
  owner :: "nat \<Rightarrow> name option"
  exitedH :: "nat set"
  killed :: "nat set"
  timers :: "timer list"
  exitListeners :: "nat list"
  pending :: "nat list"
  awaiting :: "nat option"
  cleanupCurls :: nat
  pc :: start_pc
  trace :: "effect list"
  exitStatus :: "nat option"

definition maxRestarts :: nat where
  "maxRestarts = 3"

definition restartDelay :: nat where
  "restartDelay = 5000"

definition maxAttempts :: nat where
  "maxAttempts = 30"

subsection \<open>\<open>CONFIG\<close>\<close>

definition path_join :: "string \<Rightarrow> string list \<Rightarrow> string" where
  "path_join d parts = foldl (\<lambda>acc p. acc @ ''/'' @ p) d parts"

fun config_cwd :: "server \<Rightarrow> name \<Rightarrow> string" where
  "config_cwd s Backend = path_join (dirname s) [''framework'']"
| "config_cwd s Frontend = path_join (dirname s) [''dashboard'']"
| "config_cwd s Stagehand = dirname s"

fun config_command :: "server \<Rightarrow> name \<Rightarrow> string" where
  "config_command s Backend = backendCommand s"
| "config_command s Frontend = ''npm''"
| "config_command s Stagehand = ''node''"

fun config_args :: "server \<Rightarrow> name \<Rightarrow> string list" where
  "config_args s Backend = [''src/main.py'']"
| "config_args s Frontend =
     (if nodeEnv s = Some ''production''
      then [''run'', ''preview'', ''--'', ''--host'', ''0.0.0.0'', ''--port'', ''5173'']
      else [''run'', ''dev'', ''--'', ''--host'', ''0.0.0.0''])"
| "config_args s Stagehand = [''stagehand-server.js'']"

fun config_port :: "name \<Rightarrow> nat" where
  "config_port Backend = 5001"
| "config_port Frontend = 5173"
| "config_port Stagehand = 8081"

text \<open>\<open>Array.prototype.join\<close> with a separator.\<close>

fun join_with :: "string \<Rightarrow> string list \<Rightarrow> string" where
  "join_with sep [] = []"
| "join_with sep [x] = x"
| "join_with sep (x # y # ys) = x @ sep @ join_with sep (y # ys)"

section \<open>Logging\<close>

text \<open>
  \<open>log(level, message, service = 'MAIN')\<close>. \<open>this.logStream\<close> is set by the constructor
  and never cleared, so the test \<open>if (this.logStream)\<close> always succeeds; after
  \<open>logStream.end()\<close> a write no longer reaches the file. Every call reads the clock
  once (\<open>new Date().toISOString()\<close>): the clock is the function \<open>now\<close>, read at \<open>tick\<close>.

  The field \<open>logFile\<close> holds the records handed to \<open>logStream.write\<close> while the stream
  is open, in the order of the calls. The stream buffers: a record handed to it is written
  to the disk later, and \<open>process.exit\<close> follows \<open>logStream.end()\<close> without waiting for
  the stream to finish. Whether the records buffered at that moment reach the file on the
  disk is not modelled; \<open>logFile\<close> is what the supervisor asked to be written, not the
  contents of the file after the exit.
\<close>

definition write_line :: "string \<Rightarrow> server \<Rightarrow> server" where
  "write_line logMessage s =
     s\<lparr>logFile := (if logEnded s then logFile s else logFile s @ [logMessage]),
       console := console s @ [trim logMessage]\<rparr>"

definition log_line :: "string \<Rightarrow> string \<Rightarrow> string \<Rightarrow> string \<Rightarrow> string" where
  "log_line timestamp level service message =
     ''['' @ timestamp @ ''] ['' @ level @ ''] ['' @ service @ ''] '' @ message @ [CHR 0x0A]"

definition log :: "string \<Rightarrow> string \<Rightarrow> string \<Rightarrow> server \<Rightarrow> server" where
  "log level message service s =
     write_line (log_line (now s (tick s)) level service message) (s\<lparr>tick := Suc (tick s)\<rparr>)"

definition detectedLevel :: "string \<Rightarrow> string" where
  "detectedLevel message =
     (let d0 = (case logLevelMatch message of Some l \<Rightarrow> l | None \<Rightarrow> ''INFO'');
          d1 = (if d0 = ''CRITICAL'' then ''ERROR'' else d0)
      in if d1 = ''DEBUG'' then ''INFO'' else d1)"

definition logProcessOutput :: "string \<Rightarrow> string \<Rightarrow> server \<Rightarrow> server" where
  "logProcessOutput message service s =
     (if hasTimestamp message
      then write_line (''['' @ detectedLevel message @ ''] ['' @ service @ ''] '' @ message @ [CHR 0x0A]) s
      else log (detectedLevel message) message service s)"

section \<open>Processes, restart and shutdown\<close>

definition emit :: "effect \<Rightarrow> server \<Rightarrow> server" where
  "emit e s = s\<lparr>trace := trace s @ [e]\<rparr>"

definition setTimeout :: "timer \<Rightarrow> nat \<Rightarrow> server \<Rightarrow> server" where
  "setTimeout t ms s = emit (ESetTimeout t ms) (s\<lparr>timers := timers s @ [t]\<rparr>)"

definition clearTimeout :: "timer \<Rightarrow> server \<Rightarrow> server" where
  "clearTimeout t s = s\<lparr>timers := removeAll t (timers s)\<rparr>"

text \<open>
  \<open>child.kill(signal)\<close>: the signal goes out, and the child's \<open>killed\<close> flag is set when
  the signal could be delivered, that is when the child has not exited yet.
\<close>

definition kill :: "nat \<Rightarrow> string \<Rightarrow> server \<Rightarrow> server" where
  "kill h sig s =
     emit (EKill h sig) (s\<lparr>killed := (if h \<in> exitedH s then killed s else insert h (killed s))\<rparr>)"

text \<open>
  \<open>spawnProcess(name, config)\<close>: three log lines, then \<open>spawn\<close>. The handlers it attaches
  to the child are the functions \<open>on_child_*\<close> below; they stay attached to a child that
  \<open>startProcess\<close> has replaced.
\<close>

definition spawnProcess :: "name \<Rightarrow> server \<Rightarrow> nat \<times> server" where
  "spawnProcess n s =
     (let up = toUpperCase (name_str n);
          s1 = log ''INFO'' (''Starting '' @ name_str n @ '' process...'') up s;
          s2 = log ''INFO'' (''Command: '' @ config_command s n @ '' '' @ join_with '' '' (config_args s n)) up s1;
          s3 = log ''INFO'' (''Working Directory: '' @ config_cwd s n) up s2;
          h = nextHandle s3
      in (h, emit (ESpawn n h) (s3\<lparr>nextHandle := Suc h, owner := (owner s3)(h \<mapsto> n)\<rparr>)))"

definition startProcess :: "name \<Rightarrow> server \<Rightarrow> server" where
  "startProcess n s =
     (let s1 = (case processes s n of Some old \<Rightarrow> kill old ''SIGTERM'' s | None \<Rightarrow> s);
          (h, s2) = spawnProcess n s1
      in s2\<lparr>processes := (processes s2)(n := Some h)\<rparr>)"

text \<open>
  The end of \<open>shutdown\<close>, after \<open>await Promise.all(shutdownPromises)\<close>: close the log
  stream, log once more, \<open>process.exit(exitCode)\<close>. The three statements run without a
  turn of the event loop between them, so the effect \<open>ELogEnd\<close> says that \<open>end()\<close> was
  called, not that the stream was flushed before the exit.
\<close>

definition shutdown_finish :: "nat \<Rightarrow> server \<Rightarrow> server" where
  "shutdown_finish exitCode s =
     (let s1 = emit ELogEnd (s\<lparr>logEnded := True\<rparr>);
          s2 = log ''INFO'' ''LinkedIn Research Suite shutdown complete'' ''MAIN'' s1
      in emit (EExit exitCode) (s2\<lparr>exitStatus := Some exitCode\<rparr>))"

text \<open>
  One round of the loop over \<open>Object.entries(this.processes)\<close>: the executor of the promise
  sets the 10 second timer, attaches the exit listener, logs and sends SIGTERM.
\<close>

definition stopProcess :: "server \<Rightarrow> name \<Rightarrow> server" where
  "stopProcess s n =
     (case processes s n of
        None \<Rightarrow> s
      | Some h \<Rightarrow>
          if h \<in> killed s then s
          else (let s1 = setTimeout (TForceKill n h) 10000 s;
                    s2 = s1\<lparr>exitListeners := exitListeners s1 @ [h], pending := pending s1 @ [h]\<rparr>;
                    s3 = log ''INFO'' (''Stopping '' @ name_str n @ '' process...'') (toUpperCase (name_str n)) s2
                in kill h ''SIGTERM'' s3))"

text \<open>
  \<open>shutdown(exitCode = 0)\<close>. With no promise to wait for, \<open>Promise.all([])\<close> is already
  resolved and the rest runs before any other event; otherwise the continuation waits
  in \<open>awaiting\<close> until the last promise of \<open>pending\<close> resolves.
\<close>

definition shutdown :: "nat \<Rightarrow> server \<Rightarrow> server" where
  "shutdown exitCode s =
     (if isShuttingDown s
      then log ''WARNING'' ''Shutdown already in progress...'' ''MAIN'' s
      else (let s1 = s\<lparr>isShuttingDown := True\<rparr>;
                s2 = log ''INFO'' ''Shutting down services...'' ''MAIN'' s1;
                s3 = foldl stopProcess s2 service_keys
            in if pending s3 = [] then shutdown_finish exitCode s3
               else s3\<lparr>awaiting := Some exitCode\<rparr>))"

text \<open>\<open>resolve()\<close> of the shutdown promise of child \<open>h\<close>.\<close>

definition resolve :: "nat \<Rightarrow> server \<Rightarrow> server" where
  "resolve h s =
     (if h \<in> set (pending s)
      then (let s1 = s\<lparr>pending := removeAll h (pending s)\<rparr>
            in if pending s1 = []
               then (case awaiting s1 of Some c \<Rightarrow> shutdown_finish c s1 | None \<Rightarrow> s1)
               else s1)
      else s)"

definition handleProcessFailure :: "name \<Rightarrow> server \<Rightarrow> server" where
  "handleProcessFailure processName s =
     (let restartCount = restartCounts s processName;
          up = toUpperCase (name_str processName)
      in if restartCount \<ge> maxRestarts
         then shutdown 1
                (log ''ERROR'' (name_str processName @ '' exceeded maximum restart attempts (''
                                  @ show_nat maxRestarts @ '')'') up s)
         else (let s1 = s\<lparr>restartCounts := (restartCounts s)(processName := Suc restartCount)\<rparr>;
                   s2 = log ''INFO'' (''Restarting '' @ name_str processName @ '' in ''
                                        @ show_nat restartDelay @ ''ms (attempt ''
                                        @ show_nat (restartCounts s1 processName) @ ''/''
                                        @ show_nat maxRestarts @ '')'') up s1
               in setTimeout (TRestart processName) restartDelay s2))"

text \<open>The callback of the restart timer.\<close>

definition restart_callback :: "name \<Rightarrow> server \<Rightarrow> server" where
  "restart_callback processName s =
     (if \<not> isShuttingDown s then startProcess processName s else s)"

text \<open>The callback of the 10 second timer of \<open>shutdown\<close>.\<close>

definition force_kill_callback :: "name \<Rightarrow> nat \<Rightarrow> server \<Rightarrow> server" where
  "force_kill_callback n h s =
     resolve h (kill h ''SIGKILL''
       (log ''WARNING'' (''Force killing '' @ name_str n @ '' process...'') (toUpperCase (name_str n)) s))"

subsection \<open>The handlers attached to a child\<close>

text \<open>A JavaScript value that is a number or \<open>null\<close>, a string or \<open>null\<close>, in a template.\<close>

definition js_num :: "nat option \<Rightarrow> string" where
  "js_num v = (case v of None \<Rightarrow> ''null'' | Some n \<Rightarrow> show_nat n)"

definition js_str :: "string option \<Rightarrow> string" where
  "js_str v = (case v of None \<Rightarrow> ''null'' | Some x \<Rightarrow> x)"

definition on_child_spawn :: "name \<Rightarrow> nat \<Rightarrow> server \<Rightarrow> server" where
  "on_child_spawn n ospid s =
     log ''INFO'' (name_str n @ '' process spawned (PID: '' @ show_nat ospid @ '')'')
       (toUpperCase (name_str n)) s"

definition on_child_error :: "name \<Rightarrow> string \<Rightarrow> server \<Rightarrow> server" where
  "on_child_error n msg s =
     handleProcessFailure n
       (log ''ERROR'' (name_str n @ '' process error: '' @ msg) (toUpperCase (name_str n)) s)"

definition on_child_exit :: "name \<Rightarrow> nat option \<Rightarrow> string option \<Rightarrow> server \<Rightarrow> server" where
  "on_child_exit n code signal s =
     (if \<not> isShuttingDown s
      then handleProcessFailure n
             (log ''ERROR'' (name_str n @ '' process exited unexpectedly (code: '' @ js_num code
                               @ '', signal: '' @ js_str signal @ '')'') (toUpperCase (name_str n)) s)
      else log ''INFO'' (name_str n @ '' process exited gracefully'') (toUpperCase (name_str n)) s)"

definition on_child_data :: "name \<Rightarrow> string \<Rightarrow> server \<Rightarrow> server" where
  "on_child_data n data s =
     (let message = trim data
      in if message \<noteq> [] then logProcessOutput message (toUpperCase (name_str n)) s else s)"

text \<open>The exit listener that \<open>shutdown\<close> attaches to a child it is stopping.\<close>

definition shutdown_exit_listener :: "name \<Rightarrow> nat \<Rightarrow> server \<Rightarrow> server" where
  "shutdown_exit_listener n h s =
     resolve h
       (log ''INFO'' (name_str n @ '' process stopped'') (toUpperCase (name_str n))
          (clearTimeout (TForceKill n h) s))"

subsection \<open>The handlers attached to the supervisor's own process\<close>

definition on_signal :: "string \<Rightarrow> server \<Rightarrow> server" where
  "on_signal signal s =
     shutdown 0 (log ''INFO'' (''Received '' @ signal @ '', starting graceful shutdown...'') ''MAIN'' s)"

definition on_uncaughtException :: "string \<Rightarrow> string \<Rightarrow> server \<Rightarrow> server" where
  "on_uncaughtException message stack s =
     shutdown 1 (log ''ERROR'' stack ''MAIN''
       (log ''ERROR'' (''Uncaught Exception: '' @ message) ''MAIN'' s))"

definition on_unhandledRejection :: "string \<Rightarrow> string \<Rightarrow> server \<Rightarrow> server" where
  "on_unhandledRejection promise reason s =
     shutdown 1
       (log ''ERROR'' (''Unhandled Rejection at: '' @ promise @ '', reason: '' @ reason) ''MAIN'' s)"

section \<open>Startup\<close>

text \<open>What \<open>fs.existsSync\<close> answers for the five paths \<open>checkPrerequisites\<close> looks at.\<close>

record prerequisites =
  backendDir :: bool
  frontendDir :: bool
  mainPy :: bool
  packageJson :: bool
  venv :: bool

text \<open>
  \<open>checkPrerequisites\<close>: the first component is the message of the error it throws, if
  it throws one.
\<close>

definition checkPrerequisites :: "prerequisites \<Rightarrow> server \<Rightarrow> string option \<times> server" where
  "checkPrerequisites fs s =
     (let s1 = log ''INFO'' ''Checking prerequisites...'' ''MAIN'' s
      in if \<not> backendDir fs
           then (Some (''Backend directory not found: '' @ config_cwd s1 Backend), s1)
         else if \<not> frontendDir fs
           then (Some (''Frontend directory not found: '' @ config_cwd s1 Frontend), s1)
         else if \<not> mainPy fs
           then (Some (''Backend main.py not found: ''
                        @ path_join (config_cwd s1 Backend) [''src'', ''main.py'']), s1)
         else if \<not> packageJson fs
           then (Some (''Frontend package.json not found: ''
                        @ path_join (config_cwd s1 Frontend) [''package.json'']), s1)
         else (let s2 = (if venv fs
                         then log ''INFO'' ''Using virtual environment for Python backend'' ''MAIN''
                                (s1\<lparr>backendCommand :=
                                      path_join (path_join (config_cwd s1 Backend) [''venv''])
                                        [''bin'', ''python'']\<rparr>)
                         else s1)
               in (None, log ''INFO'' ''Prerequisites check passed'' ''MAIN'' s2)))"

fun healthUrl :: "name \<Rightarrow> string" where
  "healthUrl Stagehand = ''http://localhost:'' @ show_nat (config_port Stagehand) @ ''/health''"
| "healthUrl Backend = ''http://localhost:'' @ show_nat (config_port Backend) @ ''/api/health''"
| "healthUrl Frontend = ''http://localhost:'' @ show_nat (config_port Frontend)"

text \<open>
  One call of \<open>checkHealth\<close> inside \<open>waitForHealthcheck(name, port)\<close>: \<open>curl\<close> is started
  and \<open>start\<close> is suspended until its callback runs.
\<close>

definition checkHealth :: "name \<Rightarrow> nat \<Rightarrow> server \<Rightarrow> server" where
  "checkHealth n attempt s = (emit (ECurlHealth (healthUrl n)) s)\<lparr>pc := PcHealth n attempt\<rparr>"

definition waitForHealthcheck :: "name \<Rightarrow> server \<Rightarrow> server" where
  "waitForHealthcheck n s =
     checkHealth n 1
       (log ''INFO'' (''Waiting for '' @ name_str n @ '' to be healthy on port ''
                        @ show_nat (config_port n) @ ''...'') (toUpperCase (name_str n)) s)"

text \<open>
  What \<open>start\<close> does once \<open>waitForHealthcheck(name, ...)\<close> has returned; the value it
  returned is not looked at. After stagehand comes \<open>this.cleanupStagehandSessions()\<close>,
  which suspends \<open>start\<close> on its \<open>fetch\<close>.
\<close>

definition rocket :: string where
  "rocket = [CHR 0xF0, CHR 0x9F, CHR 0x9A, CHR 0x80]"

definition bar_chart :: string where
  "bar_chart = [CHR 0xF0, CHR 0x9F, CHR 0x93, CHR 0x8A]"

definition wrench :: string where
  "wrench = [CHR 0xF0, CHR 0x9F, CHR 0x94, CHR 0xA7]"

definition robot :: string where
  "robot = [CHR 0xF0, CHR 0x9F, CHR 0xA4, CHR 0x96]"

fun after_health :: "name \<Rightarrow> server \<Rightarrow> server" where
  "after_health Stagehand s = (emit EFetchCleanup s)\<lparr>pc := PcFetch\<rparr>"
| "after_health Backend s = waitForHealthcheck Frontend s"
| "after_health Frontend s =
     (log ''INFO'' ''Press Ctrl+C to stop the services'' ''MAIN''
     (log ''INFO'' (robot @ '' Stagehand AI: http://localhost:'' @ show_nat (config_port Stagehand)) ''MAIN''
     (log ''INFO'' (wrench @ '' API: http://localhost:'' @ show_nat (config_port Backend) @ ''/api'') ''MAIN''
     (log ''INFO'' (bar_chart @ '' Dashboard: http://localhost:'' @ show_nat (config_port Frontend)) ''MAIN''
     (log ''INFO'' (rocket @ '' LinkedIn Research Suite is running!'') ''MAIN'' s)))))\<lparr>pc := PcDone\<rparr>"

text \<open>
  The callback of the health \<open>curl\<close>, and the rest of that round of the loop of
  \<open>waitForHealthcheck\<close>. On success the inner \<open>cleanupStagehandSessions\<close> waits one second
  when the service is stagehand and does nothing otherwise.
\<close>

definition on_health_result :: "name \<Rightarrow> nat \<Rightarrow> bool \<Rightarrow> server \<Rightarrow> server" where
  "on_health_result n attempt ok s =
     (let s0 = emit (EHealthResult n attempt ok) s;
          up = toUpperCase (name_str n)
      in if ok
         then (let s1 = log ''INFO'' (name_str n @ '' is healthy!'') up s0
               in if n = Stagehand
                  then (setTimeout TCleanupDelay 1000 s1)\<lparr>pc := PcCleanupSleep\<rparr>
                  else after_health n s1)
         else if attempt < maxAttempts
         then (setTimeout THealthRetry 2000 s0)\<lparr>pc := PcHealthSleep n attempt\<rparr>
         else after_health n
                (log ''WARNING'' (name_str n @ '' health check timed out after ''
                                    @ show_nat (maxAttempts * 2) @ '' seconds'') up s0))"

text \<open>The outcome of the \<open>fetch\<close> of \<open>this.cleanupStagehandSessions()\<close>.\<close>

datatype fetch_result =
    FetchOk "string option"
  | FetchStatus nat
  | FetchError string

definition cleanupStagehandSessions_done :: "fetch_result \<Rightarrow> server \<Rightarrow> server" where
  "cleanupStagehandSessions_done r s =
     (case r of
        FetchOk m \<Rightarrow>
          log ''INFO'' (''Stagehand session cleanup: ''
                         @ (case m of None \<Rightarrow> ''completed''
                            | Some x \<Rightarrow> if x = [] then ''completed'' else x)) ''STAGEHAND'' s
      | FetchStatus st \<Rightarrow>
          log ''WARNING'' (''Stagehand cleanup returned status '' @ show_nat st) ''STAGEHAND'' s
      | FetchError m \<Rightarrow>
          log ''WARNING'' (''Stagehand session cleanup failed: '' @ m) ''STAGEHAND'' s)"

text \<open>\<open>start\<close> from the return of the \<open>fetch\<close> to the three second wait.\<close>

definition start_after_fetch :: "fetch_result \<Rightarrow> server \<Rightarrow> server" where
  "start_after_fetch r s =
     (setTimeout TBackendDelay 3000
        (startProcess Backend (cleanupStagehandSessions_done r s)))\<lparr>pc := PcBackendDelay\<rparr>"

text \<open>\<open>start\<close> after the three second wait.\<close>

definition start_after_delay :: "server \<Rightarrow> server" where
  "start_after_delay s = waitForHealthcheck Backend (startProcess Frontend s)"

text \<open>The callback of the \<open>curl -X POST .../sessions/cleanup\<close> of \<open>waitForHealthcheck\<close>.\<close>

definition on_cleanup_curl :: "bool \<Rightarrow> string \<Rightarrow> server \<Rightarrow> server" where
  "on_cleanup_curl ok stderr s =
     (if ok then log ''INFO'' ''Cleaned up old Stagehand sessions'' ''STAGEHAND'' s
      else log ''WARNING'' (''Session cleanup failed: '' @ stderr) ''STAGEHAND'' s)"

text \<open>\<open>start\<close> up to its first suspension.\<close>

definition start :: "prerequisites \<Rightarrow> server \<Rightarrow> server" where
  "start fs s =
     (case checkPrerequisites fs s of
        (Some message, s1) \<Rightarrow>
          shutdown 1 ((log ''ERROR'' (''Failed to start: '' @ message) ''MAIN'' s1)\<lparr>pc := PcFailed\<rparr>)
      | (None, s1) \<Rightarrow>
          waitForHealthcheck Stagehand
            (startProcess Stagehand (log ''INFO'' ''Starting services...'' ''MAIN'' s1)))"

text \<open>The constructor: the initial fields, then the three lines of \<open>setupLogging\<close>.\<close>

definition UnifiedServer :: "(nat \<Rightarrow> string) \<Rightarrow> string \<Rightarrow> string option \<Rightarrow> nat \<Rightarrow> server" where
  "UnifiedServer clock dir env pid =
     (let s0 = \<lparr>now = clock, tick = 0, dirname = dir, nodeEnv = env, ownPid = pid,
                backendCommand = ''python'',
                processes = (\<lambda>_. None), logEnded = False, logFile = [], console = [],
                isShuttingDown = False, restartCounts = (\<lambda>_. 0),
                nextHandle = 0, owner = Map.empty, exitedH = {}, killed = {},
                timers = [], exitListeners = [], pending = [], awaiting = None,
                cleanupCurls = 0, pc = PcInit, trace = [], exitStatus = None\<rparr>;
          s1 = log ''INFO'' ''LinkedIn Research Suite - Unified Server Starting'' ''MAIN'' s0;
          s2 = log ''INFO'' (''Node Environment: ''
                              @ (case nodeEnv s0 of None \<Rightarrow> ''development''
                                 | Some e \<Rightarrow> if e = [] then ''development'' else e)) ''MAIN'' s1
      in log ''INFO'' (''Process ID: '' @ show_nat (ownPid s0)) ''MAIN'' s2)"

text \<open>\<open>main\<close>: construct the server and call \<open>start\<close>.\<close>

definition main :: "(nat \<Rightarrow> string) \<Rightarrow> string \<Rightarrow> string option \<Rightarrow> nat \<Rightarrow> prerequisites \<Rightarrow> server" where
  "main clock dir env pid fs = start fs (UnifiedServer clock dir env pid)"

section \<open>The event loop\<close>

text \<open>
  Everything after \<open>main\<close> happens in callbacks. An event is one callback that the
  runtime runs: of a child (named by its handle), of a timer, of a signal or fault of
  the supervisor's own process, or of a request that \<open>start\<close> is waiting for.
\<close>

datatype event =
    ChildSpawned nat nat
  | ChildError nat string
  | ChildExit nat "nat option" "string option"
  | ChildData nat string
  | Timer timer
  | Signal string
  | UncaughtException string string
  | UnhandledRejection string string
  | HealthCurl bool
  | CleanupCurl bool string
  | FetchDone fetch_result

text \<open>
  The callback of a timer runs only for a timer that is set, once. The continuations of
  \<open>start\<close> run only where \<open>start\<close> is suspended.
\<close>

definition on_timer :: "timer \<Rightarrow> server \<Rightarrow> server" where
  "on_timer t s =
     (if t \<notin> set (timers s) then s
      else (let s1 = s\<lparr>timers := remove1 t (timers s)\<rparr>
            in case t of
                 TRestart n \<Rightarrow> restart_callback n s1
               | TForceKill n h \<Rightarrow> force_kill_callback n h s1
               | THealthRetry \<Rightarrow>
                   (case pc s1 of PcHealthSleep n attempt \<Rightarrow> checkHealth n (Suc attempt) s1 | _ \<Rightarrow> s1)
               | TCleanupDelay \<Rightarrow>
                   (case pc s1 of
                      PcCleanupSleep \<Rightarrow>
                        after_health Stagehand
                          (emit ECurlCleanup (s1\<lparr>cleanupCurls := Suc (cleanupCurls s1)\<rparr>))
                    | _ \<Rightarrow> s1)
               | TBackendDelay \<Rightarrow>
                   (case pc s1 of PcBackendDelay \<Rightarrow> start_after_delay s1 | _ \<Rightarrow> s1)))"

text \<open>
  The exit of a child runs the listeners that were attached when the event is emitted,
  in the order in which they were attached: the one of \<open>spawnProcess\<close>, then the one of
  \<open>shutdown\<close> if \<open>shutdown\<close> had attached it before. A child exits once.
\<close>

definition child_exit :: "nat \<Rightarrow> nat option \<Rightarrow> string option \<Rightarrow> server \<Rightarrow> server" where
  "child_exit h code signal s =
     (case owner s h of
        None \<Rightarrow> s
      | Some n \<Rightarrow>
          if h \<in> exitedH s then s
          else (let listening = (h \<in> set (exitListeners s));
                    s1 = on_child_exit n code signal (s\<lparr>exitedH := insert h (exitedH s)\<rparr>)
                in if listening \<and> exitStatus s1 = None then shutdown_exit_listener n h s1 else s1))"

definition step :: "event \<Rightarrow> server \<Rightarrow> server" where
  "step ev s =
     (if exitStatus s \<noteq> None then s
      else (case ev of
              ChildSpawned h ospid \<Rightarrow>
                (case owner s h of Some n \<Rightarrow> on_child_spawn n ospid s | None \<Rightarrow> s)
            | ChildError h msg \<Rightarrow>
                (case owner s h of Some n \<Rightarrow> on_child_error n msg s | None \<Rightarrow> s)
            | ChildExit h code signal \<Rightarrow> child_exit h code signal s
            | ChildData h data \<Rightarrow>
                (case owner s h of Some n \<Rightarrow> on_child_data n data s | None \<Rightarrow> s)
            | Timer t \<Rightarrow> on_timer t s
            | Signal signal \<Rightarrow> on_signal signal s
            | UncaughtException message stack \<Rightarrow> on_uncaughtException message stack s
            | UnhandledRejection promise reason \<Rightarrow> on_unhandledRejection promise reason s
            | HealthCurl ok \<Rightarrow>
                (case pc s of PcHealth n attempt \<Rightarrow> on_health_result n attempt ok s | _ \<Rightarrow> s)
            | CleanupCurl ok stderr \<Rightarrow>
                (if 0 < cleanupCurls s
                 then on_cleanup_curl ok stderr (s\<lparr>cleanupCurls := cleanupCurls s - 1\<rparr>)
                 else s)
            | FetchDone r \<Rightarrow>
                (case pc s of PcFetch \<Rightarrow> start_after_fetch r s | _ \<Rightarrow> s)))"

fun run :: "event list \<Rightarrow> server \<Rightarrow> server" where
  "run [] s = s"
| "run (ev # evs) s = run evs (step ev s)"

section \<open>The specification's wording, and example inputs\<close>

text \<open>
  The reclassification of a child's output line as the specification words it: the
  child's own severity is kept and the time is not stamped again only when the line
  carries both a timestamp and a severity token; every other line is wrapped with the
  supervisor's own timestamp. Severities are downgraded as in the code.
\<close>

definition spec_severity :: "string \<Rightarrow> string" where
  "spec_severity l = (if l = ''DEBUG'' then ''INFO'' else if l = ''CRITICAL'' then ''ERROR'' else l)"

definition spec_reclassify :: "string \<Rightarrow> string \<Rightarrow> string \<Rightarrow> string" where
  "spec_reclassify own_timestamp service line =
     (case logLevelMatch line of
        Some l \<Rightarrow>
          if hasTimestamp line
          then ''['' @ spec_severity l @ ''] ['' @ service @ ''] '' @ line @ [CHR 0x0A]
          else log_line own_timestamp (spec_severity l) service line
      | None \<Rightarrow> log_line own_timestamp ''INFO'' service line)"

text \<open>
  The format of a record of the log file as the specification words it,
  \<open>[timestamp] [LEVEL] [SERVICE] message\<close>, on one line.
\<close>

definition spec_log_format :: "string \<Rightarrow> bool" where
  "spec_log_format r =
     (\<exists>timestamp level service message. r = log_line timestamp level service message)"

text \<open>
  The two formats the code writes. The first is the format of the specification, with a
  reading of the supervisor's clock as the timestamp, one of three levels and one of four
  services. The second is for a child's output that starts with a timestamp of its own:
  level and service in brackets, then the output as it came.
\<close>

definition log_levels :: "string list" where
  "log_levels = [''INFO'', ''WARNING'', ''ERROR'']"

definition log_services :: "string list" where
  "log_services = [''MAIN'', ''BACKEND'', ''FRONTEND'', ''STAGEHAND'']"

definition own_log_format :: "(nat \<Rightarrow> string) \<Rightarrow> string \<Rightarrow> bool" where
  "own_log_format clock r =
     (\<exists>k level service message.
        level \<in> set log_levels \<and> service \<in> set log_services \<and>
        r = log_line (clock k) level service message)"

definition child_log_format :: "string \<Rightarrow> bool" where
  "child_log_format r =
     (\<exists>level service message.
        level \<in> set log_levels \<and> service \<in> set log_services \<and> hasTimestamp message \<and>
        r = ''['' @ level @ ''] ['' @ service @ ''] '' @ message @ [CHR 0x0A])"

text \<open>An example supervisor: a clock that always reads the same instant, all prerequisites met.\<close>

definition clock0 :: "nat \<Rightarrow> string" where
  "clock0 k = ''2026-11-03T00:00:00.000Z''"

definition fs_ok :: prerequisites where
  "fs_ok = \<lparr>backendDir = True, frontendDir = True, mainPy = True, packageJson = True, venv = False\<rparr>"

definition server0 :: server where
  "server0 = UnifiedServer clock0 ''/app'' None 4242"

definition main0 :: server where
  "main0 = main clock0 ''/app'' None 4242 fs_ok"

text \<open>
  Observations on the trace. \<open>grows_by K s s'\<close>: the trace of \<open>s'\<close> is the trace of \<open>s\<close>
  followed by effects that all satisfy \<open>K\<close>. \<open>shutdown_effect\<close>: the effects of stopping
  children and leaving. \<open>restart_timer n\<close>: the timer of a restart of service \<open>n\<close>.
\<close>

definition grows_by :: "(effect \<Rightarrow> bool) \<Rightarrow> server \<Rightarrow> server \<Rightarrow> bool" where
  "grows_by K s s' =
     (take (length (trace s)) (trace s') = trace s \<and>
      list_all K (drop (length (trace s)) (trace s')))"

fun shutdown_effect :: "effect \<Rightarrow> bool" where
  "shutdown_effect (EKill h sig) = True"
| "shutdown_effect (ESetTimeout (TForceKill n h) ms) = True"
| "shutdown_effect ELogEnd = True"
| "shutdown_effect (EExit c) = True"
| "shutdown_effect e = False"

definition restart_timer :: "name \<Rightarrow> effect" where
  "restart_timer n = ESetTimeout (TRestart n) restartDelay"

definition failure_effect :: "name \<Rightarrow> effect \<Rightarrow> bool" where
  "failure_effect n e = (shutdown_effect e \<or> e = restart_timer n)"

text \<open>
  \<open>counted m s t\<close>: from \<open>s\<close> to \<open>t\<close> the restart counter of service \<open>m\<close> and the restart
  timers set for \<open>m\<close> either both stay as they are, or the counter was below the maximum
  and both go up by one.
\<close>

definition restarts_set :: "name \<Rightarrow> server \<Rightarrow> effect list" where
  "restarts_set m s = filter (\<lambda>e. e = restart_timer m) (trace s)"




text \<open>
  \<open>proj P s\<close>: the effects of the trace that satisfy \<open>P\<close>, in order. \<open>is_leave\<close>: closing
  the log stream and \<open>process.exit\<close>. \<open>exit_once\<close>: the supervisor has closed its log and
  called \<open>process.exit\<close> exactly when it has an exit status, and then once, with that
  status. \<open>committed c\<close>: a shutdown is under way whose continuation will exit with \<open>c\<close>.
\<close>

definition proj :: "(effect \<Rightarrow> bool) \<Rightarrow> server \<Rightarrow> effect list" where
  "proj P s = filter P (trace s)"

fun is_leave :: "effect \<Rightarrow> bool" where
  "is_leave ELogEnd = True"
| "is_leave (EExit c) = True"
| "is_leave e = False"

definition exit_once :: "server \<Rightarrow> bool" where
  "exit_once s =
     (proj is_leave s = (case exitStatus s of None \<Rightarrow> [] | Some c \<Rightarrow> [ELogEnd, EExit c]))"

definition committed :: "nat \<Rightarrow> server \<Rightarrow> bool" where
  "committed c s =
     (isShuttingDown s \<and>
      (exitStatus s = Some c \<or> (exitStatus s = None \<and> awaiting s = Some c \<and> pending s \<noteq> [])))"

text \<open>
  \<open>settled h s\<close>: the child \<open>h\<close> has exited or has been sent SIGKILL. \<open>stopping h s\<close>:
  \<open>shutdown\<close> has sent \<open>h\<close> SIGTERM, listens for its exit, waits for it, and has set a
  timer of 10 seconds to kill it. \<open>waits_ok\<close>: every child \<open>shutdown\<close> listens to is
  still waited for or is settled; after the exit nothing is waited for, and closing the
  log and exiting were the last two things done.
\<close>

definition settled :: "nat \<Rightarrow> server \<Rightarrow> bool" where
  "settled h s = (h \<in> exitedH s \<or> EKill h ''SIGKILL'' \<in> set (trace s))"

definition stopping :: "nat \<Rightarrow> server \<Rightarrow> bool" where
  "stopping h s =
     (EKill h ''SIGTERM'' \<in> set (trace s) \<and> h \<in> set (exitListeners s) \<and> h \<in> set (pending s) \<and>
      (\<exists>n\<in>set service_keys.
         TForceKill n h \<in> set (timers s) \<and> ESetTimeout (TForceKill n h) 10000 \<in> set (trace s)))"

definition waits_ok :: "server \<Rightarrow> bool" where
  "waits_ok s =
     ((\<forall>h\<in>set (exitListeners s). h \<in> set (pending s) \<or> settled h s) \<and>
      (\<forall>c. exitStatus s = Some c \<longrightarrow>
         pending s = [] \<and> 2 \<le> length (trace s) \<and>
         drop (length (trace s) - 2) (trace s) = [ELogEnd, EExit c]))"

text \<open>
  \<open>handles_ok\<close>: every handle that is tracked, has been signalled or has a kill timer
  was given out by \<open>spawn\<close>; a tracked handle belongs to the service it is tracked for;
  kill timers exist only during shutdown; and before shutdown no tracked child has its
  \<open>killed\<close> flag set.
\<close>

definition handles_ok :: "server \<Rightarrow> bool" where
  "handles_ok s =
     ((\<forall>h\<in>killed s. h < nextHandle s) \<and>
      (\<forall>n h. processes s n = Some h \<longrightarrow> h < nextHandle s \<and> owner s h = Some n) \<and>
      (\<forall>n h. TForceKill n h \<in> set (timers s) \<longrightarrow> h < nextHandle s \<and> isShuttingDown s) \<and>
      (\<not> isShuttingDown s \<longrightarrow> (\<forall>n h. processes s n = Some h \<longrightarrow> h \<notin> killed s)))"

text \<open>
  The example supervisor after SIGTERM, while it waits for stagehand, and after stagehand
  has exited.
\<close>

definition stopping0 :: server where
  "stopping0 = run [Signal ''SIGTERM''] main0"

definition stopped0 :: server where
  "stopped0 = run [Signal ''SIGTERM'', ChildExit 0 None (Some ''SIGTERM'')] main0"

text \<open>A state without what has been written to the log file and the console.\<close>

definition without_logs :: "server \<Rightarrow> server" where
  "without_logs s = s\<lparr>logFile := [], console := []\<rparr>"

text \<open>
  A health check that never succeeds: \<open>failed_rounds k\<close> are the events of \<open>k\<close> rounds in
  which the check fails and the 2 second timer fires; \<open>failed_trace n a k\<close> is what the
  supervisor does in \<open>k\<close> such rounds for service \<open>n\<close>, starting with attempt \<open>a\<close>.
  \<open>untouched s t\<close>: from \<open>s\<close> to \<open>t\<close> nothing of the restart and shutdown machinery, the
  process table or the log has changed.
\<close>

fun failed_rounds :: "nat \<Rightarrow> event list" where
  "failed_rounds 0 = []"
| "failed_rounds (Suc k) = [HealthCurl False, Timer THealthRetry] @ failed_rounds k"

fun failed_trace :: "name \<Rightarrow> nat \<Rightarrow> nat \<Rightarrow> effect list" where
  "failed_trace n a 0 = []"
| "failed_trace n a (Suc k) =
     [EHealthResult n a False, ESetTimeout THealthRetry 2000, ECurlHealth (healthUrl n)]
       @ failed_trace n (Suc a) k"

definition untouched :: "server \<Rightarrow> server \<Rightarrow> bool" where
  "untouched s t =
     (restartCounts t = restartCounts s \<and> isShuttingDown t = isShuttingDown s \<and>
      exitStatus t = exitStatus s \<and> awaiting t = awaiting s \<and> pending t = pending s \<and>
      processes t = processes s \<and> nextHandle t = nextHandle s \<and>
      logFile t = logFile s \<and> logEnded t = logEnded s \<and> tick t = tick s \<and> now t = now s \<and>
      (\<forall>m. (TRestart m \<in> set (timers t)) = (TRestart m \<in> set (timers s))))"

text \<open>What \<open>start\<close> waits for after the health check of a service.\<close>

fun next_pc :: "name \<Rightarrow> start_pc" where
  "next_pc Stagehand = PcFetch"
| "next_pc Backend = PcHealth Frontend 1"
| "next_pc Frontend = PcDone"

text \<open>
  The example supervisor with all three services started and healthy, and the one that
  receives SIGINT while \<open>start\<close> waits for the answer to its cleanup request.
\<close>

definition running0 :: server where
  "running0 =
     run [HealthCurl True, Timer TCleanupDelay, FetchDone (FetchOk None), Timer TBackendDelay,
          HealthCurl True, HealthCurl True] main0"

definition interrupted0 :: server where
  "interrupted0 = run [HealthCurl True, Timer TCleanupDelay, Signal ''SIGINT''] main0"

text \<open>
  A request to clean up sessions, and a signal to a child. \<open>cleanup_first\<close>: among the
  effects, a cleanup request comes, and comes before any signal to a child, which is
  what the specification says of the handling of a termination signal.
\<close>

fun cleanup_effect :: "effect \<Rightarrow> bool" where
  "cleanup_effect ECurlCleanup = True"
| "cleanup_effect EFetchCleanup = True"
| "cleanup_effect e = False"

fun kill_effect :: "effect \<Rightarrow> bool" where
  "kill_effect (EKill h sig) = True"
| "kill_effect e = False"

fun cleanup_first :: "effect list \<Rightarrow> bool" where
  "cleanup_first [] = False"
| "cleanup_first (e # es) =
     (if cleanup_effect e then True else if kill_effect e then False else cleanup_first es)"

text \<open>The example supervisor while \<open>start\<close> waits for the answer to its cleanup request.\<close>

definition fetching0 :: server where
  "fetching0 = run [HealthCurl True, Timer TCleanupDelay] main0"

text \<open>
  \<open>records_ok s\<close>: every record handed to the log stream so far has one of the two
  formats, the timestamp of the first being a reading of the clock of \<open>s\<close>.
\<close>

definition records_ok :: "server \<Rightarrow> bool" where
  "records_ok s = (\<forall>r\<in>set (logFile s). own_log_format (now s) r \<or> child_log_format r)"

text \<open>
  A line of the backend, as the comment in \<open>logProcessOutput\<close> quotes it, and the record
  that the supervisor writes for it.
\<close>

definition backend_line :: string where
  "backend_line = ''2025-08-28 16:16:32,185 - src.services.emailondeck - INFO - Available domains: 5''"

definition backend_record :: string where
  "backend_record = ''[INFO] [BACKEND] '' @ backend_line @ [CHR 0x0A]"


text \<open>
  \<open>stop_sent k h m s\<close>: after the first \<open>k\<close> effects of the trace, the supervisor has set
  the timer of 10 seconds that kills child \<open>h\<close> of service \<open>m\<close> and has sent \<open>h\<close> SIGTERM;
  the timer is pending, \<open>h\<close> is waited for and its exit is listened to.
  \<open>kill_timer\<close>: setting such a timer, which only the loop of \<open>shutdown\<close> does.
\<close>

definition stop_sent :: "nat \<Rightarrow> nat \<Rightarrow> name \<Rightarrow> server \<Rightarrow> bool" where
  "stop_sent k h m s =
     (ESetTimeout (TForceKill m h) 10000 \<in> set (drop k (trace s)) \<and>
      EKill h ''SIGTERM'' \<in> set (drop k (trace s)) \<and>
      TForceKill m h \<in> set (timers s) \<and> h \<in> set (pending s) \<and> h \<in> set (exitListeners s))"

fun kill_timer :: "effect \<Rightarrow> bool" where
  "kill_timer (ESetTimeout (TForceKill n h) ms) = True"
| "kill_timer e = False"

text \<open>
  The interrupted example supervisor after its cleanup request has failed and stagehand
  has exited. \<open>signals_to h\<close>: a signal sent to child \<open>h\<close>.
\<close>

definition abandoned0 :: server where
  "abandoned0 =
     run [FetchDone (FetchError ''ECONNRESET''), ChildExit 0 None (Some ''SIGTERM'')] interrupted0"

fun signals_to :: "nat \<Rightarrow> effect \<Rightarrow> bool" where
  "signals_to h (EKill h' sig) = (h' = h)"
| "signals_to h e = False"

section \<open>Basic facts\<close>

subsection \<open>What the primitive operations leave alone\<close>

lemma write_line_frame [simp]:
  "now (write_line l s) = now s"
  "tick (write_line l s) = tick s"
  "dirname (write_line l s) = dirname s"
  "nodeEnv (write_line l s) = nodeEnv s"
  "ownPid (write_line l s) = ownPid s"
  "backendCommand (write_line l s) = backendCommand s"
  "processes (write_line l s) = processes s"
  "logEnded (write_line l s) = logEnded s"
  "isShuttingDown (write_line l s) = isShuttingDown s"
  "restartCounts (write_line l s) = restartCounts s"
  "nextHandle (write_line l s) = nextHandle s"
  "owner (write_line l s) = owner s"
  "exitedH (write_line l s) = exitedH s"
  "killed (write_line l s) = killed s"
  "timers (write_line l s) = timers s"
  "exitListeners (write_line l s) = exitListeners s"
  "pending (write_line l s) = pending s"
  "awaiting (write_line l s) = awaiting s"
  "cleanupCurls (write_line l s) = cleanupCurls s"
  "pc (write_line l s) = pc s"
  "trace (write_line l s) = trace s"
  "exitStatus (write_line l s) = exitStatus s"
  by (simp_all add: write_line_def)

lemma log_frame [simp]:
  "now (log l m sv s) = now s"
  "dirname (log l m sv s) = dirname s"
  "nodeEnv (log l m sv s) = nodeEnv s"
  "ownPid (log l m sv s) = ownPid s"
  "backendCommand (log l m sv s) = backendCommand s"
  "processes (log l m sv s) = processes s"
  "logEnded (log l m sv s) = logEnded s"
  "isShuttingDown (log l m sv s) = isShuttingDown s"
  "restartCounts (log l m sv s) = restartCounts s"
  "nextHandle (log l m sv s) = nextHandle s"
  "owner (log l m sv s) = owner s"
  "exitedH (log l m sv s) = exitedH s"
  "killed (log l m sv s) = killed s"
  "timers (log l m sv s) = timers s"
  "exitListeners (log l m sv s) = exitListeners s"
  "pending (log l m sv s) = pending s"
  "awaiting (log l m sv s) = awaiting s"
  "cleanupCurls (log l m sv s) = cleanupCurls s"
  "pc (log l m sv s) = pc s"
  "trace (log l m sv s) = trace s"
  "exitStatus (log l m sv s) = exitStatus s"
  by (simp_all add: log_def)

lemma emit_frame [simp]:
  "now (emit e s) = now s"
  "tick (emit e s) = tick s"
  "dirname (emit e s) = dirname s"
  "nodeEnv (emit e s) = nodeEnv s"
  "ownPid (emit e s) = ownPid s"
  "backendCommand (emit e s) = backendCommand s"
  "processes (emit e s) = processes s"
  "logEnded (emit e s) = logEnded s"
  "logFile (emit e s) = logFile s"
  "console (emit e s) = console s"
  "isShuttingDown (emit e s) = isShuttingDown s"
  "restartCounts (emit e s) = restartCounts s"
  "nextHandle (emit e s) = nextHandle s"
  "owner (emit e s) = owner s"
  "exitedH (emit e s) = exitedH s"
  "killed (emit e s) = killed s"
  "timers (emit e s) = timers s"
  "exitListeners (emit e s) = exitListeners s"
  "pending (emit e s) = pending s"
  "awaiting (emit e s) = awaiting s"
  "cleanupCurls (emit e s) = cleanupCurls s"
  "pc (emit e s) = pc s"
  "exitStatus (emit e s) = exitStatus s"
  by (simp_all add: emit_def)

lemma setTimeout_frame [simp]:
  "now (setTimeout t ms s) = now s"
  "tick (setTimeout t ms s) = tick s"
  "dirname (setTimeout t ms s) = dirname s"
  "nodeEnv (setTimeout t ms s) = nodeEnv s"
  "ownPid (setTimeout t ms s) = ownPid s"
  "backendCommand (setTimeout t ms s) = backendCommand s"
  "processes (setTimeout t ms s) = processes s"
  "logEnded (setTimeout t ms s) = logEnded s"
  "logFile (setTimeout t ms s) = logFile s"
  "console (setTimeout t ms s) = console s"
  "isShuttingDown (setTimeout t ms s) = isShuttingDown s"
  "restartCounts (setTimeout t ms s) = restartCounts s"
  "nextHandle (setTimeout t ms s) = nextHandle s"
  "owner (setTimeout t ms s) = owner s"
  "exitedH (setTimeout t ms s) = exitedH s"
  "killed (setTimeout t ms s) = killed s"
  "exitListeners (setTimeout t ms s) = exitListeners s"
  "pending (setTimeout t ms s) = pending s"
  "awaiting (setTimeout t ms s) = awaiting s"
  "cleanupCurls (setTimeout t ms s) = cleanupCurls s"
  "pc (setTimeout t ms s) = pc s"
  "exitStatus (setTimeout t ms s) = exitStatus s"
  by (simp_all add: setTimeout_def)

lemma clearTimeout_frame [simp]:
  "now (clearTimeout t s) = now s"
  "tick (clearTimeout t s) = tick s"
  "dirname (clearTimeout t s) = dirname s"
  "nodeEnv (clearTimeout t s) = nodeEnv s"
  "ownPid (clearTimeout t s) = ownPid s"
  "backendCommand (clearTimeout t s) = backendCommand s"
  "processes (clearTimeout t s) = processes s"
  "logEnded (clearTimeout t s) = logEnded s"
  "logFile (clearTimeout t s) = logFile s"
  "console (clearTimeout t s) = console s"
  "isShuttingDown (clearTimeout t s) = isShuttingDown s"
  "restartCounts (clearTimeout t s) = restartCounts s"
  "nextHandle (clearTimeout t s) = nextHandle s"
  "owner (clearTimeout t s) = owner s"
  "exitedH (clearTimeout t s) = exitedH s"
  "killed (clearTimeout t s) = killed s"
  "exitListeners (clearTimeout t s) = exitListeners s"
  "pending (clearTimeout t s) = pending s"
  "awaiting (clearTimeout t s) = awaiting s"
  "cleanupCurls (clearTimeout t s) = cleanupCurls s"
  "pc (clearTimeout t s) = pc s"
  "trace (clearTimeout t s) = trace s"
  "exitStatus (clearTimeout t s) = exitStatus s"
  by (simp_all add: clearTimeout_def)

lemma kill_frame [simp]:
  "now (kill h sig s) = now s"
  "tick (kill h sig s) = tick s"
  "dirname (kill h sig s) = dirname s"
  "nodeEnv (kill h sig s) = nodeEnv s"
  "ownPid (kill h sig s) = ownPid s"
  "backendCommand (kill h sig s) = backendCommand s"
  "processes (kill h sig s) = processes s"
  "logEnded (kill h sig s) = logEnded s"
  "logFile (kill h sig s) = logFile s"
  "console (kill h sig s) = console s"
  "isShuttingDown (kill h sig s) = isShuttingDown s"
  "restartCounts (kill h sig s) = restartCounts s"
  "nextHandle (kill h sig s) = nextHandle s"
  "owner (kill h sig s) = owner s"
  "exitedH (kill h sig s) = exitedH s"
  "timers (kill h sig s) = timers s"
  "exitListeners (kill h sig s) = exitListeners s"
  "pending (kill h sig s) = pending s"
  "awaiting (kill h sig s) = awaiting s"
  "cleanupCurls (kill h sig s) = cleanupCurls s"
  "pc (kill h sig s) = pc s"
  "exitStatus (kill h sig s) = exitStatus s"
  by (simp_all add: kill_def)

lemma trace_emit [simp]: "trace (emit e s) = trace s @ [e]"
  by (simp add: emit_def)

lemma trace_setTimeout [simp]: "trace (setTimeout t ms s) = trace s @ [ESetTimeout t ms]"
  by (simp add: setTimeout_def)

lemma timers_setTimeout [simp]: "timers (setTimeout t ms s) = timers s @ [t]"
  by (simp add: setTimeout_def)

lemma timers_clearTimeout [simp]: "timers (clearTimeout t s) = removeAll t (timers s)"
  by (simp add: clearTimeout_def)

lemma trace_kill [simp]: "trace (kill h sig s) = trace s @ [EKill h sig]"
  by (simp add: kill_def)

lemma killed_kill [simp]:
  "killed (kill h sig s) = (if h \<in> exitedH s then killed s else insert h (killed s))"
  by (simp add: kill_def)

lemma tick_log [simp]: "tick (log l m sv s) = Suc (tick s)"
  by (simp add: log_def write_line_def)

lemma logFile_log [simp]:
  "logFile (log l m sv s) =
     (if logEnded s then logFile s else logFile s @ [log_line (now s (tick s)) l sv m])"
  by (simp add: log_def write_line_def)

lemma upper_names [simp]:
  "toUpperCase (name_str Backend) = ''BACKEND''"
  "toUpperCase (name_str Frontend) = ''FRONTEND''"
  "toUpperCase (name_str Stagehand) = ''STAGEHAND''"
  by (simp_all add: toUpperCase_def upper_char_def)

lemma find_in_set: "find P xs = Some x \<Longrightarrow> x \<in> set xs"
  by (induction xs) (auto split: if_splits)

lemma match_level_token: "match_level b m = Some l \<Longrightarrow> l \<in> set level_tokens"
  by (induction b m rule: match_level.induct) (auto split: if_splits option.splits dest: find_in_set)

subsection \<open>What the operations on processes leave alone\<close>

lemma spawnProcess_frame [simp]:
  "now (snd (spawnProcess n s)) = now s"
  "dirname (snd (spawnProcess n s)) = dirname s"
  "nodeEnv (snd (spawnProcess n s)) = nodeEnv s"
  "ownPid (snd (spawnProcess n s)) = ownPid s"
  "backendCommand (snd (spawnProcess n s)) = backendCommand s"
  "processes (snd (spawnProcess n s)) = processes s"
  "logEnded (snd (spawnProcess n s)) = logEnded s"
  "isShuttingDown (snd (spawnProcess n s)) = isShuttingDown s"
  "restartCounts (snd (spawnProcess n s)) = restartCounts s"
  "exitedH (snd (spawnProcess n s)) = exitedH s"
  "killed (snd (spawnProcess n s)) = killed s"
  "timers (snd (spawnProcess n s)) = timers s"
  "exitListeners (snd (spawnProcess n s)) = exitListeners s"
  "pending (snd (spawnProcess n s)) = pending s"
  "awaiting (snd (spawnProcess n s)) = awaiting s"
  "cleanupCurls (snd (spawnProcess n s)) = cleanupCurls s"
  "pc (snd (spawnProcess n s)) = pc s"
  "exitStatus (snd (spawnProcess n s)) = exitStatus s"
  by (simp_all add: spawnProcess_def Let_def)

lemma spawnProcess_handle [simp]: "fst (spawnProcess n s) = nextHandle s"
  by (simp add: spawnProcess_def Let_def)

lemma spawnProcess_effects [simp]:
  "nextHandle (snd (spawnProcess n s)) = Suc (nextHandle s)"
  "owner (snd (spawnProcess n s)) = (owner s)(nextHandle s \<mapsto> n)"
  "trace (snd (spawnProcess n s)) = trace s @ [ESpawn n (nextHandle s)]"
  by (simp_all add: spawnProcess_def Let_def)

lemma startProcess_frame [simp]:
  "now (startProcess n s) = now s"
  "dirname (startProcess n s) = dirname s"
  "nodeEnv (startProcess n s) = nodeEnv s"
  "ownPid (startProcess n s) = ownPid s"
  "backendCommand (startProcess n s) = backendCommand s"
  "logEnded (startProcess n s) = logEnded s"
  "isShuttingDown (startProcess n s) = isShuttingDown s"
  "restartCounts (startProcess n s) = restartCounts s"
  "exitedH (startProcess n s) = exitedH s"
  "timers (startProcess n s) = timers s"
  "exitListeners (startProcess n s) = exitListeners s"
  "pending (startProcess n s) = pending s"
  "awaiting (startProcess n s) = awaiting s"
  "cleanupCurls (startProcess n s) = cleanupCurls s"
  "pc (startProcess n s) = pc s"
  "exitStatus (startProcess n s) = exitStatus s"
  by (simp_all add: startProcess_def Let_def split_beta split: option.splits)

lemma startProcess_effects [simp]:
  "killed (startProcess n s) =
     (case processes s n of
        Some old \<Rightarrow> if old \<in> exitedH s then killed s else insert old (killed s)
      | None \<Rightarrow> killed s)"
  "nextHandle (startProcess n s) = Suc (nextHandle s)"
  "owner (startProcess n s) = (owner s)(nextHandle s \<mapsto> n)"
  "processes (startProcess n s) = (processes s)(n := Some (nextHandle s))"
  "trace (startProcess n s) =
     trace s @ (case processes s n of Some old \<Rightarrow> [EKill old ''SIGTERM''] | None \<Rightarrow> [])
             @ [ESpawn n (nextHandle s)]"
  by (simp_all add: startProcess_def Let_def split_beta split: option.splits)

lemma shutdown_finish_frame [simp]:
  "now (shutdown_finish c s) = now s"
  "dirname (shutdown_finish c s) = dirname s"
  "nodeEnv (shutdown_finish c s) = nodeEnv s"
  "ownPid (shutdown_finish c s) = ownPid s"
  "backendCommand (shutdown_finish c s) = backendCommand s"
  "processes (shutdown_finish c s) = processes s"
  "isShuttingDown (shutdown_finish c s) = isShuttingDown s"
  "restartCounts (shutdown_finish c s) = restartCounts s"
  "nextHandle (shutdown_finish c s) = nextHandle s"
  "owner (shutdown_finish c s) = owner s"
  "exitedH (shutdown_finish c s) = exitedH s"
  "killed (shutdown_finish c s) = killed s"
  "timers (shutdown_finish c s) = timers s"
  "exitListeners (shutdown_finish c s) = exitListeners s"
  "pending (shutdown_finish c s) = pending s"
  "awaiting (shutdown_finish c s) = awaiting s"
  "cleanupCurls (shutdown_finish c s) = cleanupCurls s"
  "pc (shutdown_finish c s) = pc s"
  by (simp_all add: shutdown_finish_def Let_def)

lemma stopProcess_frame [simp]:
  "now (stopProcess s n) = now s"
  "dirname (stopProcess s n) = dirname s"
  "nodeEnv (stopProcess s n) = nodeEnv s"
  "ownPid (stopProcess s n) = ownPid s"
  "backendCommand (stopProcess s n) = backendCommand s"
  "processes (stopProcess s n) = processes s"
  "logEnded (stopProcess s n) = logEnded s"
  "isShuttingDown (stopProcess s n) = isShuttingDown s"
  "restartCounts (stopProcess s n) = restartCounts s"
  "nextHandle (stopProcess s n) = nextHandle s"
  "owner (stopProcess s n) = owner s"
  "exitedH (stopProcess s n) = exitedH s"
  "awaiting (stopProcess s n) = awaiting s"
  "cleanupCurls (stopProcess s n) = cleanupCurls s"
  "pc (stopProcess s n) = pc s"
  "exitStatus (stopProcess s n) = exitStatus s"
  by (simp_all add: stopProcess_def Let_def split: option.splits)

lemma stopAll_frame [simp]:
  "now (foldl stopProcess s ns) = now s \<and>
   dirname (foldl stopProcess s ns) = dirname s \<and>
   nodeEnv (foldl stopProcess s ns) = nodeEnv s \<and>
   ownPid (foldl stopProcess s ns) = ownPid s \<and>
   backendCommand (foldl stopProcess s ns) = backendCommand s \<and>
   processes (foldl stopProcess s ns) = processes s \<and>
   logEnded (foldl stopProcess s ns) = logEnded s \<and>
   isShuttingDown (foldl stopProcess s ns) = isShuttingDown s \<and>
   restartCounts (foldl stopProcess s ns) = restartCounts s \<and>
   nextHandle (foldl stopProcess s ns) = nextHandle s \<and>
   owner (foldl stopProcess s ns) = owner s \<and>
   exitedH (foldl stopProcess s ns) = exitedH s \<and>
   awaiting (foldl stopProcess s ns) = awaiting s \<and>
   cleanupCurls (foldl stopProcess s ns) = cleanupCurls s \<and>
   pc (foldl stopProcess s ns) = pc s \<and>
   exitStatus (foldl stopProcess s ns) = exitStatus s"
  by (induction ns arbitrary: s) simp_all

lemma shutdown_frame [simp]:
  "now (shutdown c s) = now s"
  "dirname (shutdown c s) = dirname s"
  "nodeEnv (shutdown c s) = nodeEnv s"
  "ownPid (shutdown c s) = ownPid s"
  "backendCommand (shutdown c s) = backendCommand s"
  "processes (shutdown c s) = processes s"
  "restartCounts (shutdown c s) = restartCounts s"
  "nextHandle (shutdown c s) = nextHandle s"
  "owner (shutdown c s) = owner s"
  "exitedH (shutdown c s) = exitedH s"
  "cleanupCurls (shutdown c s) = cleanupCurls s"
  "pc (shutdown c s) = pc s"
  by (simp_all add: shutdown_def Let_def)

lemma resolve_frame [simp]:
  "now (resolve h s) = now s"
  "dirname (resolve h s) = dirname s"
  "nodeEnv (resolve h s) = nodeEnv s"
  "ownPid (resolve h s) = ownPid s"
  "backendCommand (resolve h s) = backendCommand s"
  "processes (resolve h s) = processes s"
  "isShuttingDown (resolve h s) = isShuttingDown s"
  "restartCounts (resolve h s) = restartCounts s"
  "nextHandle (resolve h s) = nextHandle s"
  "owner (resolve h s) = owner s"
  "exitedH (resolve h s) = exitedH s"
  "killed (resolve h s) = killed s"
  "timers (resolve h s) = timers s"
  "exitListeners (resolve h s) = exitListeners s"
  "awaiting (resolve h s) = awaiting s"
  "cleanupCurls (resolve h s) = cleanupCurls s"
  "pc (resolve h s) = pc s"
  by (simp_all add: resolve_def Let_def split: option.splits)

lemma handleProcessFailure_frame [simp]:
  "now (handleProcessFailure n s) = now s"
  "dirname (handleProcessFailure n s) = dirname s"
  "nodeEnv (handleProcessFailure n s) = nodeEnv s"
  "ownPid (handleProcessFailure n s) = ownPid s"
  "backendCommand (handleProcessFailure n s) = backendCommand s"
  "processes (handleProcessFailure n s) = processes s"
  "nextHandle (handleProcessFailure n s) = nextHandle s"
  "owner (handleProcessFailure n s) = owner s"
  "exitedH (handleProcessFailure n s) = exitedH s"
  "cleanupCurls (handleProcessFailure n s) = cleanupCurls s"
  "pc (handleProcessFailure n s) = pc s"
  by (simp_all add: handleProcessFailure_def Let_def)

lemma restart_callback_frame [simp]:
  "now (restart_callback n s) = now s"
  "dirname (restart_callback n s) = dirname s"
  "nodeEnv (restart_callback n s) = nodeEnv s"
  "ownPid (restart_callback n s) = ownPid s"
  "backendCommand (restart_callback n s) = backendCommand s"
  "logEnded (restart_callback n s) = logEnded s"
  "isShuttingDown (restart_callback n s) = isShuttingDown s"
  "restartCounts (restart_callback n s) = restartCounts s"
  "exitedH (restart_callback n s) = exitedH s"
  "timers (restart_callback n s) = timers s"
  "exitListeners (restart_callback n s) = exitListeners s"
  "pending (restart_callback n s) = pending s"
  "awaiting (restart_callback n s) = awaiting s"
  "cleanupCurls (restart_callback n s) = cleanupCurls s"
  "pc (restart_callback n s) = pc s"
  "exitStatus (restart_callback n s) = exitStatus s"
  by (simp_all add: restart_callback_def)

lemma force_kill_callback_frame [simp]:
  "now (force_kill_callback n h s) = now s"
  "dirname (force_kill_callback n h s) = dirname s"
  "nodeEnv (force_kill_callback n h s) = nodeEnv s"
  "ownPid (force_kill_callback n h s) = ownPid s"
  "backendCommand (force_kill_callback n h s) = backendCommand s"
  "processes (force_kill_callback n h s) = processes s"
  "isShuttingDown (force_kill_callback n h s) = isShuttingDown s"
  "restartCounts (force_kill_callback n h s) = restartCounts s"
  "nextHandle (force_kill_callback n h s) = nextHandle s"
  "owner (force_kill_callback n h s) = owner s"
  "exitedH (force_kill_callback n h s) = exitedH s"
  "timers (force_kill_callback n h s) = timers s"
  "exitListeners (force_kill_callback n h s) = exitListeners s"
  "awaiting (force_kill_callback n h s) = awaiting s"
  "cleanupCurls (force_kill_callback n h s) = cleanupCurls s"
  "pc (force_kill_callback n h s) = pc s"
  by (simp_all add: force_kill_callback_def)

lemma on_child_spawn_frame [simp]:
  "now (on_child_spawn n p s) = now s"
  "dirname (on_child_spawn n p s) = dirname s"
  "nodeEnv (on_child_spawn n p s) = nodeEnv s"
  "ownPid (on_child_spawn n p s) = ownPid s"
  "backendCommand (on_child_spawn n p s) = backendCommand s"
  "processes (on_child_spawn n p s) = processes s"
  "logEnded (on_child_spawn n p s) = logEnded s"
  "isShuttingDown (on_child_spawn n p s) = isShuttingDown s"
  "restartCounts (on_child_spawn n p s) = restartCounts s"
  "nextHandle (on_child_spawn n p s) = nextHandle s"
  "owner (on_child_spawn n p s) = owner s"
  "exitedH (on_child_spawn n p s) = exitedH s"
  "killed (on_child_spawn n p s) = killed s"
  "timers (on_child_spawn n p s) = timers s"
  "exitListeners (on_child_spawn n p s) = exitListeners s"
  "pending (on_child_spawn n p s) = pending s"
  "awaiting (on_child_spawn n p s) = awaiting s"
  "cleanupCurls (on_child_spawn n p s) = cleanupCurls s"
  "pc (on_child_spawn n p s) = pc s"
  "trace (on_child_spawn n p s) = trace s"
  "exitStatus (on_child_spawn n p s) = exitStatus s"
  by (simp_all add: on_child_spawn_def)

lemma on_child_error_frame [simp]:
  "now (on_child_error n m s) = now s"
  "dirname (on_child_error n m s) = dirname s"
  "nodeEnv (on_child_error n m s) = nodeEnv s"
  "ownPid (on_child_error n m s) = ownPid s"
  "backendCommand (on_child_error n m s) = backendCommand s"
  "processes (on_child_error n m s) = processes s"
  "nextHandle (on_child_error n m s) = nextHandle s"
  "owner (on_child_error n m s) = owner s"
  "exitedH (on_child_error n m s) = exitedH s"
  "cleanupCurls (on_child_error n m s) = cleanupCurls s"
  "pc (on_child_error n m s) = pc s"
  by (simp_all add: on_child_error_def)

lemma on_child_exit_frame [simp]:
  "now (on_child_exit n c g s) = now s"
  "dirname (on_child_exit n c g s) = dirname s"
  "nodeEnv (on_child_exit n c g s) = nodeEnv s"
  "ownPid (on_child_exit n c g s) = ownPid s"
  "backendCommand (on_child_exit n c g s) = backendCommand s"
  "processes (on_child_exit n c g s) = processes s"
  "nextHandle (on_child_exit n c g s) = nextHandle s"
  "owner (on_child_exit n c g s) = owner s"
  "exitedH (on_child_exit n c g s) = exitedH s"
  "cleanupCurls (on_child_exit n c g s) = cleanupCurls s"
  "pc (on_child_exit n c g s) = pc s"
  by (simp_all add: on_child_exit_def)

lemma logProcessOutput_frame [simp]:
  "now (logProcessOutput m sv s) = now s"
  "dirname (logProcessOutput m sv s) = dirname s"
  "nodeEnv (logProcessOutput m sv s) = nodeEnv s"
  "ownPid (logProcessOutput m sv s) = ownPid s"
  "backendCommand (logProcessOutput m sv s) = backendCommand s"
  "processes (logProcessOutput m sv s) = processes s"
  "logEnded (logProcessOutput m sv s) = logEnded s"
  "isShuttingDown (logProcessOutput m sv s) = isShuttingDown s"
  "restartCounts (logProcessOutput m sv s) = restartCounts s"
  "nextHandle (logProcessOutput m sv s) = nextHandle s"
  "owner (logProcessOutput m sv s) = owner s"
  "exitedH (logProcessOutput m sv s) = exitedH s"
  "killed (logProcessOutput m sv s) = killed s"
  "timers (logProcessOutput m sv s) = timers s"
  "exitListeners (logProcessOutput m sv s) = exitListeners s"
  "pending (logProcessOutput m sv s) = pending s"
  "awaiting (logProcessOutput m sv s) = awaiting s"
  "cleanupCurls (logProcessOutput m sv s) = cleanupCurls s"
  "pc (logProcessOutput m sv s) = pc s"
  "trace (logProcessOutput m sv s) = trace s"
  "exitStatus (logProcessOutput m sv s) = exitStatus s"
  by (simp_all add: logProcessOutput_def)

lemma on_child_data_frame [simp]:
  "now (on_child_data n d s) = now s"
  "dirname (on_child_data n d s) = dirname s"
  "nodeEnv (on_child_data n d s) = nodeEnv s"
  "ownPid (on_child_data n d s) = ownPid s"
  "backendCommand (on_child_data n d s) = backendCommand s"
  "processes (on_child_data n d s) = processes s"
  "logEnded (on_child_data n d s) = logEnded s"
  "isShuttingDown (on_child_data n d s) = isShuttingDown s"
  "restartCounts (on_child_data n d s) = restartCounts s"
  "nextHandle (on_child_data n d s) = nextHandle s"
  "owner (on_child_data n d s) = owner s"
  "exitedH (on_child_data n d s) = exitedH s"
  "killed (on_child_data n d s) = killed s"
  "timers (on_child_data n d s) = timers s"
  "exitListeners (on_child_data n d s) = exitListeners s"
  "pending (on_child_data n d s) = pending s"
  "awaiting (on_child_data n d s) = awaiting s"
  "cleanupCurls (on_child_data n d s) = cleanupCurls s"
  "pc (on_child_data n d s) = pc s"
  "trace (on_child_data n d s) = trace s"
  "exitStatus (on_child_data n d s) = exitStatus s"
  by (simp_all add: on_child_data_def Let_def)

lemma shutdown_exit_listener_frame [simp]:
  "now (shutdown_exit_listener n h s) = now s"
  "dirname (shutdown_exit_listener n h s) = dirname s"
  "nodeEnv (shutdown_exit_listener n h s) = nodeEnv s"
  "ownPid (shutdown_exit_listener n h s) = ownPid s"
  "backendCommand (shutdown_exit_listener n h s) = backendCommand s"
  "processes (shutdown_exit_listener n h s) = processes s"
  "isShuttingDown (shutdown_exit_listener n h s) = isShuttingDown s"
  "restartCounts (shutdown_exit_listener n h s) = restartCounts s"
  "nextHandle (shutdown_exit_listener n h s) = nextHandle s"
  "owner (shutdown_exit_listener n h s) = owner s"
  "exitedH (shutdown_exit_listener n h s) = exitedH s"
  "killed (shutdown_exit_listener n h s) = killed s"
  "exitListeners (shutdown_exit_listener n h s) = exitListeners s"
  "awaiting (shutdown_exit_listener n h s) = awaiting s"
  "cleanupCurls (shutdown_exit_listener n h s) = cleanupCurls s"
  "pc (shutdown_exit_listener n h s) = pc s"
  by (simp_all add: shutdown_exit_listener_def)

lemma on_signal_frame [simp]:
  "now (on_signal g s) = now s"
  "dirname (on_signal g s) = dirname s"
  "nodeEnv (on_signal g s) = nodeEnv s"
  "ownPid (on_signal g s) = ownPid s"
  "backendCommand (on_signal g s) = backendCommand s"
  "processes (on_signal g s) = processes s"
  "restartCounts (on_signal g s) = restartCounts s"
  "nextHandle (on_signal g s) = nextHandle s"
  "owner (on_signal g s) = owner s"
  "exitedH (on_signal g s) = exitedH s"
  "cleanupCurls (on_signal g s) = cleanupCurls s"
  "pc (on_signal g s) = pc s"
  by (simp_all add: on_signal_def)

lemma on_uncaughtException_frame [simp]:
  "now (on_uncaughtException m k s) = now s"
  "dirname (on_uncaughtException m k s) = dirname s"
  "nodeEnv (on_uncaughtException m k s) = nodeEnv s"
  "ownPid (on_uncaughtException m k s) = ownPid s"
  "backendCommand (on_uncaughtException m k s) = backendCommand s"
  "processes (on_uncaughtException m k s) = processes s"
  "restartCounts (on_uncaughtException m k s) = restartCounts s"
  "nextHandle (on_uncaughtException m k s) = nextHandle s"
  "owner (on_uncaughtException m k s) = owner s"
  "exitedH (on_uncaughtException m k s) = exitedH s"
  "cleanupCurls (on_uncaughtException m k s) = cleanupCurls s"
  "pc (on_uncaughtException m k s) = pc s"
  by (simp_all add: on_uncaughtException_def)

lemma on_unhandledRejection_frame [simp]:
  "now (on_unhandledRejection p r s) = now s"
  "dirname (on_unhandledRejection p r s) = dirname s"
  "nodeEnv (on_unhandledRejection p r s) = nodeEnv s"
  "ownPid (on_unhandledRejection p r s) = ownPid s"
  "backendCommand (on_unhandledRejection p r s) = backendCommand s"
  "processes (on_unhandledRejection p r s) = processes s"
  "restartCounts (on_unhandledRejection p r s) = restartCounts s"
  "nextHandle (on_unhandledRejection p r s) = nextHandle s"
  "owner (on_unhandledRejection p r s) = owner s"
  "exitedH (on_unhandledRejection p r s) = exitedH s"
  "cleanupCurls (on_unhandledRejection p r s) = cleanupCurls s"
  "pc (on_unhandledRejection p r s) = pc s"
  by (simp_all add: on_unhandledRejection_def)

subsection \<open>What the continuations of \<open>start\<close> leave alone\<close>

lemma checkHealth_frame [simp]:
  "now (checkHealth n a s) = now s"
  "tick (checkHealth n a s) = tick s"
  "dirname (checkHealth n a s) = dirname s"
  "nodeEnv (checkHealth n a s) = nodeEnv s"
  "ownPid (checkHealth n a s) = ownPid s"
  "backendCommand (checkHealth n a s) = backendCommand s"
  "processes (checkHealth n a s) = processes s"
  "logEnded (checkHealth n a s) = logEnded s"
  "logFile (checkHealth n a s) = logFile s"
  "console (checkHealth n a s) = console s"
  "isShuttingDown (checkHealth n a s) = isShuttingDown s"
  "restartCounts (checkHealth n a s) = restartCounts s"
  "nextHandle (checkHealth n a s) = nextHandle s"
  "owner (checkHealth n a s) = owner s"
  "exitedH (checkHealth n a s) = exitedH s"
  "killed (checkHealth n a s) = killed s"
  "timers (checkHealth n a s) = timers s"
  "exitListeners (checkHealth n a s) = exitListeners s"
  "pending (checkHealth n a s) = pending s"
  "awaiting (checkHealth n a s) = awaiting s"
  "cleanupCurls (checkHealth n a s) = cleanupCurls s"
  "exitStatus (checkHealth n a s) = exitStatus s"
  by (simp_all add: checkHealth_def)

lemma waitForHealthcheck_frame [simp]:
  "now (waitForHealthcheck n s) = now s"
  "dirname (waitForHealthcheck n s) = dirname s"
  "nodeEnv (waitForHealthcheck n s) = nodeEnv s"
  "ownPid (waitForHealthcheck n s) = ownPid s"
  "backendCommand (waitForHealthcheck n s) = backendCommand s"
  "processes (waitForHealthcheck n s) = processes s"
  "logEnded (waitForHealthcheck n s) = logEnded s"
  "isShuttingDown (waitForHealthcheck n s) = isShuttingDown s"
  "restartCounts (waitForHealthcheck n s) = restartCounts s"
  "nextHandle (waitForHealthcheck n s) = nextHandle s"
  "owner (waitForHealthcheck n s) = owner s"
  "exitedH (waitForHealthcheck n s) = exitedH s"
  "killed (waitForHealthcheck n s) = killed s"
  "timers (waitForHealthcheck n s) = timers s"
  "exitListeners (waitForHealthcheck n s) = exitListeners s"
  "pending (waitForHealthcheck n s) = pending s"
  "awaiting (waitForHealthcheck n s) = awaiting s"
  "cleanupCurls (waitForHealthcheck n s) = cleanupCurls s"
  "exitStatus (waitForHealthcheck n s) = exitStatus s"
  by (simp_all add: waitForHealthcheck_def)

lemma after_health_frame [simp]:
  "now (after_health n s) = now s"
  "dirname (after_health n s) = dirname s"
  "nodeEnv (after_health n s) = nodeEnv s"
  "ownPid (after_health n s) = ownPid s"
  "backendCommand (after_health n s) = backendCommand s"
  "processes (after_health n s) = processes s"
  "logEnded (after_health n s) = logEnded s"
  "isShuttingDown (after_health n s) = isShuttingDown s"
  "restartCounts (after_health n s) = restartCounts s"
  "nextHandle (after_health n s) = nextHandle s"
  "owner (after_health n s) = owner s"
  "exitedH (after_health n s) = exitedH s"
  "killed (after_health n s) = killed s"
  "timers (after_health n s) = timers s"
  "exitListeners (after_health n s) = exitListeners s"
  "pending (after_health n s) = pending s"
  "awaiting (after_health n s) = awaiting s"
  "cleanupCurls (after_health n s) = cleanupCurls s"
  "exitStatus (after_health n s) = exitStatus s"
  by (cases n; simp)+

lemma on_health_result_frame [simp]:
  "now (on_health_result n a ok s) = now s"
  "dirname (on_health_result n a ok s) = dirname s"
  "nodeEnv (on_health_result n a ok s) = nodeEnv s"
  "ownPid (on_health_result n a ok s) = ownPid s"
  "backendCommand (on_health_result n a ok s) = backendCommand s"
  "processes (on_health_result n a ok s) = processes s"
  "logEnded (on_health_result n a ok s) = logEnded s"
  "isShuttingDown (on_health_result n a ok s) = isShuttingDown s"
  "restartCounts (on_health_result n a ok s) = restartCounts s"
  "nextHandle (on_health_result n a ok s) = nextHandle s"
  "owner (on_health_result n a ok s) = owner s"
  "exitedH (on_health_result n a ok s) = exitedH s"
  "killed (on_health_result n a ok s) = killed s"
  "exitListeners (on_health_result n a ok s) = exitListeners s"
  "pending (on_health_result n a ok s) = pending s"
  "awaiting (on_health_result n a ok s) = awaiting s"
  "cleanupCurls (on_health_result n a ok s) = cleanupCurls s"
  "exitStatus (on_health_result n a ok s) = exitStatus s"
  by (simp_all add: on_health_result_def Let_def)

lemma cleanupStagehandSessions_done_frame [simp]:
  "now (cleanupStagehandSessions_done r s) = now s"
  "dirname (cleanupStagehandSessions_done r s) = dirname s"
  "nodeEnv (cleanupStagehandSessions_done r s) = nodeEnv s"
  "ownPid (cleanupStagehandSessions_done r s) = ownPid s"
  "backendCommand (cleanupStagehandSessions_done r s) = backendCommand s"
  "processes (cleanupStagehandSessions_done r s) = processes s"
  "logEnded (cleanupStagehandSessions_done r s) = logEnded s"
  "isShuttingDown (cleanupStagehandSessions_done r s) = isShuttingDown s"
  "restartCounts (cleanupStagehandSessions_done r s) = restartCounts s"
  "nextHandle (cleanupStagehandSessions_done r s) = nextHandle s"
  "owner (cleanupStagehandSessions_done r s) = owner s"
  "exitedH (cleanupStagehandSessions_done r s) = exitedH s"
  "killed (cleanupStagehandSessions_done r s) = killed s"
  "timers (cleanupStagehandSessions_done r s) = timers s"
  "exitListeners (cleanupStagehandSessions_done r s) = exitListeners s"
  "pending (cleanupStagehandSessions_done r s) = pending s"
  "awaiting (cleanupStagehandSessions_done r s) = awaiting s"
  "cleanupCurls (cleanupStagehandSessions_done r s) = cleanupCurls s"
  "pc (cleanupStagehandSessions_done r s) = pc s"
  "trace (cleanupStagehandSessions_done r s) = trace s"
  "exitStatus (cleanupStagehandSessions_done r s) = exitStatus s"
  by (simp_all add: cleanupStagehandSessions_done_def split: fetch_result.splits)

lemma start_after_fetch_frame [simp]:
  "now (start_after_fetch r s) = now s"
  "dirname (start_after_fetch r s) = dirname s"
  "nodeEnv (start_after_fetch r s) = nodeEnv s"
  "ownPid (start_after_fetch r s) = ownPid s"
  "backendCommand (start_after_fetch r s) = backendCommand s"
  "logEnded (start_after_fetch r s) = logEnded s"
  "isShuttingDown (start_after_fetch r s) = isShuttingDown s"
  "restartCounts (start_after_fetch r s) = restartCounts s"
  "exitedH (start_after_fetch r s) = exitedH s"
  "exitListeners (start_after_fetch r s) = exitListeners s"
  "pending (start_after_fetch r s) = pending s"
  "awaiting (start_after_fetch r s) = awaiting s"
  "cleanupCurls (start_after_fetch r s) = cleanupCurls s"
  "exitStatus (start_after_fetch r s) = exitStatus s"
  by (simp_all add: start_after_fetch_def)

lemma start_after_delay_frame [simp]:
  "now (start_after_delay s) = now s"
  "dirname (start_after_delay s) = dirname s"
  "nodeEnv (start_after_delay s) = nodeEnv s"
  "ownPid (start_after_delay s) = ownPid s"
  "backendCommand (start_after_delay s) = backendCommand s"
  "logEnded (start_after_delay s) = logEnded s"
  "isShuttingDown (start_after_delay s) = isShuttingDown s"
  "restartCounts (start_after_delay s) = restartCounts s"
  "exitedH (start_after_delay s) = exitedH s"
  "timers (start_after_delay s) = timers s"
  "exitListeners (start_after_delay s) = exitListeners s"
  "pending (start_after_delay s) = pending s"
  "awaiting (start_after_delay s) = awaiting s"
  "cleanupCurls (start_after_delay s) = cleanupCurls s"
  "exitStatus (start_after_delay s) = exitStatus s"
  by (simp_all add: start_after_delay_def)

lemma on_cleanup_curl_frame [simp]:
  "now (on_cleanup_curl ok e s) = now s"
  "dirname (on_cleanup_curl ok e s) = dirname s"
  "nodeEnv (on_cleanup_curl ok e s) = nodeEnv s"
  "ownPid (on_cleanup_curl ok e s) = ownPid s"
  "backendCommand (on_cleanup_curl ok e s) = backendCommand s"
  "processes (on_cleanup_curl ok e s) = processes s"
  "logEnded (on_cleanup_curl ok e s) = logEnded s"
  "isShuttingDown (on_cleanup_curl ok e s) = isShuttingDown s"
  "restartCounts (on_cleanup_curl ok e s) = restartCounts s"
  "nextHandle (on_cleanup_curl ok e s) = nextHandle s"
  "owner (on_cleanup_curl ok e s) = owner s"
  "exitedH (on_cleanup_curl ok e s) = exitedH s"
  "killed (on_cleanup_curl ok e s) = killed s"
  "timers (on_cleanup_curl ok e s) = timers s"
  "exitListeners (on_cleanup_curl ok e s) = exitListeners s"
  "pending (on_cleanup_curl ok e s) = pending s"
  "awaiting (on_cleanup_curl ok e s) = awaiting s"
  "cleanupCurls (on_cleanup_curl ok e s) = cleanupCurls s"
  "pc (on_cleanup_curl ok e s) = pc s"
  "trace (on_cleanup_curl ok e s) = trace s"
  "exitStatus (on_cleanup_curl ok e s) = exitStatus s"
  by (simp_all add: on_cleanup_curl_def)

lemma checkPrerequisites_frame [simp]:
  "now (snd (checkPrerequisites fs s)) = now s"
  "dirname (snd (checkPrerequisites fs s)) = dirname s"
  "nodeEnv (snd (checkPrerequisites fs s)) = nodeEnv s"
  "ownPid (snd (checkPrerequisites fs s)) = ownPid s"
  "processes (snd (checkPrerequisites fs s)) = processes s"
  "logEnded (snd (checkPrerequisites fs s)) = logEnded s"
  "isShuttingDown (snd (checkPrerequisites fs s)) = isShuttingDown s"
  "restartCounts (snd (checkPrerequisites fs s)) = restartCounts s"
  "nextHandle (snd (checkPrerequisites fs s)) = nextHandle s"
  "owner (snd (checkPrerequisites fs s)) = owner s"
  "exitedH (snd (checkPrerequisites fs s)) = exitedH s"
  "killed (snd (checkPrerequisites fs s)) = killed s"
  "timers (snd (checkPrerequisites fs s)) = timers s"
  "exitListeners (snd (checkPrerequisites fs s)) = exitListeners s"
  "pending (snd (checkPrerequisites fs s)) = pending s"
  "awaiting (snd (checkPrerequisites fs s)) = awaiting s"
  "cleanupCurls (snd (checkPrerequisites fs s)) = cleanupCurls s"
  "pc (snd (checkPrerequisites fs s)) = pc s"
  "trace (snd (checkPrerequisites fs s)) = trace s"
  "exitStatus (snd (checkPrerequisites fs s)) = exitStatus s"
  by (simp_all add: checkPrerequisites_def Let_def)

subsection \<open>How the trace grows\<close>

lemma grows_byI: "trace s' = trace s @ ext \<Longrightarrow> list_all K ext \<Longrightarrow> grows_by K s s'"
  by (simp add: grows_by_def)

lemma grows_byE: "grows_by K s s' \<Longrightarrow> \<exists>ext. trace s' = trace s @ ext \<and> list_all K ext"
  unfolding grows_by_def by (metis append_take_drop_id)

lemma grows_by_same: "trace s' = trace s \<Longrightarrow> grows_by K s s'"
  by (simp add: grows_by_def)

lemma grows_by_trans: "grows_by K s t \<Longrightarrow> grows_by K t u \<Longrightarrow> grows_by K s u"
proof -
  assume "grows_by K s t" "grows_by K t u"
  then obtain a b where "trace t = trace s @ a" "list_all K a" "trace u = trace t @ b" "list_all K b"
    by (blast dest: grows_byE)
  then show ?thesis by (intro grows_byI [of _ _ "a @ b"]) simp_all
qed

lemma grows_by_weaken: "grows_by K s t \<Longrightarrow> (\<And>e. K e \<Longrightarrow> K' e) \<Longrightarrow> grows_by K' s t"
  by (auto simp: grows_by_def list_all_iff)

lemma grows_by_log [simp]: "grows_by K s0 (log l m sv s) = grows_by K s0 s"
  by (simp add: grows_by_def)

lemma grows_by_emit: "K e \<Longrightarrow> grows_by K s0 s \<Longrightarrow> grows_by K s0 (emit e s)"
  by (rule grows_by_trans [where t = s]) (simp_all add: grows_by_def)

lemma stopProcess_grows: "grows_by shutdown_effect s (stopProcess s n)"
  by (simp add: stopProcess_def grows_by_def Let_def split: option.splits)

lemma stopAll_grows: "grows_by shutdown_effect s (foldl stopProcess s ns)"
proof (induction ns arbitrary: s)
  case Nil
  show ?case by (simp add: grows_by_def)
next
  case (Cons n ns)
  show ?case
    using stopProcess_grows [of s n] Cons [of "stopProcess s n"]
    by (auto intro: grows_by_trans)
qed

lemma trace_shutdown_finish [simp]: "trace (shutdown_finish c s) = trace s @ [ELogEnd, EExit c]"
  by (simp add: shutdown_finish_def Let_def)

lemma exitStatus_shutdown_finish [simp]: "exitStatus (shutdown_finish c s) = Some c"
  by (simp add: shutdown_finish_def Let_def)

lemma shutdown_finish_grows: "grows_by shutdown_effect s (shutdown_finish c s)"
  by (simp add: shutdown_finish_def grows_by_def Let_def)

lemma shutdown_grows: "grows_by shutdown_effect s (shutdown c s)"
proof -
  let ?s2 = "log ''INFO'' ''Shutting down services...'' ''MAIN'' (s\<lparr>isShuttingDown := True\<rparr>)"
  have a: "grows_by shutdown_effect s ?s2" by (simp add: grows_by_def)
  have b: "grows_by shutdown_effect ?s2 (foldl stopProcess ?s2 service_keys)" by (rule stopAll_grows)
  have c: "grows_by shutdown_effect s (foldl stopProcess ?s2 service_keys)"
    using a b by (rule grows_by_trans)
  have d: "grows_by shutdown_effect s (shutdown_finish c (foldl stopProcess ?s2 service_keys))"
    using c shutdown_finish_grows by (rule grows_by_trans)
  have e: "grows_by shutdown_effect s ((foldl stopProcess ?s2 service_keys)\<lparr>awaiting := Some c\<rparr>)"
    using c by (simp add: grows_by_def)
  show ?thesis
    using d e by (simp add: shutdown_def Let_def grows_by_same)
qed

lemma resolve_grows: "grows_by shutdown_effect s (resolve h s)"
  by (simp add: resolve_def Let_def grows_by_def split: option.splits)

lemma handleProcessFailure_grows: "grows_by (failure_effect n) s (handleProcessFailure n s)"
proof (cases "restartCounts s n \<ge> maxRestarts")
  case True
  have "grows_by shutdown_effect s (handleProcessFailure n s)"
    using True shutdown_grows grows_by_trans [OF _ shutdown_grows]
    by (simp add: handleProcessFailure_def Let_def grows_by_same)
  then show ?thesis by (rule grows_by_weaken) (simp add: failure_effect_def)
next
  case False
  then show ?thesis
    by (simp add: handleProcessFailure_def Let_def grows_by_def failure_effect_def restart_timer_def)
qed

lemma filter_grows:
  "grows_by K s t \<Longrightarrow> (\<And>e. K e \<Longrightarrow> \<not> P e) \<Longrightarrow> filter P (trace t) = filter P (trace s)"
  by (auto dest!: grows_byE simp: list_all_iff filter_empty_conv)

lemma trace_start_steps [simp]:
  "trace (checkHealth n a s) = trace s @ [ECurlHealth (healthUrl n)]"
  "trace (waitForHealthcheck n s) = trace s @ [ECurlHealth (healthUrl n)]"
  "trace (after_health Stagehand s) = trace s @ [EFetchCleanup]"
  "trace (after_health Backend s) = trace s @ [ECurlHealth (healthUrl Frontend)]"
  "trace (after_health Frontend s) = trace s"
  by (simp_all add: checkHealth_def waitForHealthcheck_def)

lemma pc_start_steps [simp]:
  "pc (checkHealth n a s) = PcHealth n a"
  "pc (waitForHealthcheck n s) = PcHealth n 1"
  "pc (after_health Stagehand s) = PcFetch"
  "pc (after_health Backend s) = PcHealth Frontend 1"
  "pc (after_health Frontend s) = PcDone"
  by (simp_all add: checkHealth_def waitForHealthcheck_def)

lemma trace_on_health_result:
  "trace (on_health_result n a ok s) =
     trace s @ [EHealthResult n a ok] @
       (if ok then (if n = Stagehand then [ESetTimeout TCleanupDelay 1000]
                    else if n = Backend then [ECurlHealth (healthUrl Frontend)] else [])
        else if a < maxAttempts then [ESetTimeout THealthRetry 2000]
        else (case n of Stagehand \<Rightarrow> [EFetchCleanup]
              | Backend \<Rightarrow> [ECurlHealth (healthUrl Frontend)] | Frontend \<Rightarrow> []))"
  by (cases n) (simp_all add: on_health_result_def Let_def)

lemma timers_on_health_result:
  "timers (on_health_result n a ok s) =
     timers s @ (if ok then (if n = Stagehand then [TCleanupDelay] else [])
                 else if a < maxAttempts then [THealthRetry] else [])"
  by (simp add: on_health_result_def Let_def)

lemma timers_start_after [simp]:
  "timers (start_after_fetch r s) = timers s @ [TBackendDelay]"
  by (simp add: start_after_fetch_def)

lemma trace_start_after [simp]:
  "trace (start_after_fetch r s) =
     trace s @ (case processes s Backend of Some old \<Rightarrow> [EKill old ''SIGTERM''] | None \<Rightarrow> [])
       @ [ESpawn Backend (nextHandle s), ESetTimeout TBackendDelay 3000]"
  "trace (start_after_delay s) =
     trace s @ (case processes s Frontend of Some old \<Rightarrow> [EKill old ''SIGTERM''] | None \<Rightarrow> [])
       @ [ESpawn Frontend (nextHandle s), ECurlHealth (healthUrl Backend)]"
  by (simp_all add: start_after_fetch_def start_after_delay_def)

subsection \<open>The restart counter\<close>

lemma shutdown_starts:
  assumes "\<not> isShuttingDown s"
  shows "isShuttingDown (shutdown c s)"
    and "pending (shutdown c s) = [] \<Longrightarrow> exitStatus (shutdown c s) = Some c"
    and "pending (shutdown c s) \<noteq> [] \<Longrightarrow>
           awaiting (shutdown c s) = Some c \<and> exitStatus (shutdown c s) = exitStatus s"
  using assms by (simp_all add: shutdown_def Let_def split: if_splits)

lemma shutdown_again:
  "isShuttingDown s \<Longrightarrow> shutdown c s = log ''WARNING'' ''Shutdown already in progress...'' ''MAIN'' s"
  by (simp add: shutdown_def)

lemma handleProcessFailure_restart:
  assumes "restartCounts s n < maxRestarts"
  shows "restartCounts (handleProcessFailure n s) = (restartCounts s)(n := Suc (restartCounts s n))"
    and "timers (handleProcessFailure n s) = timers s @ [TRestart n]"
    and "trace (handleProcessFailure n s) = trace s @ [restart_timer n]"
    and "isShuttingDown (handleProcessFailure n s) = isShuttingDown s"
    and "exitStatus (handleProcessFailure n s) = exitStatus s"
    and "awaiting (handleProcessFailure n s) = awaiting s"
    and "pending (handleProcessFailure n s) = pending s"
    and "exitListeners (handleProcessFailure n s) = exitListeners s"
    and "killed (handleProcessFailure n s) = killed s"
    and "logEnded (handleProcessFailure n s) = logEnded s"
  using assms by (simp_all add: handleProcessFailure_def Let_def restart_timer_def)

lemma handleProcessFailure_fatal:
  assumes "maxRestarts \<le> restartCounts s n"
  shows "handleProcessFailure n s =
           shutdown 1 (log ''ERROR'' (name_str n @ '' exceeded maximum restart attempts (''
                          @ show_nat maxRestarts @ '')'') (toUpperCase (name_str n)) s)"
    and "restartCounts (handleProcessFailure n s) = restartCounts s"
  using assms by (simp_all add: handleProcessFailure_def Let_def)



lemma restarts_set_family [simp]:
  "restarts_set m (log l msg sv s) = restarts_set m s"
  "restarts_set m (shutdown c s) = restarts_set m s"
  "restarts_set m (resolve h s) = restarts_set m s"
  "restarts_set m (kill h sig s) = restarts_set m s"
  "restarts_set m (clearTimeout t s) = restarts_set m s"
  "restarts_set m (startProcess n s) = restarts_set m s"
  unfolding restarts_set_def
       apply simp
      apply (rule filter_grows [OF shutdown_grows], auto simp: restart_timer_def)[1]
     apply (rule filter_grows [OF resolve_grows], auto simp: restart_timer_def)[1]
    apply (simp add: restart_timer_def)
   apply simp
  apply (simp add: restart_timer_def split: option.splits)
  done





lemma restarts_set_same: "trace t = trace s \<Longrightarrow> restarts_set m t = restarts_set m s"
  by (simp add: restarts_set_def)

lemma restarts_set_append: "trace t = trace s @ ext \<Longrightarrow> \<forall>e\<in>set ext. e \<noteq> restart_timer m \<Longrightarrow> restarts_set m t = restarts_set m s"
  by (simp add: restarts_set_def)


lemma on_timer_unset: "t \<notin> set (timers s) \<Longrightarrow> on_timer t s = s"
  by (simp add: on_timer_def)

lemma on_timer_set:
  "TRestart n \<in> set (timers s) \<Longrightarrow>
     on_timer (TRestart n) s = restart_callback n (s\<lparr>timers := remove1 (TRestart n) (timers s)\<rparr>)"
  "TForceKill n h \<in> set (timers s) \<Longrightarrow>
     on_timer (TForceKill n h) s =
       force_kill_callback n h (s\<lparr>timers := remove1 (TForceKill n h) (timers s)\<rparr>)"
  "THealthRetry \<in> set (timers s) \<Longrightarrow>
     on_timer THealthRetry s =
       (case pc s of
          PcHealthSleep n a \<Rightarrow> checkHealth n (Suc a) (s\<lparr>timers := remove1 THealthRetry (timers s)\<rparr>)
        | _ \<Rightarrow> s\<lparr>timers := remove1 THealthRetry (timers s)\<rparr>)"
  "TCleanupDelay \<in> set (timers s) \<Longrightarrow>
     on_timer TCleanupDelay s =
       (case pc s of
          PcCleanupSleep \<Rightarrow>
            after_health Stagehand
              (emit ECurlCleanup (s\<lparr>timers := remove1 TCleanupDelay (timers s),
                                    cleanupCurls := Suc (cleanupCurls s)\<rparr>))
        | _ \<Rightarrow> s\<lparr>timers := remove1 TCleanupDelay (timers s)\<rparr>)"
  "TBackendDelay \<in> set (timers s) \<Longrightarrow>
     on_timer TBackendDelay s =
       (case pc s of
          PcBackendDelay \<Rightarrow> start_after_delay (s\<lparr>timers := remove1 TBackendDelay (timers s)\<rparr>)
        | _ \<Rightarrow> s\<lparr>timers := remove1 TBackendDelay (timers s)\<rparr>)"
  by (simp_all add: on_timer_def Let_def split: start_pc.splits)

lemma restarts_set_upd [simp]:
  "restarts_set m (s\<lparr>timers := ts\<rparr>) = restarts_set m s"
  "restarts_set m (s\<lparr>exitedH := ex\<rparr>) = restarts_set m s"
  "restarts_set m (s\<lparr>cleanupCurls := k\<rparr>) = restarts_set m s"
  "restarts_set m (s\<lparr>pc := p\<rparr>) = restarts_set m s"
  "restarts_set m (emit e s) = restarts_set m s @ (if e = restart_timer m then [e] else [])"
  "restarts_set m (setTimeout t ms s) =
     restarts_set m s @ (if ESetTimeout t ms = restart_timer m then [ESetTimeout t ms] else [])"
  by (simp_all add: restarts_set_def)

lemma restarts_set_start [simp]:
  "restarts_set m (checkHealth n a s) = restarts_set m s"
  "restarts_set m (waitForHealthcheck n s) = restarts_set m s"
  "restarts_set m (after_health n s) = restarts_set m s"
  "restarts_set m (on_health_result n a ok s) = restarts_set m s"
  "restarts_set m (start_after_fetch r s) = restarts_set m s"
  "restarts_set m (start_after_delay s) = restarts_set m s"
  "restarts_set m (cleanupStagehandSessions_done r s) = restarts_set m s"
  "restarts_set m (on_cleanup_curl ok e s) = restarts_set m s"
  "restarts_set m (logProcessOutput msg sv s) = restarts_set m s"
  "restarts_set m (on_child_spawn n p s) = restarts_set m s"
  "restarts_set m (on_child_data n d s) = restarts_set m s"
       apply (simp_all add: restarts_set_def restart_timer_def trace_on_health_result split: option.splits name.splits)
  apply (cases n; simp)
  done



subsection \<open>Invariants of runs\<close>

lemma run_invariant:
  assumes "P s" and "\<And>ev s. P s \<Longrightarrow> P (step ev s)"
  shows "P (run evs s)"
  using assms(1) by (induction evs arbitrary: s) (simp_all add: assms(2))

lemma run_append: "run (xs @ ys) s = run ys (run xs s)"
  by (induction xs arbitrary: s) simp_all

lemma trace_UnifiedServer [simp]: "trace (UnifiedServer clock dir env pid) = []"
  by (simp add: UnifiedServer_def Let_def)

lemma restartCounts_UnifiedServer [simp]: "restartCounts (UnifiedServer clock dir env pid) n = 0"
  by (simp add: UnifiedServer_def Let_def)

lemma restartCounts_start [simp]: "restartCounts (start fs s) = restartCounts s"
  by (simp add: start_def checkPrerequisites_def Let_def)

lemma restarts_set_start_fn [simp]: "restarts_set m (start fs s) = restarts_set m s"
proof -
  have upd: "\<And>x t. restarts_set m (t\<lparr>backendCommand := x\<rparr>) = restarts_set m t"
    by (simp add: restarts_set_def)
  show ?thesis
    by (simp add: start_def checkPrerequisites_def Let_def upd)
qed





lemma on_child_exit_unexpected:
  "\<not> isShuttingDown s \<Longrightarrow>
   on_child_exit n code signal s =
     handleProcessFailure n
       (log ''ERROR'' (name_str n @ '' process exited unexpectedly (code: '' @ js_num code
                         @ '', signal: '' @ js_str signal @ '')'') (toUpperCase (name_str n)) s)"
  by (simp add: on_child_exit_def)

subsection \<open>The example supervisor\<close>

lemmas boot_defs = main0_def main_def start_def checkPrerequisites_def fs_ok_def
  UnifiedServer_def Let_def

lemma main0_facts:
  "exitStatus main0 = None" "owner main0 0 = Some Stagehand" "\<not> isShuttingDown main0"
  "restartCounts main0 = (\<lambda>_. 0)"
  by (simp_all add: boot_defs)

subsection \<open>Projections of the trace\<close>

lemma proj_upd [simp]:
  "proj P (s\<lparr>now := x0\<rparr>) = proj P s"
  "proj P (s\<lparr>tick := x1\<rparr>) = proj P s"
  "proj P (s\<lparr>dirname := x2\<rparr>) = proj P s"
  "proj P (s\<lparr>nodeEnv := x3\<rparr>) = proj P s"
  "proj P (s\<lparr>ownPid := x4\<rparr>) = proj P s"
  "proj P (s\<lparr>backendCommand := x5\<rparr>) = proj P s"
  "proj P (s\<lparr>processes := x6\<rparr>) = proj P s"
  "proj P (s\<lparr>logEnded := x7\<rparr>) = proj P s"
  "proj P (s\<lparr>logFile := x8\<rparr>) = proj P s"
  "proj P (s\<lparr>console := x9\<rparr>) = proj P s"
  "proj P (s\<lparr>isShuttingDown := x10\<rparr>) = proj P s"
  "proj P (s\<lparr>restartCounts := x11\<rparr>) = proj P s"
  "proj P (s\<lparr>nextHandle := x12\<rparr>) = proj P s"
  "proj P (s\<lparr>owner := x13\<rparr>) = proj P s"
  "proj P (s\<lparr>exitedH := x14\<rparr>) = proj P s"
  "proj P (s\<lparr>killed := x15\<rparr>) = proj P s"
  "proj P (s\<lparr>timers := x16\<rparr>) = proj P s"
  "proj P (s\<lparr>exitListeners := x17\<rparr>) = proj P s"
  "proj P (s\<lparr>pending := x18\<rparr>) = proj P s"
  "proj P (s\<lparr>awaiting := x19\<rparr>) = proj P s"
  "proj P (s\<lparr>cleanupCurls := x20\<rparr>) = proj P s"
  "proj P (s\<lparr>pc := x21\<rparr>) = proj P s"
  "proj P (s\<lparr>exitStatus := x23\<rparr>) = proj P s"
  by (simp_all add: proj_def)

lemma proj_primitive [simp]:
  "proj P (write_line l s) = proj P s"
  "proj P (log lv m sv s) = proj P s"
  "proj P (clearTimeout t s) = proj P s"
  "proj P (emit e s) = proj P s @ (if P e then [e] else [])"
  "proj P (setTimeout t ms s) = proj P s @ (if P (ESetTimeout t ms) then [ESetTimeout t ms] else [])"
  "proj P (kill h sig s) = proj P s @ (if P (EKill h sig) then [EKill h sig] else [])"
  by (simp_all add: proj_def)

lemma proj_startProcess [simp]:
  "proj P (startProcess n s) =
     proj P s @ filter P ((case processes s n of Some old \<Rightarrow> [EKill old ''SIGTERM''] | None \<Rightarrow> [])
                          @ [ESpawn n (nextHandle s)])"
  by (simp add: proj_def)

lemma proj_logging [simp]:
  "proj P (logProcessOutput msg sv s) = proj P s"
  "proj P (on_child_spawn n p s) = proj P s"
  "proj P (on_child_data n d s) = proj P s"
  "proj P (cleanupStagehandSessions_done r s) = proj P s"
  "proj P (on_cleanup_curl ok e s) = proj P s"
  by (simp_all add: logProcessOutput_def on_child_spawn_def on_child_data_def Let_def
        cleanupStagehandSessions_done_def on_cleanup_curl_def split: fetch_result.splits)

lemma proj_start_steps [simp]:
  "proj P (checkHealth n a s) = proj P s @ filter P [ECurlHealth (healthUrl n)]"
  "proj P (waitForHealthcheck n s) = proj P s @ filter P [ECurlHealth (healthUrl n)]"
  "proj P (after_health Stagehand s) = proj P s @ filter P [EFetchCleanup]"
  "proj P (after_health Backend s) = proj P s @ filter P [ECurlHealth (healthUrl Frontend)]"
  "proj P (after_health Frontend s) = proj P s"
  "proj P (start_after_fetch r s) =
     proj P s @ filter P ((case processes s Backend of Some old \<Rightarrow> [EKill old ''SIGTERM''] | None \<Rightarrow> [])
       @ [ESpawn Backend (nextHandle s), ESetTimeout TBackendDelay 3000])"
  "proj P (start_after_delay s) =
     proj P s @ filter P ((case processes s Frontend of Some old \<Rightarrow> [EKill old ''SIGTERM''] | None \<Rightarrow> [])
       @ [ESpawn Frontend (nextHandle s), ECurlHealth (healthUrl Backend)])"
  by (simp_all add: proj_def)

lemma proj_grows:
  "grows_by K s t \<Longrightarrow> (\<And>e. K e \<Longrightarrow> \<not> P e) \<Longrightarrow> proj P t = proj P s"
  unfolding proj_def by (rule filter_grows)

subsection \<open>Leaving once\<close>

lemma proj_leave_stop [simp]: "proj is_leave (stopProcess s n) = proj is_leave s"
  by (simp add: stopProcess_def Let_def split: option.splits)

lemma proj_leave_stopAll [simp]: "proj is_leave (foldl stopProcess s ns) = proj is_leave s"
  by (induction ns arbitrary: s) simp_all

lemma proj_leave_finish [simp]:
  "proj is_leave (shutdown_finish c s) = proj is_leave s @ [ELogEnd, EExit c]"
  by (simp add: proj_def)

lemma exit_once_transparent:
  "exitStatus t = exitStatus s \<Longrightarrow> proj is_leave t = proj is_leave s \<Longrightarrow> exit_once t = exit_once s"
  by (simp add: exit_once_def)

lemma exit_once_finish: "exit_once s \<Longrightarrow> exitStatus s = None \<Longrightarrow> exit_once (shutdown_finish c s)"
  by (simp add: exit_once_def)

lemma exit_once_shutdown: "exit_once s \<Longrightarrow> exitStatus s = None \<Longrightarrow> exit_once (shutdown c s)"
  by (simp add: shutdown_def Let_def exit_once_def)

lemma exit_once_resolve: "exit_once s \<Longrightarrow> exitStatus s = None \<Longrightarrow> exit_once (resolve h s)"
  by (simp add: resolve_def Let_def exit_once_def split: option.splits)

lemma exit_once_log [simp]: "exit_once (log l m sv s) = exit_once s"
  by (simp add: exit_once_def)

lemma exit_once_failure:
  "exit_once s \<Longrightarrow> exitStatus s = None \<Longrightarrow> exit_once (handleProcessFailure n s)"
  by (simp add: handleProcessFailure_def Let_def exit_once_shutdown)
     (simp add: exit_once_def)

lemma exit_once_child_exit:
  assumes "exit_once s" "exitStatus s = None"
  shows "exit_once (child_exit h c g s)"
proof -
  { fix n
    let ?s0 = "s\<lparr>exitedH := insert h (exitedH s)\<rparr>"
    have s0: "exit_once ?s0" "exitStatus ?s0 = None"
      using assms by (simp_all add: exit_once_def)
    have s1: "exit_once (on_child_exit n c g ?s0)"
      using s0 by (simp add: on_child_exit_def exit_once_failure)
    have "exitStatus (on_child_exit n c g ?s0) = None \<Longrightarrow>
          exit_once (shutdown_exit_listener n h (on_child_exit n c g ?s0))"
      using s1 unfolding shutdown_exit_listener_def
      by (intro exit_once_resolve) (simp_all add: exit_once_def)
    note s1 this }
  with assms show ?thesis
    by (simp add: child_exit_def Let_def split: option.splits)
qed

lemma exit_once_timer:
  assumes "exit_once s" "exitStatus s = None"
  shows "exit_once (on_timer t s)"
proof (cases "t \<in> set (timers s)")
  case False
  with assms show ?thesis by (simp add: on_timer_unset)
next
  case True
  show ?thesis
  proof (cases t)
    case (TRestart n)
    with True assms show ?thesis
      by (simp add: on_timer_set restart_callback_def exit_once_def split: option.splits)
  next
    case (TForceKill n h)
    have "exit_once (resolve h (kill h ''SIGKILL''
            (log ''WARNING'' (''Force killing '' @ name_str n @ '' process...'') (toUpperCase (name_str n))
               (s\<lparr>timers := remove1 (TForceKill n h) (timers s)\<rparr>))))"
      using assms by (intro exit_once_resolve) (simp_all add: exit_once_def)
    with True TForceKill show ?thesis
      by (simp add: on_timer_set force_kill_callback_def)
  next
    case THealthRetry
    with True assms show ?thesis
      by (simp add: on_timer_set exit_once_def split: start_pc.splits)
  next
    case TCleanupDelay
    with True assms show ?thesis
      by (simp add: on_timer_set exit_once_def split: start_pc.splits)
  next
    case TBackendDelay
    with True assms show ?thesis
      by (simp add: on_timer_set exit_once_def split: start_pc.splits option.splits)
  qed
qed

lemma proj_leave_health [simp]: "proj is_leave (on_health_result n a ok s) = proj is_leave s"
  by (simp add: proj_def trace_on_health_result split: name.splits)

lemma exit_once_step: "exit_once s \<Longrightarrow> exit_once (step ev s)"
proof (cases "exitStatus s \<noteq> None")
  case True
  assume "exit_once s"
  with True show ?thesis by (simp add: step_def)
next
  case False
  assume e: "exit_once s"
  show ?thesis
  proof (cases ev)
    case (ChildSpawned h p)
    with False e show ?thesis by (simp add: step_def exit_once_def split: option.splits)
  next
    case (ChildError h msg)
    with False e show ?thesis
      by (simp add: step_def on_child_error_def exit_once_failure split: option.splits)
  next
    case (ChildExit h c g)
    with False e show ?thesis by (simp add: step_def exit_once_child_exit)
  next
    case (ChildData h d)
    with False e show ?thesis by (simp add: step_def exit_once_def split: option.splits)
  next
    case (Timer t)
    with False e show ?thesis by (simp add: step_def exit_once_timer)
  next
    case (Signal g)
    with False e show ?thesis by (simp add: step_def on_signal_def exit_once_shutdown)
  next
    case (UncaughtException a b)
    with False e show ?thesis by (simp add: step_def on_uncaughtException_def exit_once_shutdown)
  next
    case (UnhandledRejection a b)
    with False e show ?thesis by (simp add: step_def on_unhandledRejection_def exit_once_shutdown)
  next
    case (HealthCurl ok)
    with False e show ?thesis
      by (simp add: step_def exit_once_def split: start_pc.splits)
  next
    case (CleanupCurl ok er)
    with False e show ?thesis by (simp add: step_def exit_once_def)
  next
    case (FetchDone r)
    with False e show ?thesis
      by (simp add: step_def exit_once_def split: start_pc.splits option.splits)
  qed
qed

lemma exitStatus_start_None [simp]: "exitStatus (UnifiedServer clock dir env pid) = None"
  by (simp add: UnifiedServer_def Let_def)

lemma start_cases:
  obtains (failed) message where
      "start fs s = shutdown 1 ((log ''ERROR'' (''Failed to start: '' @ message) ''MAIN''
                                  (snd (checkPrerequisites fs s)))\<lparr>pc := PcFailed\<rparr>)"
  | (passed)
      "start fs s = waitForHealthcheck Stagehand
                      (startProcess Stagehand
                         (log ''INFO'' ''Starting services...'' ''MAIN'' (snd (checkPrerequisites fs s))))"
  by (cases "checkPrerequisites fs s"; cases "fst (checkPrerequisites fs s)") (auto simp: start_def)

lemma exit_once_start:
  assumes "exit_once s" "exitStatus s = None"
  shows "exit_once (start fs s)"
proof (cases rule: start_cases [of fs s])
  case (failed message)
  have "exit_once (shutdown 1 ((log ''ERROR'' (''Failed to start: '' @ message) ''MAIN''
                                  (snd (checkPrerequisites fs s)))\<lparr>pc := PcFailed\<rparr>))"
    using assms by (intro exit_once_shutdown) (simp_all add: exit_once_def proj_def)
  with failed show ?thesis by simp
next
  case passed
  with assms show ?thesis by (simp add: exit_once_def proj_def split: option.splits)
qed

lemma exit_once_main: "exit_once (main clock dir env pid fs)"
  unfolding main_def by (rule exit_once_start) (simp_all add: exit_once_def proj_def)

lemma exit_once_run: "exit_once (run evs (main clock dir env pid fs))"
  by (rule run_invariant [of exit_once, OF exit_once_main exit_once_step])

subsection \<open>A shutdown under way stays under way\<close>

lemma committed_shutdown: "committed c s \<Longrightarrow> committed c (shutdown c' s)"
  by (simp add: committed_def shutdown_again)

lemma committed_resolve: "committed c s \<Longrightarrow> exitStatus s = None \<Longrightarrow> committed c (resolve h s)"
  by (auto simp: committed_def resolve_def Let_def)

lemma committed_failure: "committed c s \<Longrightarrow> committed c (handleProcessFailure n s)"
  by (cases "restartCounts s n < maxRestarts")
     (simp_all add: committed_def handleProcessFailure_restart handleProcessFailure_fatal shutdown_again)

lemma committed_log [simp]: "committed c (log l m sv s) = committed c s"
  by (simp add: committed_def)

lemma committed_child_exit: "committed c s \<Longrightarrow> committed c (child_exit h cd g s)"
proof -
  assume a: "committed c s"
  { fix n
    let ?s0 = "s\<lparr>exitedH := insert h (exitedH s)\<rparr>"
    have s0: "committed c ?s0" using a by (simp add: committed_def)
    have s1: "committed c (on_child_exit n cd g ?s0)"
      using s0 by (simp add: on_child_exit_def committed_failure)
    have "exitStatus (on_child_exit n cd g ?s0) = None \<Longrightarrow>
          committed c (shutdown_exit_listener n h (on_child_exit n cd g ?s0))"
      unfolding shutdown_exit_listener_def
      using s1 by (intro committed_resolve) (simp_all add: committed_def)
    note s1 this }
  with a show ?thesis
    by (simp add: child_exit_def Let_def split: option.splits)
qed

lemma committed_timer:
  assumes a: "committed c s" and ne: "exitStatus s = None"
  shows "committed c (on_timer t s)"
proof (cases "t \<in> set (timers s)")
  case False
  with a show ?thesis by (simp add: on_timer_unset)
next
  case True
  show ?thesis
  proof (cases t)
    case (TRestart n)
    with True a show ?thesis
      by (simp add: on_timer_set restart_callback_def committed_def)
  next
    case (TForceKill n h)
    have "committed c (resolve h (kill h ''SIGKILL''
            (log ''WARNING'' (''Force killing '' @ name_str n @ '' process...'') (toUpperCase (name_str n))
               (s\<lparr>timers := remove1 (TForceKill n h) (timers s)\<rparr>))))"
      using a ne by (intro committed_resolve) (simp_all add: committed_def)
    with True TForceKill show ?thesis
      by (simp add: on_timer_set force_kill_callback_def)
  next
    case THealthRetry
    with True a show ?thesis
      by (simp add: on_timer_set committed_def split: start_pc.splits)
  next
    case TCleanupDelay
    with True a show ?thesis
      by (simp add: on_timer_set committed_def split: start_pc.splits)
  next
    case TBackendDelay
    with True a show ?thesis
      by (simp add: on_timer_set committed_def split: start_pc.splits)
  qed
qed

lemma committed_step: "committed c s \<Longrightarrow> committed c (step ev s)"
proof (cases "exitStatus s \<noteq> None")
  case True
  assume "committed c s"
  with True show ?thesis by (simp add: step_def)
next
  case False
  assume a: "committed c s"
  show ?thesis
  proof (cases ev)
    case (ChildSpawned h p)
    with False a show ?thesis by (simp add: step_def committed_def split: option.splits)
  next
    case (ChildError h msg)
    with False a show ?thesis
      by (simp add: step_def on_child_error_def committed_failure split: option.splits)
  next
    case (ChildExit h cd g)
    with False a show ?thesis by (simp add: step_def committed_child_exit)
  next
    case (ChildData h d)
    with False a show ?thesis by (simp add: step_def committed_def split: option.splits)
  next
    case (Timer t)
    with False a show ?thesis by (simp add: step_def committed_timer)
  next
    case (Signal g)
    with False a show ?thesis by (simp add: step_def on_signal_def committed_shutdown)
  next
    case (UncaughtException x y)
    with False a show ?thesis by (simp add: step_def on_uncaughtException_def committed_shutdown)
  next
    case (UnhandledRejection x y)
    with False a show ?thesis by (simp add: step_def on_unhandledRejection_def committed_shutdown)
  next
    case (HealthCurl ok)
    with False a show ?thesis
      by (simp add: step_def committed_def split: start_pc.splits)
  next
    case (CleanupCurl ok er)
    with False a show ?thesis by (simp add: step_def committed_def)
  next
    case (FetchDone r)
    with False a show ?thesis
      by (simp add: step_def committed_def split: start_pc.splits)
  qed
qed

lemma committed_run: "committed c s \<Longrightarrow> committed c (run evs s)"
  by (rule run_invariant [of "committed c"]) (simp_all add: committed_step)

lemma shutdown_commits: "\<not> isShuttingDown s \<Longrightarrow> exitStatus s = None \<Longrightarrow> committed c (shutdown c s)"
  using shutdown_starts [of s c] by (auto simp: committed_def)

subsection \<open>What \<open>shutdown\<close> starts for every child it tracks\<close>

lemma stopping_kept: "stopping h s \<Longrightarrow> stopping h (stopProcess s n)"
  by (auto simp: stopping_def stopProcess_def Let_def split: option.splits)

lemma stopping_begun:
  "processes s n = Some h \<Longrightarrow> h \<notin> killed s \<Longrightarrow> n \<in> set service_keys \<Longrightarrow> stopping h (stopProcess s n)"
  by (auto simp: stopping_def stopProcess_def Let_def)

lemma killed_stopProcess:
  "h \<notin> killed s \<Longrightarrow> h \<in> killed (stopProcess s n) \<Longrightarrow> processes s n = Some h"
  by (auto simp: stopProcess_def Let_def split: option.splits if_splits)

lemma stopping_all:
  "set ns \<subseteq> set service_keys \<Longrightarrow>
   stopping h s \<or> (\<exists>n\<in>set ns. processes s n = Some h \<and> h \<notin> killed s) \<Longrightarrow>
   stopping h (foldl stopProcess s ns)"
proof (induction ns arbitrary: s)
  case Nil
  then show ?case by simp
next
  case (Cons m ns)
  have "stopping h (stopProcess s m) \<or>
        (\<exists>n\<in>set ns. processes (stopProcess s m) n = Some h \<and> h \<notin> killed (stopProcess s m))"
  proof (cases "stopping h s")
    case True
    then show ?thesis by (simp add: stopping_kept)
  next
    case False
    with Cons.prems(2) obtain n where n: "n \<in> set (m # ns)" "processes s n = Some h" "h \<notin> killed s"
      by blast
    show ?thesis
    proof (cases "processes s m = Some h")
      case True
      with n(3) Cons.prems(1) show ?thesis by (simp add: stopping_begun)
    next
      case False
      with n have "n \<in> set ns" by auto
      moreover have "h \<notin> killed (stopProcess s m)"
        using False n(3) killed_stopProcess by blast
      ultimately show ?thesis using n(2) by auto
    qed
  qed
  with Cons.IH [of "stopProcess s m"] Cons.prems(1) show ?case by simp
qed

lemma stopping_shutdown:
  assumes "\<not> isShuttingDown s" "processes s n = Some h" "h \<notin> killed s"
  shows "stopping h (shutdown c s)" and "exitStatus (shutdown c s) = exitStatus s"
    and "awaiting (shutdown c s) = Some c"
proof -
  let ?s2 = "log ''INFO'' ''Shutting down services...'' ''MAIN'' (s\<lparr>isShuttingDown := True\<rparr>)"
  let ?s3 = "foldl stopProcess ?s2 service_keys"
  have "n \<in> set service_keys" by (cases n) (simp_all add: service_keys_def)
  with assms have st: "stopping h ?s3"
    by (intro stopping_all) auto
  then have ne: "pending ?s3 \<noteq> []" by (auto simp: stopping_def)
  with assms(1) have eq: "shutdown c s = ?s3\<lparr>awaiting := Some c\<rparr>"
    by (simp add: shutdown_def Let_def)
  show "stopping h (shutdown c s)" using st by (simp add: eq stopping_def)
  show "exitStatus (shutdown c s) = exitStatus s" by (simp add: eq)
  show "awaiting (shutdown c s) = Some c" by (simp add: eq)
qed

subsection \<open>The supervisor leaves only when every child it waits for is settled\<close>

lemma waits_ok_transparent:
  assumes "waits_ok s" "exitStatus s = None" "exitStatus t = None"
    and "exitListeners t = exitListeners s" "pending t = pending s"
    and "exitedH s \<subseteq> exitedH t" "set (trace s) \<subseteq> set (trace t)"
  shows "waits_ok t"
  using assms by (auto simp: waits_ok_def settled_def)

lemma waits_ok_log [simp]: "waits_ok (log l m sv s) = waits_ok s"
  by (simp add: waits_ok_def settled_def)

lemma waits_ok_stop: "waits_ok s \<Longrightarrow> exitStatus s = None \<Longrightarrow> waits_ok (stopProcess s n)"
  by (auto simp: waits_ok_def settled_def stopProcess_def Let_def split: option.splits)

lemma waits_ok_stopAll: "waits_ok s \<Longrightarrow> exitStatus s = None \<Longrightarrow> waits_ok (foldl stopProcess s ns)"
  by (induction ns arbitrary: s) (simp_all add: waits_ok_stop)

lemma waits_ok_finish:
  "waits_ok s \<Longrightarrow> exitStatus s = None \<Longrightarrow> pending s = [] \<Longrightarrow> waits_ok (shutdown_finish c s)"
  by (auto simp: waits_ok_def settled_def)

lemma waits_ok_shutdown: 
  assumes "waits_ok s" "exitStatus s = None"
  shows "waits_ok (shutdown c s)"
proof (cases "isShuttingDown s")
  case True
  with assms show ?thesis by (simp add: shutdown_again)
next
  case False
  let ?s2 = "log ''INFO'' ''Shutting down services...'' ''MAIN'' (s\<lparr>isShuttingDown := True\<rparr>)"
  let ?s3 = "foldl stopProcess ?s2 service_keys"
  have "waits_ok ?s2" using assms by (simp add: waits_ok_def settled_def)
  then have w3: "waits_ok ?s3" using assms(2) by (intro waits_ok_stopAll) simp_all
  have e3: "exitStatus ?s3 = None" using assms(2) by simp
  have "pending ?s3 = [] \<Longrightarrow> waits_ok (shutdown_finish c ?s3)"
    using w3 e3 by (rule waits_ok_finish)
  moreover have "waits_ok (?s3\<lparr>awaiting := Some c\<rparr>)"
    using w3 e3 by (simp add: waits_ok_def settled_def)
  ultimately show ?thesis using False by (simp add: shutdown_def Let_def)
qed

lemma waits_ok_resolve:
  assumes "waits_ok s" "exitStatus s = None" "settled h s"
  shows "waits_ok (resolve h s)"
proof -
  let ?s1 = "s\<lparr>pending := removeAll h (pending s)\<rparr>"
  have w1: "waits_ok ?s1" using assms by (auto simp: waits_ok_def settled_def)
  have "pending ?s1 = [] \<Longrightarrow> waits_ok (shutdown_finish c ?s1)" for c
    using w1 assms(2) by (intro waits_ok_finish) simp_all
  with w1 assms(1) show ?thesis
    by (cases "awaiting s") (auto simp: resolve_def Let_def)
qed

lemma waits_ok_failure:
  assumes "waits_ok s" "exitStatus s = None"
  shows "waits_ok (handleProcessFailure n s)"
proof (cases "restartCounts s n < maxRestarts")
  case True
  show ?thesis
    using assms
    by (rule waits_ok_transparent)
       (auto simp: handleProcessFailure_restart [OF True] assms)
next
  case False
  have "waits_ok (shutdown 1 (log ''ERROR'' (name_str n @ '' exceeded maximum restart attempts (''
                          @ show_nat maxRestarts @ '')'') (toUpperCase (name_str n)) s))"
    using assms by (intro waits_ok_shutdown) simp_all
  with False show ?thesis by (simp add: handleProcessFailure_fatal)
qed

lemma waits_ok_child_exit:
  assumes "waits_ok s" "exitStatus s = None"
  shows "waits_ok (child_exit h c g s)"
proof -
  { fix n
    let ?s0 = "s\<lparr>exitedH := insert h (exitedH s)\<rparr>"
    let ?s1 = "on_child_exit n c g ?s0"
    have s0: "waits_ok ?s0" "exitStatus ?s0 = None"
      using assms by (auto simp: waits_ok_def settled_def)
    have s1: "waits_ok ?s1"
      using s0 by (simp add: on_child_exit_def waits_ok_failure)
    have "exitStatus ?s1 = None \<Longrightarrow> waits_ok (shutdown_exit_listener n h ?s1)"
      unfolding shutdown_exit_listener_def
      using s1 by (intro waits_ok_resolve) (auto simp: waits_ok_def settled_def)
    note s1 this }
  with assms show ?thesis
    by (simp add: child_exit_def Let_def split: option.splits)
qed

lemma waits_ok_timer:
  assumes "waits_ok s" "exitStatus s = None"
  shows "waits_ok (on_timer t s)"
proof (cases "t \<in> set (timers s)")
  case False
  with assms show ?thesis by (simp add: on_timer_unset)
next
  case True
  show ?thesis
  proof (cases t)
    case (TRestart n)
    have "waits_ok (restart_callback n (s\<lparr>timers := remove1 (TRestart n) (timers s)\<rparr>))"
      using assms by (rule waits_ok_transparent) (auto simp: restart_callback_def assms split: option.splits)
    with True TRestart show ?thesis by (simp add: on_timer_set)
  next
    case (TForceKill n h)
    have "waits_ok (resolve h (kill h ''SIGKILL''
            (log ''WARNING'' (''Force killing '' @ name_str n @ '' process...'') (toUpperCase (name_str n))
               (s\<lparr>timers := remove1 (TForceKill n h) (timers s)\<rparr>))))"
      using assms by (intro waits_ok_resolve) (auto simp: waits_ok_def settled_def)
    with True TForceKill show ?thesis
      by (simp add: on_timer_set force_kill_callback_def)
  next
    case THealthRetry
    have "waits_ok (on_timer THealthRetry s)"
      using assms by (rule waits_ok_transparent) (auto simp: assms on_timer_set True [unfolded THealthRetry] split: start_pc.splits)
    with THealthRetry show ?thesis by simp
  next
    case TCleanupDelay
    have "waits_ok (on_timer TCleanupDelay s)"
      using assms by (rule waits_ok_transparent) (auto simp: assms on_timer_set True [unfolded TCleanupDelay] split: start_pc.splits)
    with TCleanupDelay show ?thesis by simp
  next
    case TBackendDelay
    have "waits_ok (on_timer TBackendDelay s)"
      using assms by (rule waits_ok_transparent) (auto simp: assms on_timer_set True [unfolded TBackendDelay] split: start_pc.splits option.splits)
    with TBackendDelay show ?thesis by simp
  qed
qed

lemma waits_ok_step: "waits_ok s \<Longrightarrow> waits_ok (step ev s)"
proof (cases "exitStatus s \<noteq> None")
  case True
  assume "waits_ok s"
  with True show ?thesis by (simp add: step_def)
next
  case False
  assume w: "waits_ok s"
  from False have ne: "exitStatus s = None" by simp
  show ?thesis
  proof (cases ev)
    case (ChildSpawned h p)
    with w ne show ?thesis by (simp add: step_def on_child_spawn_def split: option.splits)
  next
    case (ChildError h msg)
    with w ne show ?thesis
      by (simp add: step_def on_child_error_def waits_ok_failure split: option.splits)
  next
    case (ChildExit h c g)
    with w ne show ?thesis by (simp add: step_def waits_ok_child_exit)
  next
    case (ChildData h d)
    have "waits_ok (on_child_data n d s)" for n
      using w ne by (rule waits_ok_transparent) (simp_all add: ne)
    with w ne ChildData show ?thesis by (simp add: step_def split: option.splits)
  next
    case (Timer t)
    with w ne show ?thesis by (simp add: step_def waits_ok_timer)
  next
    case (Signal g)
    with w ne show ?thesis by (simp add: step_def on_signal_def waits_ok_shutdown)
  next
    case (UncaughtException x y)
    with w ne show ?thesis by (simp add: step_def on_uncaughtException_def waits_ok_shutdown)
  next
    case (UnhandledRejection x y)
    with w ne show ?thesis by (simp add: step_def on_unhandledRejection_def waits_ok_shutdown)
  next
    case (HealthCurl ok)
    have "waits_ok (on_health_result n a ok s)" for n a
      using w ne by (rule waits_ok_transparent) (auto simp: ne trace_on_health_result)
    with w ne HealthCurl show ?thesis
      by (simp add: step_def split: start_pc.splits)
  next
    case (CleanupCurl ok er)
    have "waits_ok (on_cleanup_curl ok er (s\<lparr>cleanupCurls := cleanupCurls s - 1\<rparr>))"
      using w ne by (rule waits_ok_transparent) (simp_all add: ne)
    with w ne CleanupCurl show ?thesis by (simp add: step_def)
  next
    case (FetchDone r)
    have "waits_ok (start_after_fetch r s)"
      using w ne by (rule waits_ok_transparent) (auto simp: ne split: option.splits)
    with w ne FetchDone show ?thesis
      by (simp add: step_def split: start_pc.splits)
  qed
qed

lemma waits_ok_start:
  assumes "waits_ok s" "exitStatus s = None"
  shows "waits_ok (start fs s)"
proof (cases rule: start_cases [of fs s])
  case (failed message)
  have "waits_ok (shutdown 1 ((log ''ERROR'' (''Failed to start: '' @ message) ''MAIN''
                                  (snd (checkPrerequisites fs s)))\<lparr>pc := PcFailed\<rparr>))"
    using assms by (intro waits_ok_shutdown) (simp_all add: waits_ok_def settled_def)
  with failed show ?thesis by simp
next
  case passed
  show ?thesis
    using assms by (rule waits_ok_transparent) (auto simp: passed assms split: option.splits)
qed

lemma waits_ok_main: "waits_ok (main clock dir env pid fs)"
  unfolding main_def
  by (rule waits_ok_start) (simp_all add: waits_ok_def settled_def UnifiedServer_def Let_def)

lemma waits_ok_run: "waits_ok (run evs (main clock dir env pid fs))"
  by (rule run_invariant [of waits_ok, OF waits_ok_main waits_ok_step])

subsection \<open>Tracked children are not flagged as killed before shutdown\<close>

lemma handles_ok_same:
  assumes "handles_ok s" "killed t = killed s" "nextHandle t = nextHandle s"
    "processes t = processes s" "owner t = owner s" "isShuttingDown t = isShuttingDown s"
    "\<And>n h. TForceKill n h \<in> set (timers t) \<Longrightarrow> TForceKill n h \<in> set (timers s)"
  shows "handles_ok t"
proof -
  have "\<forall>n h. TForceKill n h \<in> set (timers t) \<longrightarrow> TForceKill n h \<in> set (timers s)"
    using assms(7) by blast
  with assms(1-6) show ?thesis
    unfolding handles_ok_def by simp blast
qed

lemma handles_ok_log [simp]: "handles_ok (log l m sv s) = handles_ok s"
  by (simp add: handles_ok_def)

lemma handles_ok_startProcess:
  assumes "handles_ok s"
  shows "handles_ok (startProcess n s)"
proof -
  have tracked: "\<And>m h. processes s m = Some h \<Longrightarrow> h < nextHandle s \<and> owner s h = Some m"
    using assms unfolding handles_ok_def by blast
  have other: "processes s n \<noteq> Some h" if "m \<noteq> n" "processes s m = Some h" for m h
  proof
    assume "processes s n = Some h"
    then have "owner s h = Some n" using tracked by blast
    moreover have "owner s h = Some m" using that(2) tracked by blast
    ultimately show False using that(1) by simp
  qed
  have k: "killed (startProcess n s) \<subseteq> killed s \<union> {h. processes s n = Some h}"
    by (auto simp: startProcess_def Let_def split_beta split: option.splits if_splits)
  have 1: "\<forall>h\<in>killed (startProcess n s). h < nextHandle (startProcess n s)"
    using k assms tracked unfolding handles_ok_def by (fastforce simp: less_Suc_eq)
  have 2: "\<forall>m h. processes (startProcess n s) m = Some h \<longrightarrow>
             h < nextHandle (startProcess n s) \<and> owner (startProcess n s) h = Some m"
    using tracked by (auto simp: less_Suc_eq)
  have 3: "\<forall>m h. TForceKill m h \<in> set (timers (startProcess n s)) \<longrightarrow>
             h < nextHandle (startProcess n s) \<and> isShuttingDown (startProcess n s)"
    using assms unfolding handles_ok_def by (auto simp: less_Suc_eq)
  have 4: "\<not> isShuttingDown (startProcess n s) \<longrightarrow>
             (\<forall>m h. processes (startProcess n s) m = Some h \<longrightarrow> h \<notin> killed (startProcess n s))"
  proof (intro impI allI)
    fix m h
    assume ns: "\<not> isShuttingDown (startProcess n s)"
      and p: "processes (startProcess n s) m = Some h"
    show "h \<notin> killed (startProcess n s)"
    proof (cases "m = n")
      case True
      with p have "h = nextHandle s" by simp
      moreover have "nextHandle s \<notin> killed s"
        using assms unfolding handles_ok_def by auto
      moreover have "processes s n \<noteq> Some (nextHandle s)"
        using tracked by fastforce
      ultimately show ?thesis using k by auto
    next
      case False
      with p have ps: "processes s m = Some h" by simp
      then have "h \<notin> killed s"
        using assms ns unfolding handles_ok_def by auto
      moreover have "processes s n \<noteq> Some h"
        using other [OF False ps] .
      ultimately show ?thesis using k by auto
    qed
  qed
  show ?thesis
    unfolding handles_ok_def using 1 2 3 4 by blast
qed

lemma handles_ok_stop: "handles_ok s \<Longrightarrow> isShuttingDown s \<Longrightarrow> handles_ok (stopProcess s n)"
  unfolding handles_ok_def
  by (auto simp: stopProcess_def Let_def split: option.splits if_splits)

lemma handles_ok_stopAll:
  "handles_ok s \<Longrightarrow> isShuttingDown s \<Longrightarrow> handles_ok (foldl stopProcess s ns)"
  by (induction ns arbitrary: s) (simp_all add: handles_ok_stop)

lemma handles_ok_finish [simp]: "handles_ok (shutdown_finish c s) = handles_ok s"
  by (simp add: handles_ok_def shutdown_finish_def Let_def)

lemma handles_ok_shutdown: "handles_ok s \<Longrightarrow> handles_ok (shutdown c s)"
proof (cases "isShuttingDown s")
  case True
  assume "handles_ok s"
  with True show ?thesis by (simp add: shutdown_again)
next
  case False
  assume h: "handles_ok s"
  let ?s2 = "log ''INFO'' ''Shutting down services...'' ''MAIN'' (s\<lparr>isShuttingDown := True\<rparr>)"
  have "handles_ok ?s2" using h by (auto simp: handles_ok_def)
  then have "handles_ok (foldl stopProcess ?s2 service_keys)"
    by (rule handles_ok_stopAll) simp
  moreover have "handles_ok ((foldl stopProcess ?s2 service_keys)\<lparr>awaiting := Some c\<rparr>)
                   = handles_ok (foldl stopProcess ?s2 service_keys)"
    by (simp add: handles_ok_def)
  ultimately show ?thesis using False by (simp add: shutdown_def Let_def)
qed

lemma handles_ok_resolve [simp]: "handles_ok (resolve h s) = handles_ok s"
  by (simp add: resolve_def Let_def split: option.splits) (simp add: handles_ok_def)

lemma handles_ok_failure: "handles_ok s \<Longrightarrow> handles_ok (handleProcessFailure n s)"
proof (cases "restartCounts s n < maxRestarts")
  case True
  assume "handles_ok s"
  then show ?thesis
    by (rule handles_ok_same) (auto simp: handleProcessFailure_restart [OF True])
next
  case False
  assume "handles_ok s"
  then have "handles_ok (shutdown 1 (log ''ERROR'' (name_str n @ '' exceeded maximum restart attempts (''
                          @ show_nat maxRestarts @ '')'') (toUpperCase (name_str n)) s))"
    by (intro handles_ok_shutdown) simp
  with False show ?thesis by (simp add: handleProcessFailure_fatal)
qed

lemma handles_ok_child_exit: "handles_ok s \<Longrightarrow> handles_ok (child_exit h c g s)"
proof -
  assume a: "handles_ok s"
  { fix n
    let ?s0 = "s\<lparr>exitedH := insert h (exitedH s)\<rparr>"
    let ?s1 = "on_child_exit n c g ?s0"
    have s0: "handles_ok ?s0" using a by (simp add: handles_ok_def)
    have s1: "handles_ok ?s1"
      using s0 by (simp add: on_child_exit_def handles_ok_failure)
    have "handles_ok (clearTimeout (TForceKill n h) ?s1)"
      using s1 by (rule handles_ok_same) auto
    then have "handles_ok (shutdown_exit_listener n h ?s1)"
      by (simp add: shutdown_exit_listener_def)
    note s1 this }
  with a show ?thesis
    by (simp add: child_exit_def Let_def split: option.splits)
qed

lemma in_remove1: "x \<in> set (remove1 y xs) \<Longrightarrow> x \<in> set xs"
  by (metis notin_set_remove1)

lemma handles_ok_timer: "handles_ok s \<Longrightarrow> handles_ok (on_timer t s)"
proof (cases "t \<in> set (timers s)")
  case False
  assume "handles_ok s"
  with False show ?thesis by (simp add: on_timer_unset)
next
  case True
  assume a: "handles_ok s"
  let ?s1 = "s\<lparr>timers := remove1 t (timers s)\<rparr>"
  have s1: "handles_ok ?s1"
    using a by (rule handles_ok_same) (auto dest: in_remove1)
  show ?thesis
  proof (cases t)
    case (TRestart n)
    with True s1 show ?thesis
      by (simp add: on_timer_set restart_callback_def handles_ok_startProcess)
  next
    case (TForceKill n h)
    have "h < nextHandle s" "isShuttingDown s"
      using a True TForceKill by (auto simp: handles_ok_def)
    then have "handles_ok (kill h ''SIGKILL''
            (log ''WARNING'' (''Force killing '' @ name_str n @ '' process...'') (toUpperCase (name_str n)) ?s1))"
      using s1 by (auto simp: handles_ok_def)
    with True TForceKill show ?thesis
      by (simp add: on_timer_set force_kill_callback_def)
  next
    case THealthRetry
    have "handles_ok (on_timer THealthRetry s)"
      using s1 [unfolded THealthRetry]
      by (rule handles_ok_same) (auto simp: on_timer_set True [unfolded THealthRetry] split: start_pc.splits)
    with THealthRetry show ?thesis by simp
  next
    case TCleanupDelay
    have "handles_ok (on_timer TCleanupDelay s)"
      using s1 [unfolded TCleanupDelay]
      by (rule handles_ok_same) (auto simp: on_timer_set True [unfolded TCleanupDelay] split: start_pc.splits)
    with TCleanupDelay show ?thesis by simp
  next
    case TBackendDelay
    show ?thesis
    proof (cases "pc s = PcBackendDelay")
      case False
      with s1 True TBackendDelay show ?thesis
        by (simp add: on_timer_set split: start_pc.splits)
    next
      case pcb: True
      have "handles_ok (startProcess Frontend ?s1)"
        using s1 by (rule handles_ok_startProcess)
      then have "handles_ok (start_after_delay ?s1)"
        unfolding start_after_delay_def by (rule handles_ok_same) auto
      with True TBackendDelay pcb show ?thesis by (simp add: on_timer_set)
    qed
  qed
qed

lemma handles_ok_step: "handles_ok s \<Longrightarrow> handles_ok (step ev s)"
proof (cases "exitStatus s \<noteq> None")
  case True
  assume "handles_ok s"
  with True show ?thesis by (simp add: step_def)
next
  case False
  assume a: "handles_ok s"
  show ?thesis
  proof (cases ev)
    case (ChildSpawned h p)
    with False a show ?thesis by (simp add: step_def on_child_spawn_def split: option.splits)
  next
    case (ChildError h msg)
    with False a show ?thesis
      by (simp add: step_def on_child_error_def handles_ok_failure split: option.splits)
  next
    case (ChildExit h c g)
    with False a show ?thesis by (simp add: step_def handles_ok_child_exit)
  next
    case (ChildData h d)
    have "handles_ok (on_child_data n d s)" for n
      using a by (rule handles_ok_same) simp_all
    with False a ChildData show ?thesis by (simp add: step_def split: option.splits)
  next
    case (Timer t)
    with False a show ?thesis by (simp add: step_def handles_ok_timer)
  next
    case (Signal g)
    with False a show ?thesis by (simp add: step_def on_signal_def handles_ok_shutdown)
  next
    case (UncaughtException x y)
    with False a show ?thesis by (simp add: step_def on_uncaughtException_def handles_ok_shutdown)
  next
    case (UnhandledRejection x y)
    with False a show ?thesis by (simp add: step_def on_unhandledRejection_def handles_ok_shutdown)
  next
    case (HealthCurl ok)
    have "handles_ok (on_health_result n k ok s)" for n k
      using a by (rule handles_ok_same) (auto simp: timers_on_health_result split: if_splits)
    with False a HealthCurl show ?thesis
      by (simp add: step_def split: start_pc.splits)
  next
    case (CleanupCurl ok er)
    have "handles_ok (on_cleanup_curl ok er (s\<lparr>cleanupCurls := cleanupCurls s - 1\<rparr>))"
      using a by (rule handles_ok_same) simp_all
    with False a CleanupCurl show ?thesis by (simp add: step_def)
  next
    case (FetchDone r)
    have "handles_ok (cleanupStagehandSessions_done r s)"
      using a by (rule handles_ok_same) simp_all
    then have "handles_ok (startProcess Backend (cleanupStagehandSessions_done r s))"
      by (rule handles_ok_startProcess)
    then have "handles_ok (start_after_fetch r s)"
      unfolding start_after_fetch_def by (rule handles_ok_same) auto
    with False a FetchDone show ?thesis
      by (simp add: step_def split: start_pc.splits)
  qed
qed

lemma handles_ok_start: "handles_ok s \<Longrightarrow> handles_ok (start fs s)"
proof (cases rule: start_cases [of fs s])
  case (failed message)
  assume a: "handles_ok s"
  have "handles_ok ((log ''ERROR'' (''Failed to start: '' @ message) ''MAIN''
                                  (snd (checkPrerequisites fs s)))\<lparr>pc := PcFailed\<rparr>)"
    using a by (rule handles_ok_same) simp_all
  then show ?thesis unfolding failed by (rule handles_ok_shutdown)
next
  case passed
  assume a: "handles_ok s"
  have "handles_ok (log ''INFO'' ''Starting services...'' ''MAIN'' (snd (checkPrerequisites fs s)))"
    using a by (rule handles_ok_same) simp_all
  then have "handles_ok (startProcess Stagehand
               (log ''INFO'' ''Starting services...'' ''MAIN'' (snd (checkPrerequisites fs s))))"
    by (rule handles_ok_startProcess)
  then show ?thesis unfolding passed by (rule handles_ok_same) simp_all
qed

lemma handles_ok_main: "handles_ok (main clock dir env pid fs)"
  unfolding main_def
  by (rule handles_ok_start) (simp add: handles_ok_def UnifiedServer_def Let_def)

lemma handles_ok_run: "handles_ok (run evs (main clock dir env pid fs))"
  by (rule run_invariant [of handles_ok, OF handles_ok_main handles_ok_step])

subsection \<open>The example supervisor, stopping\<close>

lemma main0_state:
  "processes main0 = (\<lambda>_. None)(Stagehand := Some 0)" "killed main0 = {}" "exitedH main0 = {}"
  "pending main0 = []" "exitListeners main0 = []" "timers main0 = []" "awaiting main0 = None"
  "nextHandle main0 = 1" "pc main0 = PcHealth Stagehand 1" "logEnded main0 = False"
  by (simp_all add: boot_defs)

lemma stopping0_state:
  "exitStatus stopping0 = None" "isShuttingDown stopping0"
  "timers stopping0 = [TForceKill Stagehand 0]" "pending stopping0 = [0]"
  "exitListeners stopping0 = [0]" "awaiting stopping0 = Some 0" "owner stopping0 0 = Some Stagehand"
  "exitedH stopping0 = {}"
  by (simp_all add: stopping0_def step_def on_signal_def shutdown_def service_keys_def
        stopProcess_def Let_def main0_facts main0_state)

lemma stopped0_run: "stopped0 = step (ChildExit 0 None (Some ''SIGTERM'')) stopping0"
  by (simp add: stopped0_def stopping0_def)

lemma stopped0_state: "exitStatus stopped0 = Some 0"
  by (simp add: stopped0_run step_def child_exit_def on_child_exit_def shutdown_exit_listener_def
        resolve_def Let_def stopping0_state)

subsection \<open>What is in the log does not influence what the supervisor does\<close>

lemma without_logs_log: "without_logs (log l m sv s) = without_logs (log l m sv (without_logs s))"
  by (simp add: without_logs_def log_def write_line_def)

lemma without_logs_log_any:
  "without_logs (log l m sv s) = without_logs (log l' m' sv' s)"
  by (simp add: without_logs_def log_def write_line_def)

lemma without_logs_sel [simp]:
  "isShuttingDown (without_logs s) = isShuttingDown s"
  "restartCounts (without_logs s) = restartCounts s"
  "pending (without_logs s) = pending s"
  "timers (without_logs s) = timers s"
  "trace (without_logs s) = trace s"
  "awaiting (without_logs s) = awaiting s"
  "exitStatus (without_logs s) = exitStatus s"
  "processes (without_logs s) = processes s"
  "killed (without_logs s) = killed s"
  "tick (without_logs s) = tick s"
  by (simp_all add: without_logs_def)

lemma without_logs_stop: "without_logs (stopProcess s n) = without_logs (stopProcess (without_logs s) n)"
  by (simp add: without_logs_def stopProcess_def Let_def log_def write_line_def kill_def
        setTimeout_def emit_def split: option.splits)

lemma without_logs_stopAll:
  "without_logs (foldl stopProcess s ns) = without_logs (foldl stopProcess (without_logs s) ns)"
proof (induction ns arbitrary: s)
  case Nil
  show ?case by (simp add: without_logs_def)
next
  case (Cons n ns)
  have "without_logs (foldl stopProcess (stopProcess s n) ns)
          = without_logs (foldl stopProcess (without_logs (stopProcess s n)) ns)"
    by (rule Cons)
  also have "\<dots> = without_logs (foldl stopProcess (without_logs (stopProcess (without_logs s) n)) ns)"
    by (simp add: without_logs_stop [of s n])
  also have "\<dots> = without_logs (foldl stopProcess (stopProcess (without_logs s) n) ns)"
    by (rule Cons [symmetric])
  finally show ?case by simp
qed

lemma without_logs_eqD:
  assumes "without_logs s = without_logs t"
  shows "isShuttingDown s = isShuttingDown t" "restartCounts s = restartCounts t"
    "pending s = pending t"
proof -
  from assms have "isShuttingDown (without_logs s) = isShuttingDown (without_logs t)" by simp
  then show "isShuttingDown s = isShuttingDown t" by simp
  from assms have "restartCounts (without_logs s) = restartCounts (without_logs t)" by simp
  then show "restartCounts s = restartCounts t" by simp
  from assms have "pending (without_logs s) = pending (without_logs t)" by simp
  then show "pending s = pending t" by simp
qed

lemma log_cong:
  assumes "without_logs s = without_logs t"
  shows "without_logs (log l m sv s) = without_logs (log l m sv t)"
proof -
  have "without_logs (log l m sv s) = without_logs (log l m sv (without_logs s))"
    by (rule without_logs_log)
  also have "\<dots> = without_logs (log l m sv (without_logs t))"
    by (simp only: assms)
  also have "\<dots> = without_logs (log l m sv t)"
    by (rule without_logs_log [symmetric])
  finally show ?thesis .
qed

lemma stopAll_cong:
  assumes "without_logs s = without_logs t"
  shows "without_logs (foldl stopProcess s ns) = without_logs (foldl stopProcess t ns)"
proof -
  have "without_logs (foldl stopProcess s ns) = without_logs (foldl stopProcess (without_logs s) ns)"
    by (rule without_logs_stopAll)
  also have "\<dots> = without_logs (foldl stopProcess (without_logs t) ns)"
    by (simp only: assms)
  also have "\<dots> = without_logs (foldl stopProcess t ns)"
    by (rule without_logs_stopAll [symmetric])
  finally show ?thesis .
qed

lemma update_cong:
  assumes "without_logs s = without_logs t"
  shows "without_logs (s\<lparr>awaiting := x\<rparr>) = without_logs (t\<lparr>awaiting := x\<rparr>)"
    and "without_logs (s\<lparr>isShuttingDown := b\<rparr>) = without_logs (t\<lparr>isShuttingDown := b\<rparr>)"
    and "without_logs (s\<lparr>restartCounts := r\<rparr>) = without_logs (t\<lparr>restartCounts := r\<rparr>)"
proof -
  have a: "without_logs (y\<lparr>awaiting := x\<rparr>) = (without_logs y)\<lparr>awaiting := x\<rparr>" for y
    by (simp add: without_logs_def)
  show "without_logs (s\<lparr>awaiting := x\<rparr>) = without_logs (t\<lparr>awaiting := x\<rparr>)"
    by (simp only: a assms)
  have b: "without_logs (y\<lparr>isShuttingDown := b\<rparr>) = (without_logs y)\<lparr>isShuttingDown := b\<rparr>" for y
    by (simp add: without_logs_def)
  show "without_logs (s\<lparr>isShuttingDown := b\<rparr>) = without_logs (t\<lparr>isShuttingDown := b\<rparr>)"
    by (simp only: b assms)
  have c: "without_logs (y\<lparr>restartCounts := r\<rparr>) = (without_logs y)\<lparr>restartCounts := r\<rparr>" for y
    by (simp add: without_logs_def)
  show "without_logs (s\<lparr>restartCounts := r\<rparr>) = without_logs (t\<lparr>restartCounts := r\<rparr>)"
    by (simp only: c assms)
qed

lemma finish_cong:
  assumes "without_logs s = without_logs t"
  shows "without_logs (shutdown_finish c s) = without_logs (shutdown_finish c t)"
proof -
  have a: "without_logs (shutdown_finish c y)
             = without_logs (shutdown_finish c (without_logs y))" for y
    by (simp add: without_logs_def shutdown_finish_def Let_def log_def write_line_def emit_def)
  have "without_logs (shutdown_finish c s) = without_logs (shutdown_finish c (without_logs s))"
    by (rule a)
  also have "\<dots> = without_logs (shutdown_finish c (without_logs t))"
    by (simp only: assms)
  also have "\<dots> = without_logs (shutdown_finish c t)"
    by (rule a [symmetric])
  finally show ?thesis .
qed

lemma setTimeout_cong:
  assumes "without_logs s = without_logs t"
  shows "without_logs (setTimeout tm ms s) = without_logs (setTimeout tm ms t)"
proof -
  have a: "without_logs (setTimeout tm ms y) = setTimeout tm ms (without_logs y)" for y
    by (simp add: without_logs_def setTimeout_def emit_def)
  show ?thesis by (simp only: a assms)
qed

lemma shutdown_cong:
  assumes "without_logs s = without_logs t"
  shows "without_logs (shutdown c s) = without_logs (shutdown c t)"
proof (cases "isShuttingDown s")
  case True
  then have "isShuttingDown t" using without_logs_eqD(1) [OF assms] by simp
  with True show ?thesis
    by (simp only: shutdown_again log_cong [OF assms])
next
  case False
  then have ft: "\<not> isShuttingDown t" using without_logs_eqD(1) [OF assms] by simp
  let ?s3 = "foldl stopProcess (log ''INFO'' ''Shutting down services...'' ''MAIN''
                                  (s\<lparr>isShuttingDown := True\<rparr>)) service_keys"
  let ?t3 = "foldl stopProcess (log ''INFO'' ''Shutting down services...'' ''MAIN''
                                  (t\<lparr>isShuttingDown := True\<rparr>)) service_keys"
  have eq3: "without_logs ?s3 = without_logs ?t3"
    by (intro stopAll_cong log_cong update_cong assms)
  have p: "pending ?s3 = pending ?t3"
    by (rule without_logs_eqD(3) [OF eq3])
  have s: "shutdown c s = (if pending ?s3 = [] then shutdown_finish c ?s3 else ?s3\<lparr>awaiting := Some c\<rparr>)"
    using False by (simp add: shutdown_def Let_def)
  have t: "shutdown c t = (if pending ?t3 = [] then shutdown_finish c ?t3 else ?t3\<lparr>awaiting := Some c\<rparr>)"
    using ft by (simp add: shutdown_def Let_def)
  show ?thesis
  proof (cases "pending ?s3 = []")
    case True
    with p have pt: "pending ?t3 = []" by simp
    have "shutdown c s = shutdown_finish c ?s3" using s True by simp
    moreover have "shutdown c t = shutdown_finish c ?t3" using t pt by simp
    ultimately show ?thesis using finish_cong [OF eq3, of c] by simp
  next
    case False
    with p have pt: "pending ?t3 \<noteq> []" by simp
    have "shutdown c s = ?s3\<lparr>awaiting := Some c\<rparr>" using s False by simp
    moreover have "shutdown c t = ?t3\<lparr>awaiting := Some c\<rparr>" using t pt by simp
    ultimately show ?thesis using update_cong(1) [OF eq3, of "Some c"] by simp
  qed
qed

lemma failure_cong:
  assumes "without_logs s = without_logs t"
  shows "without_logs (handleProcessFailure n s) = without_logs (handleProcessFailure n t)"
proof -
  have rc: "restartCounts s = restartCounts t"
    by (rule without_logs_eqD(2) [OF assms])
  show ?thesis
  proof (cases "restartCounts s n < maxRestarts")
    case False
    then have ft: "maxRestarts \<le> restartCounts t n" using rc by simp
    from False have fs: "maxRestarts \<le> restartCounts s n" by simp
    show ?thesis
      by (simp only: handleProcessFailure_fatal(1) [OF fs] handleProcessFailure_fatal(1) [OF ft])
         (intro shutdown_cong log_cong assms)
  next
    case True
    have unfold: "handleProcessFailure n x
            = setTimeout (TRestart n) restartDelay
                 (log ''INFO'' (''Restarting '' @ name_str n @ '' in '' @ show_nat restartDelay
                        @ ''ms (attempt '' @ show_nat (Suc (restartCounts x n)) @ ''/''
                        @ show_nat maxRestarts @ '')'') (toUpperCase (name_str n))
                    (x\<lparr>restartCounts := (restartCounts x)(n := Suc (restartCounts x n))\<rparr>))"
      if "restartCounts x n < maxRestarts" for x
      using that by (simp add: handleProcessFailure_def Let_def)
    from True rc have tt: "restartCounts t n < maxRestarts" by simp
    show ?thesis
      unfolding unfold [OF True] unfold [OF tt] rc
      by (intro setTimeout_cong log_cong update_cong assms)
  qed
qed

subsection \<open>Rounds of a failing health check\<close>

lemma untouched_refl: "untouched s s"
  by (simp add: untouched_def)

lemma untouched_trans: "untouched s t \<Longrightarrow> untouched t u \<Longrightarrow> untouched s u"
  by (simp add: untouched_def)

lemma failed_round:
  assumes "exitStatus s = None" "pc s = PcHealth n a" "a < maxAttempts"
  shows "untouched s (run [HealthCurl False, Timer THealthRetry] s)"
    and "pc (run [HealthCurl False, Timer THealthRetry] s) = PcHealth n (Suc a)"
    and "trace (run [HealthCurl False, Timer THealthRetry] s) =
           trace s @ [EHealthResult n a False, ESetTimeout THealthRetry 2000, ECurlHealth (healthUrl n)]"
proof -
  let ?s1 = "step (HealthCurl False) s"
  have s1: "?s1 = (setTimeout THealthRetry 2000 (emit (EHealthResult n a False) s))\<lparr>pc := PcHealthSleep n a\<rparr>"
    using assms by (simp add: step_def on_health_result_def Let_def)
  have t: "THealthRetry \<in> set (timers ?s1)" by (simp add: s1)
  have e1: "exitStatus ?s1 = None" using assms by (simp add: s1)
  have p1: "pc ?s1 = PcHealthSleep n a" by (simp add: s1)
  have s2: "run [HealthCurl False, Timer THealthRetry] s =
              checkHealth n (Suc a) (?s1\<lparr>timers := remove1 THealthRetry (timers ?s1)\<rparr>)"
    using e1 p1 t by (simp add: step_def [of "Timer THealthRetry"] on_timer_set)
  show "untouched s (run [HealthCurl False, Timer THealthRetry] s)"
    unfolding s2 by (simp add: untouched_def s1)
  show "pc (run [HealthCurl False, Timer THealthRetry] s) = PcHealth n (Suc a)"
    unfolding s2 by simp
  show "trace (run [HealthCurl False, Timer THealthRetry] s) =
           trace s @ [EHealthResult n a False, ESetTimeout THealthRetry 2000, ECurlHealth (healthUrl n)]"
    unfolding s2 by (simp add: s1)
qed

lemma failed_rounds_run:
  "exitStatus s = None \<Longrightarrow> pc s = PcHealth n a \<Longrightarrow> a + k \<le> maxAttempts \<Longrightarrow>
   untouched s (run (failed_rounds k) s) \<and>
   pc (run (failed_rounds k) s) = PcHealth n (a + k) \<and>
   trace (run (failed_rounds k) s) = trace s @ failed_trace n a k"
proof (induction k arbitrary: s a)
  case 0
  then show ?case by (simp add: untouched_refl)
next
  case (Suc k)
  let ?t = "run [HealthCurl False, Timer THealthRetry] s"
  from Suc.prems have lt: "a < maxAttempts" by simp
  note r = failed_round [OF Suc.prems(1,2) lt]
  have e: "exitStatus ?t = None" using r(1) Suc.prems(1) by (simp add: untouched_def)
  have "Suc a + k \<le> maxAttempts" using Suc.prems(3) by simp
  from Suc.IH [OF e r(2) this]
  have ih: "untouched ?t (run (failed_rounds k) ?t)"
    "pc (run (failed_rounds k) ?t) = PcHealth n (Suc a + k)"
    "trace (run (failed_rounds k) ?t) = trace ?t @ failed_trace n (Suc a) k"
    by simp_all
  have split: "run (failed_rounds (Suc k)) s = run (failed_rounds k) ?t"
    by simp
  show ?case
    unfolding split using ih r untouched_trans [OF r(1) ih(1)] by simp
qed

lemma show_nat_60: "show_nat (maxAttempts * 2) = ''60''"
  by (simp add: maxAttempts_def show_nat.simps)

lemma last_failed_check:
  assumes "exitStatus s = None" "pc s = PcHealth n a" "maxAttempts \<le> a"
  shows "step (HealthCurl False) s =
           after_health n
             (log ''WARNING'' (name_str n @ '' health check timed out after 60 seconds'')
                (toUpperCase (name_str n)) (emit (EHealthResult n a False) s))"
  using assms by (simp add: step_def on_health_result_def Let_def show_nat_60)

lemma after_health_untouched:
  "restartCounts (after_health n s) = restartCounts s"
  "isShuttingDown (after_health n s) = isShuttingDown s"
  "exitStatus (after_health n s) = exitStatus s"
  "awaiting (after_health n s) = awaiting s"
  "pending (after_health n s) = pending s"
  "processes (after_health n s) = processes s"
  "nextHandle (after_health n s) = nextHandle s"
  "timers (after_health n s) = timers s"
  "pc (after_health n s) = next_pc n"
  by (cases n; simp)+

lemma logFile_after_health: "set (logFile s) \<subseteq> set (logFile (after_health n s))"
  by (cases n) (auto simp: waitForHealthcheck_def checkHealth_def emit_def)

subsection \<open>The example supervisor, started and interrupted\<close>

lemma trace_main0: "trace main0 = [ESpawn Stagehand 0, ECurlHealth ''http://localhost:8081/health'']"
  by (simp add: boot_defs show_nat.simps)

lemmas run_defs = step_def on_health_result_def Let_def on_timer_def start_after_fetch_def
  start_after_delay_def cleanupStagehandSessions_done_def

lemma running0_state:
  "exitStatus running0 = None" "\<not> isShuttingDown running0" "pc running0 = PcDone"
  "processes running0 Stagehand = Some 0" "processes running0 Backend = Some 1"
  "processes running0 Frontend = Some 2"
  "killed running0 = {}" "pending running0 = []" "exitedH running0 = {}"
  "timers running0 = []" "exitListeners running0 = []" "nextHandle running0 = 3"
  by (simp_all add: running0_def run_defs main0_facts main0_state)


lemma running0_trace:
  "trace running0 = trace main0 @ 
     [EHealthResult Stagehand 1 True, ESetTimeout TCleanupDelay 1000, ECurlCleanup, EFetchCleanup,
      ESpawn Backend 1, ESetTimeout TBackendDelay 3000, ESpawn Frontend 2,
      ECurlHealth ''http://localhost:5001/api/health'', EHealthResult Backend 1 True,
      ECurlHealth ''http://localhost:5173'', EHealthResult Frontend 1 True]"
  by (simp add: running0_def run_defs main0_facts main0_state show_nat.simps)


lemma signal_running0:
  "trace (step (Signal ''SIGTERM'') running0) = trace running0 @
     [ESetTimeout (TForceKill Backend 1) 10000, EKill 1 ''SIGTERM'',
      ESetTimeout (TForceKill Frontend 2) 10000, EKill 2 ''SIGTERM'',
      ESetTimeout (TForceKill Stagehand 0) 10000, EKill 0 ''SIGTERM'']"
  by (simp add: step_def on_signal_def shutdown_def service_keys_def stopProcess_def Let_def
        running0_state)


lemma fetching0_state:
  "exitStatus fetching0 = None" "\<not> isShuttingDown fetching0" "pc fetching0 = PcFetch"
  "processes fetching0 Stagehand = Some 0" "processes fetching0 Backend = None"
  "processes fetching0 Frontend = None"
  "killed fetching0 = {}" "pending fetching0 = []" "exitedH fetching0 = {}"
  "timers fetching0 = []" "exitListeners fetching0 = []" "nextHandle fetching0 = 1"
  by (simp_all add: fetching0_def run_defs main0_facts main0_state)

lemma interrupted0_step: "interrupted0 = step (Signal ''SIGINT'') fetching0"
  by (simp add: interrupted0_def fetching0_def)

lemma interrupted0_state:
  "exitStatus interrupted0 = None" "isShuttingDown interrupted0" "pc interrupted0 = PcFetch"
  "processes interrupted0 Stagehand = Some 0" "processes interrupted0 Backend = None"
  "pending interrupted0 = [0]" "nextHandle interrupted0 = 1"
  "EKill 0 ''SIGTERM'' \<in> set (trace interrupted0)"
  by (simp_all add: interrupted0_step step_def on_signal_def shutdown_def service_keys_def
        stopProcess_def Let_def fetching0_state)

subsection \<open>What the loop of \<open>shutdown\<close> sends\<close>

lemma trace_stopProcess:
  "trace (stopProcess s n) =
     trace s @ (case processes s n of
                  None \<Rightarrow> []
                | Some h \<Rightarrow> if h \<in> killed s then []
                            else [ESetTimeout (TForceKill n h) 10000, EKill h ''SIGTERM''])"
  by (simp add: stopProcess_def Let_def split: option.splits)

lemma stop_sent_kept:
  "k \<le> length (trace s) \<Longrightarrow> stop_sent k h m s \<Longrightarrow> stop_sent k h m (stopProcess s n)"
  unfolding stop_sent_def
  by (auto simp: trace_stopProcess split: option.splits)
     (auto simp: stopProcess_def Let_def split: option.splits)

lemma stop_sent_begun:
  "k \<le> length (trace s) \<Longrightarrow> processes s n = Some h \<Longrightarrow> h \<notin> killed s \<Longrightarrow>
   stop_sent k h n (stopProcess s n)"
  unfolding stop_sent_def
  by (simp add: trace_stopProcess) (simp add: stopProcess_def Let_def)

lemma stop_sent_all:
  "k \<le> length (trace s) \<Longrightarrow>
   \<exists>m. processes s m = Some h \<and> (stop_sent k h m s \<or> (m \<in> set ns \<and> h \<notin> killed s)) \<Longrightarrow>
   \<exists>m. processes s m = Some h \<and> stop_sent k h m (foldl stopProcess s ns)"
proof (induction ns arbitrary: s)
  case Nil
  then show ?case by auto
next
  case (Cons m' ns)
  let ?s' = "stopProcess s m'"
  have len: "k \<le> length (trace ?s')"
    using Cons.prems(1) by (simp add: trace_stopProcess)
  from Cons.prems(2) obtain m where m: "processes s m = Some h"
    and d: "stop_sent k h m s \<or> (m \<in> set (m' # ns) \<and> h \<notin> killed s)"
    by blast
  have "\<exists>x. processes ?s' x = Some h \<and> (stop_sent k h x ?s' \<or> (x \<in> set ns \<and> h \<notin> killed ?s'))"
  proof (cases "stop_sent k h m s")
    case True
    then have "stop_sent k h m ?s'" using Cons.prems(1) by (simp add: stop_sent_kept)
    with m show ?thesis by auto
  next
    case False
    with d have in_list: "m \<in> set (m' # ns)" and nk: "h \<notin> killed s" by auto
    show ?thesis
    proof (cases "processes s m' = Some h")
      case True
      then have "stop_sent k h m' ?s'" using Cons.prems(1) nk by (simp add: stop_sent_begun)
      with True show ?thesis by auto
    next
      case False
      with in_list m have "m \<in> set ns" by auto
      moreover have "h \<notin> killed ?s'" using False nk killed_stopProcess by blast
      ultimately show ?thesis using m by auto
    qed
  qed
  from Cons.IH [OF len this] show ?case by simp
qed

lemma shutdown_sends:
  assumes "\<not> isShuttingDown s" "processes s n = Some h" "h \<notin> killed s"
  shows "\<exists>m. processes s m = Some h \<and> stop_sent (length (trace s)) h m (shutdown c s)"
proof -
  let ?s2 = "log ''INFO'' ''Shutting down services...'' ''MAIN'' (s\<lparr>isShuttingDown := True\<rparr>)"
  let ?s3 = "foldl stopProcess ?s2 service_keys"
  have "n \<in> set service_keys" by (cases n) (simp_all add: service_keys_def)
  with assms have "\<exists>m. processes ?s2 m = Some h \<and>
        (stop_sent (length (trace s)) h m ?s2 \<or> (m \<in> set service_keys \<and> h \<notin> killed ?s2))"
    by auto
  from stop_sent_all [OF _ this]
  obtain m where m: "processes s m = Some h" "stop_sent (length (trace s)) h m ?s3"
    by auto
  then have ne: "pending ?s3 \<noteq> []" by (auto simp: stop_sent_def)
  with assms(1) have eq: "shutdown c s = ?s3\<lparr>awaiting := Some c\<rparr>"
    by (simp add: shutdown_def Let_def)
  have "stop_sent (length (trace s)) h m (shutdown c s)"
    using m(2) by (simp add: eq stop_sent_def)
  with m(1) show ?thesis by blast
qed

lemma shutdown_sends_tracked:
  assumes "handles_ok s" "\<not> isShuttingDown s" "processes s n = Some h"
  shows "stop_sent (length (trace s)) h n (shutdown c s)"
proof -
  have nk: "h \<notin> killed s" using assms unfolding handles_ok_def by blast
  from shutdown_sends [OF assms(2,3) nk, of c]
  obtain m where m: "processes s m = Some h" "stop_sent (length (trace s)) h m (shutdown c s)"
    by blast
  have "owner s h = Some m" "owner s h = Some n"
    using assms(1,3) m(1) unfolding handles_ok_def by blast+
  then have "m = n" by simp
  with m(2) show ?thesis by simp
qed

subsection \<open>Kill timers are set by the first shutdown only\<close>

lemma not_kill_timer_leave: "is_leave e \<Longrightarrow> \<not> kill_timer e"
  by (cases e rule: is_leave.cases) simp_all

lemma proj_kill_timer_resolve [simp]: "proj kill_timer (resolve h s) = proj kill_timer s"
  by (simp add: resolve_def Let_def proj_def split: option.splits)

lemma proj_kill_timer_failure:
  "isShuttingDown s \<Longrightarrow> proj kill_timer (handleProcessFailure n s) = proj kill_timer s"
  by (cases "restartCounts s n < maxRestarts")
     (simp_all add: proj_def handleProcessFailure_restart handleProcessFailure_fatal shutdown_again
        restart_timer_def)

lemma isShuttingDown_failure: "isShuttingDown s \<Longrightarrow> isShuttingDown (handleProcessFailure n s)"
  by (cases "restartCounts s n < maxRestarts")
     (simp_all add: handleProcessFailure_restart handleProcessFailure_fatal shutdown_again)

lemma proj_kill_timer_health [simp]:
  "proj kill_timer (on_health_result n a ok s) = proj kill_timer s"
  by (simp add: proj_def trace_on_health_result split: name.splits)

lemma kill_timers_step:
  assumes "isShuttingDown s"
  shows "proj kill_timer (step ev s) = proj kill_timer s \<and> isShuttingDown (step ev s)"
proof (cases "exitStatus s \<noteq> None")
  case True
  with assms show ?thesis by (simp add: step_def)
next
  case False
  show ?thesis
  proof (cases ev)
    case (ChildSpawned h p)
    with False assms show ?thesis by (simp add: step_def split: option.splits)
  next
    case (ChildError h msg)
    with False assms show ?thesis
      by (simp add: step_def on_child_error_def proj_kill_timer_failure isShuttingDown_failure
            split: option.splits)
  next
    case (ChildExit h c g)
    with False assms show ?thesis
      by (simp add: step_def child_exit_def on_child_exit_def shutdown_exit_listener_def Let_def
            split: option.splits)
  next
    case (ChildData h d)
    with False assms show ?thesis by (simp add: step_def split: option.splits)
  next
    case (Timer t)
    show ?thesis
    proof (cases "t \<in> set (timers s)")
      case nin: False
      with False assms Timer show ?thesis by (simp add: step_def on_timer_unset)
    next
      case True
      with False assms Timer show ?thesis
        by (cases t)
           (simp_all add: step_def on_timer_set restart_callback_def force_kill_callback_def
              split: start_pc.splits option.splits)
    qed
  next
    case (Signal g)
    with False assms show ?thesis by (simp add: step_def on_signal_def shutdown_again)
  next
    case (UncaughtException x y)
    with False assms show ?thesis by (simp add: step_def on_uncaughtException_def shutdown_again)
  next
    case (UnhandledRejection x y)
    with False assms show ?thesis by (simp add: step_def on_unhandledRejection_def shutdown_again)
  next
    case (HealthCurl ok)
    with False assms show ?thesis by (simp add: step_def split: start_pc.splits)
  next
    case (CleanupCurl ok er)
    with False assms show ?thesis by (simp add: step_def)
  next
    case (FetchDone r)
    with False assms show ?thesis by (simp add: step_def split: start_pc.splits option.splits)
  qed
qed

lemma kill_timers_run:
  "isShuttingDown s \<Longrightarrow> proj kill_timer (run evs s) = proj kill_timer s \<and> isShuttingDown (run evs s)"
proof (induction evs arbitrary: s)
  case Nil
  then show ?case by simp
next
  case (Cons ev evs)
  from kill_timers_step [OF Cons.prems, of ev]
  have a: "proj kill_timer (step ev s) = proj kill_timer s" "isShuttingDown (step ev s)" by simp_all
  from Cons.IH [OF a(2)] a(1) show ?case by simp
qed

lemma exit_once_run_from: "exit_once s \<Longrightarrow> exit_once (run evs s)"
  by (rule run_invariant [of exit_once]) (simp_all add: exit_once_step)

subsection \<open>The records of the log file\<close>

lemma records_ok_upd [simp]:
  "records_ok (s\<lparr>tick := x1\<rparr>) = records_ok s"
  "records_ok (s\<lparr>dirname := x2\<rparr>) = records_ok s"
  "records_ok (s\<lparr>nodeEnv := x3\<rparr>) = records_ok s"
  "records_ok (s\<lparr>ownPid := x4\<rparr>) = records_ok s"
  "records_ok (s\<lparr>backendCommand := x5\<rparr>) = records_ok s"
  "records_ok (s\<lparr>processes := x6\<rparr>) = records_ok s"
  "records_ok (s\<lparr>logEnded := x7\<rparr>) = records_ok s"
  "records_ok (s\<lparr>console := x9\<rparr>) = records_ok s"
  "records_ok (s\<lparr>isShuttingDown := x10\<rparr>) = records_ok s"
  "records_ok (s\<lparr>restartCounts := x11\<rparr>) = records_ok s"
  "records_ok (s\<lparr>nextHandle := x12\<rparr>) = records_ok s"
  "records_ok (s\<lparr>owner := x13\<rparr>) = records_ok s"
  "records_ok (s\<lparr>exitedH := x14\<rparr>) = records_ok s"
  "records_ok (s\<lparr>killed := x15\<rparr>) = records_ok s"
  "records_ok (s\<lparr>timers := x16\<rparr>) = records_ok s"
  "records_ok (s\<lparr>exitListeners := x17\<rparr>) = records_ok s"
  "records_ok (s\<lparr>pending := x18\<rparr>) = records_ok s"
  "records_ok (s\<lparr>awaiting := x19\<rparr>) = records_ok s"
  "records_ok (s\<lparr>cleanupCurls := x20\<rparr>) = records_ok s"
  "records_ok (s\<lparr>pc := x21\<rparr>) = records_ok s"
  "records_ok (s\<lparr>trace := x22\<rparr>) = records_ok s"
  "records_ok (s\<lparr>exitStatus := x23\<rparr>) = records_ok s"
  by (simp_all add: records_ok_def)

lemma records_ok_primitive [simp]:
  "records_ok (emit e s) = records_ok s"
  "records_ok (setTimeout t ms s) = records_ok s"
  "records_ok (clearTimeout t s) = records_ok s"
  "records_ok (kill h sig s) = records_ok s"
  by (simp_all add: records_ok_def)

lemma records_ok_log:
  "records_ok s \<Longrightarrow> level \<in> set log_levels \<Longrightarrow> service \<in> set log_services \<Longrightarrow>
   records_ok (log level message service s)"
  unfolding records_ok_def own_log_format_def by auto

lemma log_names [simp]:
  "''INFO'' \<in> set log_levels" "''WARNING'' \<in> set log_levels" "''ERROR'' \<in> set log_levels"
  "''MAIN'' \<in> set log_services" "''STAGEHAND'' \<in> set log_services"
  by (simp_all add: log_levels_def log_services_def)

lemma upper_literals [simp]:
  "toUpperCase ''backend'' = ''BACKEND''" "toUpperCase ''frontend'' = ''FRONTEND''"
  "toUpperCase ''stagehand'' = ''STAGEHAND''"
  by (simp_all add: toUpperCase_def upper_char_def)

lemma log_service_name [simp]:
  "''BACKEND'' \<in> set log_services" "''FRONTEND'' \<in> set log_services"
  "toUpperCase (name_str n) \<in> set log_services"
  by (cases n; simp add: log_services_def)+

lemma detectedLevel_level [simp]: "detectedLevel m \<in> set log_levels"
proof (cases "logLevelMatch m")
  case None
  then show ?thesis by (simp add: detectedLevel_def log_levels_def)
next
  case (Some t)
  then have "t \<in> set level_tokens" unfolding logLevelMatch_def by (rule match_level_token)
  with Some show ?thesis by (auto simp: detectedLevel_def log_levels_def level_tokens_def)
qed

lemma records_ok_output:
  "records_ok s \<Longrightarrow> service \<in> set log_services \<Longrightarrow> records_ok (logProcessOutput m service s)"
proof (cases "hasTimestamp m")
  case False
  assume "records_ok s" "service \<in> set log_services"
  with False show ?thesis by (simp add: logProcessOutput_def records_ok_log)
next
  case True
  assume a: "records_ok s" "service \<in> set log_services"
  have "child_log_format (''['' @ detectedLevel m @ ''] ['' @ service @ ''] '' @ m @ [CHR 0x0A])"
    unfolding child_log_format_def using True a(2) detectedLevel_level [of m] by blast
  with a(1) True show ?thesis
    by (auto simp: logProcessOutput_def write_line_def records_ok_def)
qed

lemma records_ok_spawn: "records_ok s \<Longrightarrow> records_ok (snd (spawnProcess n s))"
  by (simp add: spawnProcess_def Let_def records_ok_log)

lemma records_ok_startProcess: "records_ok s \<Longrightarrow> records_ok (startProcess n s)"
  using records_ok_spawn [of "case processes s n of Some old \<Rightarrow> kill old ''SIGTERM'' s | None \<Rightarrow> s" n]
  by (simp add: startProcess_def Let_def split_beta split: option.splits)

lemma records_ok_finish: "records_ok s \<Longrightarrow> records_ok (shutdown_finish c s)"
  by (simp add: shutdown_finish_def Let_def records_ok_log)

lemma records_ok_stop: "records_ok s \<Longrightarrow> records_ok (stopProcess s n)"
  by (simp add: stopProcess_def Let_def records_ok_log split: option.splits)

lemma records_ok_stopAll: "records_ok s \<Longrightarrow> records_ok (foldl stopProcess s ns)"
  by (induction ns arbitrary: s) (simp_all add: records_ok_stop)

lemma records_ok_shutdown: "records_ok s \<Longrightarrow> records_ok (shutdown c s)"
  by (simp add: shutdown_def Let_def records_ok_log records_ok_stopAll records_ok_finish)

lemma records_ok_resolve: "records_ok s \<Longrightarrow> records_ok (resolve h s)"
  by (simp add: resolve_def Let_def records_ok_finish split: option.splits)

lemma records_ok_failure: "records_ok s \<Longrightarrow> records_ok (handleProcessFailure n s)"
  by (simp add: handleProcessFailure_def Let_def records_ok_log records_ok_shutdown)

lemma records_ok_child_exit: "records_ok s \<Longrightarrow> records_ok (child_exit h c g s)"
  by (simp add: child_exit_def on_child_exit_def shutdown_exit_listener_def Let_def
        records_ok_log records_ok_failure records_ok_resolve split: option.splits)

lemma records_ok_wait: "records_ok s \<Longrightarrow> records_ok (waitForHealthcheck n s)"
  by (simp add: waitForHealthcheck_def checkHealth_def records_ok_log)

lemma records_ok_after_health: "records_ok s \<Longrightarrow> records_ok (after_health n s)"
  by (cases n) (simp_all add: records_ok_log records_ok_wait)

lemma records_ok_health: "records_ok s \<Longrightarrow> records_ok (on_health_result n a ok s)"
  by (simp add: on_health_result_def Let_def records_ok_log records_ok_after_health)

lemma records_ok_timer: "records_ok s \<Longrightarrow> records_ok (on_timer t s)"
proof (cases "t \<in> set (timers s)")
  case False
  assume "records_ok s"
  with False show ?thesis by (simp add: on_timer_unset)
next
  case True
  assume a: "records_ok s"
  show ?thesis
    by (cases t)
       (insert True a,
        simp_all add: on_timer_set restart_callback_def force_kill_callback_def checkHealth_def
          start_after_delay_def records_ok_log records_ok_startProcess records_ok_resolve
          records_ok_after_health records_ok_wait split: start_pc.splits)
qed

lemma records_ok_step: "records_ok s \<Longrightarrow> records_ok (step ev s)"
  by (cases ev)
     (simp_all add: step_def on_child_spawn_def on_child_error_def on_child_data_def Let_def
        on_signal_def on_uncaughtException_def on_unhandledRejection_def on_cleanup_curl_def
        start_after_fetch_def cleanupStagehandSessions_done_def
        records_ok_log records_ok_output records_ok_failure records_ok_shutdown
        records_ok_child_exit records_ok_timer records_ok_health records_ok_startProcess
        split: option.splits start_pc.splits fetch_result.splits)

lemma records_ok_init: "logFile s = [] \<Longrightarrow> records_ok s"
  by (simp add: records_ok_def)

lemma records_ok_start: "records_ok s \<Longrightarrow> records_ok (start fs s)"
proof -
  assume a: "records_ok s"
  have b: "records_ok (snd (checkPrerequisites fs s))"
    using a by (simp add: checkPrerequisites_def Let_def records_ok_log)
  show ?thesis
    by (cases rule: start_cases [of fs s])
       (simp_all add: b records_ok_log records_ok_shutdown records_ok_wait records_ok_startProcess)
qed

lemma records_ok_main: "records_ok (main clock dir env pid fs)"
  unfolding main_def
  by (rule records_ok_start) (simp add: UnifiedServer_def Let_def records_ok_log records_ok_init)

lemma now_start [simp]: "now (start fs s) = now s"
  by (cases rule: start_cases [of fs s]) simp_all

lemma now_main [simp]: "now (main clock dir env pid fs) = clock"
  by (simp add: main_def) (simp add: UnifiedServer_def Let_def)

lemma now_step [simp]: "now (step ev s) = now s"
  by (cases ev) (simp_all add: step_def child_exit_def on_timer_def Let_def
        split: option.splits start_pc.splits timer.splits)

lemma now_run [simp]: "now (run evs s) = now s"
  by (induction evs arbitrary: s) simp_all

lemma records_ok_run: "records_ok (run evs (main clock dir env pid fs))"
  by (rule run_invariant [of records_ok]) (simp_all add: records_ok_main records_ok_step)


lemma brackets_log_line: "3 \<le> length (filter (\<lambda>c. c = CHR ''['') (log_line ts l sv m))"
  by (simp add: log_line_def)

lemma backend_record_not_spec: "\<not> spec_log_format backend_record"
proof
  assume "spec_log_format backend_record"
  then obtain ts l sv m where "backend_record = log_line ts l sv m"
    unfolding spec_log_format_def by blast
  with brackets_log_line [of ts l sv m]
  have "3 \<le> length (filter (\<lambda>c. c = CHR ''['') backend_record)" by simp
  then show False by (simp add: backend_record_def backend_line_def)
qed

lemma backend_line_facts:
  "trim backend_line = backend_line" "hasTimestamp backend_line"
  "detectedLevel backend_line = ''INFO''" "backend_line \<noteq> []"
  by (simp_all add: backend_line_def trim_def is_space_def hasTimestamp_def timestamp_prefix_def
        digits_def lit_def spaces1_def is_digit_def detectedLevel_def logLevelMatch_def
        level_tokens_def token_at_def is_word_def)

lemma running0_log: "\<not> logEnded running0" "owner running0 (Suc 0) = Some Backend"
  by (simp_all add: running0_def run_defs main0_facts main0_state)

lemma main0_log:
  "\<not> logEnded main0"
  "log_line (clock0 0) ''INFO'' ''MAIN'' ''LinkedIn Research Suite - Unified Server Starting''
     \<in> set (logFile main0)"
  by (simp_all add: boot_defs UnifiedServer_def Let_def waitForHealthcheck_def checkHealth_def
        startProcess_def spawnProcess_def)

section \<open>Reclassifying the output of a child (claim C8)\<close>

lemma detectedLevel_cases:
  "detectedLevel line =
     (case logLevelMatch line of None \<Rightarrow> ''INFO''
      | Some l \<Rightarrow> if l = ''DEBUG'' then ''INFO'' else if l = ''CRITICAL'' then ''ERROR'' else l)"
  by (simp add: detectedLevel_def Let_def split: option.splits)

lemma detectedLevel_range: "detectedLevel line \<in> {''INFO'', ''WARNING'', ''ERROR''}"
proof (cases "logLevelMatch line")
  case None
  then show ?thesis by (simp add: detectedLevel_def)
next
  case (Some l)
  then have "l \<in> set level_tokens"
    unfolding logLevelMatch_def by (rule match_level_token)
  with Some show ?thesis
    by (auto simp: detectedLevel_def level_tokens_def)
qed

text \<open>
  Claim C8, as the code has it: a child's line that starts with a timestamp, with or without a
  severity token, is written as \<open>[LEVEL] [SERVICE] line\<close> without a new timestamp; every
  other line is wrapped by \<open>log\<close> with the supervisor's own timestamp. In both cases
  the level is the first severity token of the line, DEBUG shown as INFO and CRITICAL
  as ERROR, or INFO when the line has no token; so it is INFO, WARNING or ERROR.
\<close>

theorem logProcessOutput_reclassifies:
  assumes "\<not> logEnded s"
  shows "logFile (logProcessOutput line service s) =
           logFile s @ [if hasTimestamp line
                        then ''['' @ detectedLevel line @ ''] ['' @ service @ ''] '' @ line @ [CHR 0x0A]
                        else log_line (now s (tick s)) (detectedLevel line) service line]
         \<and> detectedLevel line =
             (case logLevelMatch line of None \<Rightarrow> ''INFO''
              | Some l \<Rightarrow> if l = ''DEBUG'' then ''INFO'' else if l = ''CRITICAL'' then ''ERROR'' else l)
         \<and> detectedLevel line \<in> {''INFO'', ''WARNING'', ''ERROR''}"
  using assms detectedLevel_range [of line]
  by (simp add: logProcessOutput_def write_line_def detectedLevel_cases)

lemma server0_open: "\<not> logEnded server0"
  by (simp add: server0_def UnifiedServer_def Let_def)

lemmas regex_defs = hasTimestamp_def timestamp_prefix_def digits_def lit_def spaces1_def
  is_digit_def is_space_def logLevelMatch_def level_tokens_def token_at_def is_word_def

lemma plain_line_hasTimestamp: "hasTimestamp ''2025-08-28 16:16:32 hello''" 
  by (simp add: regex_defs)
lemma plain_line_no_level: "logLevelMatch ''2025-08-28 16:16:32 hello'' = None" 
  by (simp add: regex_defs)
lemma critical_line_level: "logLevelMatch ''2025-08-28 16:16:32,185 - app - CRITICAL - disk full'' = Some ''CRITICAL''" 
  by (simp add: regex_defs)
lemma critical_line_hasTimestamp: "hasTimestamp ''2025-08-28 16:16:32,185 - app - CRITICAL - disk full''" 
  by (simp add: regex_defs)

text \<open>
  Claim C8 as the specification words it fails on a line with a timestamp and no severity
  token: the specification has it wrapped with the supervisor's timestamp, the code writes
  it without one.
\<close>

theorem logProcessOutput_counterexample:
  "logFile (logProcessOutput ''2025-08-28 16:16:32 hello'' ''BACKEND'' server0)
     \<noteq> logFile server0 @ [spec_reclassify (now server0 (tick server0)) ''BACKEND'' ''2025-08-28 16:16:32 hello'']"
  by (simp add: logProcessOutput_def write_line_def spec_reclassify_def plain_line_hasTimestamp plain_line_no_level log_line_def
        server0_def UnifiedServer_def Let_def detectedLevel_def clock0_def)

text \<open>Claim C8, the amended statement at a line of the Python backend.\<close>

theorem logProcessOutput_reclassifies_witness:
  "\<not> logEnded server0 \<and>
   logFile (logProcessOutput ''2025-08-28 16:16:32,185 - app - CRITICAL - disk full'' ''BACKEND'' server0) =
     logFile server0 @ [''[ERROR] [BACKEND] 2025-08-28 16:16:32,185 - app - CRITICAL - disk full'' @ [CHR 0x0A]]"
proof -
  have h: "\<not> logEnded server0" by (rule server0_open)
  show ?thesis
    using h logProcessOutput_reclassifies [OF h, of "''2025-08-28 16:16:32,185 - app - CRITICAL - disk full''" "''BACKEND''"]
    by (simp add: critical_line_level critical_line_hasTimestamp)
qed
section \<open>The restart policy (claim C2)\<close>













section \<open>Shutdown is idempotent (claim C3)\<close>

text \<open>
  Claim C3. A call of \<open>shutdown\<close> while a shutdown is in progress only logs a warning: it
  changes nothing but the log. In every run of the supervisor, let \<open>shutdown(c1)\<close> be
  called for the first time. That call runs the shutdown sequence: every tracked child
  gets its kill timer and SIGTERM. Whatever events follow, no kill timer is set again,
  so the sequence runs once; a further call of \<open>shutdown\<close> is a no-op; as long as a child
  is waited for the supervisor has not closed its log or exited; and as soon as none is
  waited for it has closed its log and called \<open>process.exit\<close> exactly once, with \<open>c1\<close>.
\<close>

theorem shutdown_idempotent:
  "(isShuttingDown a \<longrightarrow>
      shutdown c2 a = log ''WARNING'' ''Shutdown already in progress...'' ''MAIN'' a)
   \<and> (let r = run evs0 (main clock dir env pid fs)
      in \<not> isShuttingDown r \<and> exitStatus r = None \<longrightarrow>
           (let t0 = shutdown c1 r;
                t = run evs t0
            in (processes r n = Some h \<longrightarrow> stop_sent (length (trace r)) h n t0) \<and>
               isShuttingDown t \<and>
               proj kill_timer t = proj kill_timer t0 \<and>
               shutdown c2 t = log ''WARNING'' ''Shutdown already in progress...'' ''MAIN'' t \<and>
               trace (shutdown c2 t) = trace t \<and>
               exitStatus (shutdown c2 t) = exitStatus t \<and>
               (pending t = [] \<longrightarrow>
                  exitStatus t = Some c1 \<and> proj is_leave t = [ELogEnd, EExit c1]) \<and>
               (pending t \<noteq> [] \<longrightarrow> exitStatus t = None \<and> proj is_leave t = [])))"
proof (intro conjI impI)
  assume "isShuttingDown a"
  then show "shutdown c2 a = log ''WARNING'' ''Shutdown already in progress...'' ''MAIN'' a"
    by (rule shutdown_again)
next
  let ?r = "run evs0 (main clock dir env pid fs)"
  let ?u = "shutdown c1 ?r"
  let ?t = "run evs ?u"
  have main: "(processes ?r n = Some h \<longrightarrow> stop_sent (length (trace ?r)) h n ?u) \<and>
               isShuttingDown ?t \<and>
               proj kill_timer ?t = proj kill_timer ?u \<and>
               shutdown c2 ?t = log ''WARNING'' ''Shutdown already in progress...'' ''MAIN'' ?t \<and>
               trace (shutdown c2 ?t) = trace ?t \<and>
               exitStatus (shutdown c2 ?t) = exitStatus ?t \<and>
               (pending ?t = [] \<longrightarrow>
                  exitStatus ?t = Some c1 \<and> proj is_leave ?t = [ELogEnd, EExit c1]) \<and>
               (pending ?t \<noteq> [] \<longrightarrow> exitStatus ?t = None \<and> proj is_leave ?t = [])"
    if h: "\<not> isShuttingDown ?r \<and> exitStatus ?r = None"
  proof -
    have hk: "handles_ok ?r" by (rule handles_ok_run)
    have sent: "stop_sent (length (trace ?r)) h n ?u" if "processes ?r n = Some h"
      using hk h that by (simp add: shutdown_sends_tracked)
    have c0: "committed c1 ?u" using h by (simp add: shutdown_commits)
    then have c: "committed c1 ?t" by (rule committed_run)
    have sd0: "isShuttingDown ?u" using c0 by (simp add: committed_def)
    have kt: "proj kill_timer ?t = proj kill_timer ?u" "isShuttingDown ?t"
      using kill_timers_run [OF sd0, of evs] by simp_all
    have "exit_once ?r" by (rule exit_once_run)
    then have "exit_once ?u" using h by (simp add: exit_once_shutdown)
    then have eo: "exit_once ?t" by (rule exit_once_run_from)
    have again: "shutdown c2 ?t = log ''WARNING'' ''Shutdown already in progress...'' ''MAIN'' ?t"
      using kt(2) by (rule shutdown_again)
    have p0: "exitStatus ?t = Some c1 \<and> proj is_leave ?t = [ELogEnd, EExit c1]" if "pending ?t = []"
      using c eo that by (auto simp: committed_def exit_once_def)
    have wk: "waits_ok ?t"
    proof -
      have "waits_ok ?r" by (rule waits_ok_run)
      then have "waits_ok ?u" using h by (simp add: waits_ok_shutdown)
      then show ?thesis by (rule run_invariant [of waits_ok]) (simp add: waits_ok_step)
    qed
    have p1: "exitStatus ?t = None \<and> proj is_leave ?t = []" if "pending ?t \<noteq> []"
    proof -
      have "exitStatus ?t = None"
        using wk that unfolding waits_ok_def by (cases "exitStatus ?t") auto
      with eo show ?thesis by (simp add: exit_once_def)
    qed
    show ?thesis
      using sent kt again p0 p1 by simp
  qed
  then show "let r = run evs0 (main clock dir env pid fs)
      in \<not> isShuttingDown r \<and> exitStatus r = None \<longrightarrow>
           (let t0 = shutdown c1 r;
                t = run evs t0
            in (processes r n = Some h \<longrightarrow> stop_sent (length (trace r)) h n t0) \<and>
               isShuttingDown t \<and>
               proj kill_timer t = proj kill_timer t0 \<and>
               shutdown c2 t = log ''WARNING'' ''Shutdown already in progress...'' ''MAIN'' t \<and>
               trace (shutdown c2 t) = trace t \<and>
               exitStatus (shutdown c2 t) = exitStatus t \<and>
               (pending t = [] \<longrightarrow>
                  exitStatus t = Some c1 \<and> proj is_leave t = [ELogEnd, EExit c1]) \<and>
               (pending t \<noteq> [] \<longrightarrow> exitStatus t = None \<and> proj is_leave t = []))"
    unfolding Let_def by blast
qed

lemma shutdown_main0_state:
  "exitStatus (shutdown 0 main0) = None" "isShuttingDown (shutdown 0 main0)"
  "timers (shutdown 0 main0) = [TForceKill Stagehand 0]" "pending (shutdown 0 main0) = [0]"
  "exitListeners (shutdown 0 main0) = [0]" "awaiting (shutdown 0 main0) = Some 0"
  "owner (shutdown 0 main0) 0 = Some Stagehand" "exitedH (shutdown 0 main0) = {}"
  by (simp_all add: shutdown_def service_keys_def stopProcess_def Let_def main0_facts main0_state)

lemma second_trigger_main0:
  "step (Signal ''SIGINT'') (shutdown 0 main0) =
     log ''WARNING'' ''Shutdown already in progress...'' ''MAIN''
       (log ''INFO'' ''Received SIGINT, starting graceful shutdown...'' ''MAIN'' (shutdown 0 main0))"
  by (simp add: step_def on_signal_def shutdown_again shutdown_main0_state)

lemma stopped_twice_main0:
  "pending (run [Signal ''SIGINT'', ChildExit 0 None (Some ''SIGTERM'')] (shutdown 0 main0)) = []"
  by (simp add: second_trigger_main0)
     (simp add: step_def child_exit_def on_child_exit_def shutdown_exit_listener_def
        resolve_def Let_def shutdown_main0_state main0_facts main0_state)

text \<open>
  Claim C3 at the example supervisor: a first trigger while stagehand is its only child;
  while stagehand is waited for nothing has been closed; after a second trigger and the
  exit of stagehand the supervisor has exited once, with the status of the first.
\<close>

theorem shutdown_idempotent_witness:
  "isShuttingDown (shutdown 0 main0) \<and>
   (\<not> isShuttingDown (run [] main0) \<and> exitStatus (run [] main0) = None) \<and>
   processes (run [] main0) Stagehand = Some 0 \<and>
   pending (run [] (shutdown 0 (run [] main0))) \<noteq> [] \<and>
   pending (run [Signal ''SIGINT'', ChildExit 0 None (Some ''SIGTERM'')] (shutdown 0 (run [] main0))) = [] \<and>
   stop_sent (length (trace (run [] main0))) 0 Stagehand (shutdown 0 (run [] main0)) \<and>
   exitStatus (run [] (shutdown 0 (run [] main0))) = None \<and>
   exitStatus (run [Signal ''SIGINT'', ChildExit 0 None (Some ''SIGTERM'')] (shutdown 0 (run [] main0)))
     = Some 0 \<and>
   proj is_leave (run [Signal ''SIGINT'', ChildExit 0 None (Some ''SIGTERM'')] (shutdown 0 (run [] main0)))
     = [ELogEnd, EExit 0]"
proof -
  have h: "isShuttingDown (shutdown 0 main0)"
    "\<not> isShuttingDown (run [] main0) \<and> exitStatus (run [] main0) = None"
    "processes (run [] main0) Stagehand = Some 0"
    "pending (run [] (shutdown 0 (run [] main0))) \<noteq> []"
    "pending (run [Signal ''SIGINT'', ChildExit 0 None (Some ''SIGTERM'')] (shutdown 0 (run [] main0))) = []"
    using stopped_twice_main0 by (simp_all add: shutdown_main0_state main0_facts main0_state)
  note a = shutdown_idempotent [where a = "shutdown 0 main0" and ?c2.0 = 1 and ?evs0.0 = "[]"
      and clock = clock0 and dir = "''/app''" and env = None and pid = 4242 and fs = fs_ok
      and ?c1.0 = 0 and evs = "[]" and n = Stagehand and h = 0, folded main0_def]
  note b = shutdown_idempotent [where a = "shutdown 0 main0" and ?c2.0 = 1 and ?evs0.0 = "[]"
      and clock = clock0 and dir = "''/app''" and env = None and pid = 4242 and fs = fs_ok
      and ?c1.0 = 0 and evs = "[Signal ''SIGINT'', ChildExit 0 None (Some ''SIGTERM'')]"
      and n = Stagehand and h = 0, folded main0_def]
  from a h have 1: "stop_sent (length (trace (run [] main0))) 0 Stagehand (shutdown 0 (run [] main0))"
    "exitStatus (run [] (shutdown 0 (run [] main0))) = None"
    unfolding Let_def by blast+
  from b h have 2: "exitStatus (run [Signal ''SIGINT'', ChildExit 0 None (Some ''SIGTERM'')]
                        (shutdown 0 (run [] main0))) = Some 0"
    "proj is_leave (run [Signal ''SIGINT'', ChildExit 0 None (Some ''SIGTERM'')]
                        (shutdown 0 (run [] main0))) = [ELogEnd, EExit 0]"
    unfolding Let_def by blast+
  from h 1 2 show ?thesis by blast
qed

section \<open>The shutdown protocol (claim C4)\<close>

text \<open>
  What holds of the children that are tracked when \<open>shutdown\<close> starts. In every run of
  the supervisor, when \<open>shutdown(c)\<close> starts, every tracked child
  (whether it has exited or not) is sent SIGTERM, gets an exit listener and a timer of
  10 seconds, all in the one synchronous loop of \<open>shutdown\<close>, and the supervisor waits
  without exiting. When the timer of a child fires first, the child is sent SIGKILL and
  is no longer waited for. Once the supervisor has exited, every child it listened to has
  exited or been sent SIGKILL, and closing the log stream and \<open>process.exit\<close> were the
  last two things it did; the exit status is the one \<open>shutdown\<close> was called with.
\<close>

lemma shutdown_of_tracked_children:
  "(let r = run evs (main clock dir env pid fs)
    in (\<not> isShuttingDown r \<and> processes r n = Some h \<longrightarrow>
          (let t = shutdown c r
           in EKill h ''SIGTERM'' \<in> set (trace t) \<and> h \<in> set (exitListeners t) \<and>
              h \<in> set (pending t) \<and>
              (\<exists>m\<in>set service_keys. TForceKill m h \<in> set (timers t) \<and>
                                     ESetTimeout (TForceKill m h) 10000 \<in> set (trace t)) \<and>
              exitStatus t = exitStatus r \<and> awaiting t = Some c)))
   \<and> (let r = run evs2 (main clock dir env pid fs)
      in exitStatus r = Some k \<longrightarrow>
          (\<forall>x\<in>set (exitListeners r). x \<in> exitedH r \<or> EKill x ''SIGKILL'' \<in> set (trace r)) \<and>
          drop (length (trace r) - 2) (trace r) = [ELogEnd, EExit k])
   \<and> (TForceKill n' h' \<in> set (timers s) \<and> exitStatus s = None \<longrightarrow>
        (let t = step (Timer (TForceKill n' h')) s
         in EKill h' ''SIGKILL'' \<in> set (trace t) \<and> h' \<notin> set (pending t)))
   \<and> (\<not> isShuttingDown s' \<and> exitStatus s' = None \<longrightarrow>
        (let t = run evs' (shutdown c' s') in exitStatus t = None \<or> exitStatus t = Some c'))"
proof (intro conjI impI)
  let ?r = "run evs (main clock dir env pid fs)"
  have "stopping h (shutdown c ?r) \<and> exitStatus (shutdown c ?r) = exitStatus ?r \<and>
        awaiting (shutdown c ?r) = Some c"
    if "\<not> isShuttingDown ?r" "processes ?r n = Some h"
  proof -
    have "h \<notin> killed ?r"
      using handles_ok_run [of evs clock dir env pid fs] that unfolding handles_ok_def by blast
    with that show ?thesis by (simp add: stopping_shutdown)
  qed
  then show "let r = run evs (main clock dir env pid fs)
    in (\<not> isShuttingDown r \<and> processes r n = Some h \<longrightarrow>
          (let t = shutdown c r
           in EKill h ''SIGTERM'' \<in> set (trace t) \<and> h \<in> set (exitListeners t) \<and>
              h \<in> set (pending t) \<and>
              (\<exists>m\<in>set service_keys. TForceKill m h \<in> set (timers t) \<and>
                                     ESetTimeout (TForceKill m h) 10000 \<in> set (trace t)) \<and>
              exitStatus t = exitStatus r \<and> awaiting t = Some c))"
    unfolding Let_def stopping_def by blast
next
  let ?r = "run evs2 (main clock dir env pid fs)"
  have "(\<forall>x\<in>set (exitListeners ?r). x \<in> exitedH ?r \<or> EKill x ''SIGKILL'' \<in> set (trace ?r)) \<and>
          drop (length (trace ?r) - 2) (trace ?r) = [ELogEnd, EExit k]"
    if "exitStatus ?r = Some k"
    using waits_ok_run [of evs2 clock dir env pid fs] that
    unfolding waits_ok_def settled_def by auto
  then show "let r = run evs2 (main clock dir env pid fs)
      in exitStatus r = Some k \<longrightarrow>
          (\<forall>x\<in>set (exitListeners r). x \<in> exitedH r \<or> EKill x ''SIGKILL'' \<in> set (trace r)) \<and>
          drop (length (trace r) - 2) (trace r) = [ELogEnd, EExit k]"
    unfolding Let_def by blast
next
  assume a: "TForceKill n' h' \<in> set (timers s) \<and> exitStatus s = None"
  have grow: "set (trace x) \<subseteq> set (trace (resolve h' x))" for x
    using resolve_grows [of x h'] by (auto dest!: grows_byE)
  have "EKill h' ''SIGKILL'' \<in> set (trace (force_kill_callback n' h' x))" for x
    unfolding force_kill_callback_def using grow by (rule subsetD) simp
  moreover have "h' \<notin> set (pending (resolve h' x))" for x
    by (simp add: resolve_def Let_def split: option.splits)
  ultimately show "let t = step (Timer (TForceKill n' h')) s
         in EKill h' ''SIGKILL'' \<in> set (trace t) \<and> h' \<notin> set (pending t)"
    using a by (simp add: step_def on_timer_set force_kill_callback_def)
next
  assume "\<not> isShuttingDown s' \<and> exitStatus s' = None"
  then have "committed c' (run evs' (shutdown c' s'))"
    by (intro committed_run shutdown_commits) simp_all
  then show "let t = run evs' (shutdown c' s') in exitStatus t = None \<or> exitStatus t = Some c'"
    by (auto simp: committed_def)
qed

text \<open>
  The same at the example supervisor: SIGTERM while stagehand is its only child, then
  either the kill timer or the exit of stagehand.
\<close>

lemma shutdown_of_tracked_children_example:
  "(\<not> isShuttingDown (run [] main0) \<and> processes (run [] main0) Stagehand = Some 0) \<and>
   exitStatus stopped0 = Some 0 \<and>
   (TForceKill Stagehand 0 \<in> set (timers stopping0) \<and> exitStatus stopping0 = None) \<and>
   (\<not> isShuttingDown main0 \<and> exitStatus main0 = None) \<and>
   EKill 0 ''SIGTERM'' \<in> set (trace (shutdown 0 (run [] main0))) \<and>
   drop (length (trace stopped0) - 2) (trace stopped0) = [ELogEnd, EExit 0] \<and>
   EKill 0 ''SIGKILL'' \<in> set (trace (step (Timer (TForceKill Stagehand 0)) stopping0))"
  using main0_facts main0_state stopping0_state stopped0_state
    shutdown_of_tracked_children [where evs = "[]" and clock = clock0 and dir = "''/app''" and env = None
      and pid = 4242 and fs = fs_ok and n = Stagehand and h = 0 and c = 0
      and ?evs2.0 = "[Signal ''SIGTERM'', ChildExit 0 None (Some ''SIGTERM'')]" and k = 0
      and n' = Stagehand and h' = 0 and s = stopping0 and s' = main0]
  by (simp add: Let_def main0_def [symmetric] stopped0_def)

text \<open>The exit of a child that \<open>shutdown\<close> listens to cancels the timer that would kill it.\<close>

lemma exit_cancels_kill_timer:
  assumes "isShuttingDown s" "exitStatus s = None" "owner s h = Some n" "h \<notin> exitedH s"
    "h \<in> set (exitListeners s)"
  shows "TForceKill n h \<notin> set (timers (step (ChildExit h code signal) s))"
  using assms
  by (simp add: step_def child_exit_def on_child_exit_def shutdown_exit_listener_def Let_def)

lemma fetching0_trace:
  "trace fetching0 = trace main0 @
     [EHealthResult Stagehand 1 True, ESetTimeout TCleanupDelay 1000, ECurlCleanup, EFetchCleanup]"
  "owner fetching0 0 = Some Stagehand" "awaiting fetching0 = None"
  by (simp_all add: fetching0_def run_defs main0_facts main0_state)

lemma interrupted0_more:
  "trace interrupted0 = trace fetching0 @ [ESetTimeout (TForceKill Stagehand 0) 10000, EKill 0 ''SIGTERM'']"
  "owner interrupted0 0 = Some Stagehand" "exitedH interrupted0 = {}"
  "exitListeners interrupted0 = [0]" "awaiting interrupted0 = Some 0"
  "timers interrupted0 = [TForceKill Stagehand 0]"
  by (simp_all add: interrupted0_step step_def on_signal_def shutdown_def service_keys_def
        stopProcess_def Let_def fetching0_state fetching0_trace)

lemma abandoned0_steps:
  "abandoned0 = step (ChildExit 0 None (Some ''SIGTERM''))
                  (start_after_fetch (FetchError ''ECONNRESET'') interrupted0)"
  by (simp add: abandoned0_def step_def [of "FetchDone _"] interrupted0_state)

text \<open>
  Claim C4 fails where claim C10 fails, by the same defect: \<open>start\<close> spawns after shutdown
  has begun. The example supervisor receives SIGINT while \<open>start\<close> waits for the answer to
  its cleanup request; \<open>shutdown\<close> signals stagehand, its only child, and waits for it
  alone. The request fails, \<open>start\<close> spawns the backend and tracks it. Stagehand exits:
  the supervisor closes its log and exits with status 0, while the tracked backend has
  not exited and has never been sent a signal.
\<close>

theorem exit_leaves_child_running:
  "exitStatus abandoned0 = Some 0 \<and>
   drop (length (trace abandoned0) - 2) (trace abandoned0) = [ELogEnd, EExit 0] \<and>
   processes abandoned0 Backend = Some 1 \<and>
   1 \<notin> exitedH abandoned0 \<and>
   proj (signals_to 1) abandoned0 = [] \<and>
   proj (signals_to 0) abandoned0 = [EKill 0 ''SIGTERM'']"
  by (simp add: abandoned0_steps step_def child_exit_def on_child_exit_def
        shutdown_exit_listener_def resolve_def Let_def start_after_fetch_def
        interrupted0_state interrupted0_more fetching0_trace trace_main0 proj_def)

section \<open>Spawn errors and unexpected exits (claim C9)\<close>

text \<open>
  Claim C9. The error handler of a child always logs and calls \<open>handleProcessFailure\<close>.
  While the supervisor is not shutting down the exit handler does the same, with another
  log line: the two resulting states differ only in what was written to the log file
  and the console. In particular they have the same restart counters, the same timers,
  the same effects, and the same shutdown state.
\<close>

theorem error_counts_as_exit:
  "on_child_error n msg s =
     handleProcessFailure n
       (log ''ERROR'' (name_str n @ '' process error: '' @ msg) (toUpperCase (name_str n)) s)
   \<and> (\<not> isShuttingDown s \<longrightarrow>
        without_logs (on_child_error n msg s) = without_logs (on_child_exit n code signal s) \<and>
        restartCounts (on_child_error n msg s) = restartCounts (on_child_exit n code signal s) \<and>
        timers (on_child_error n msg s) = timers (on_child_exit n code signal s) \<and>
        trace (on_child_error n msg s) = trace (on_child_exit n code signal s) \<and>
        isShuttingDown (on_child_error n msg s) = isShuttingDown (on_child_exit n code signal s) \<and>
        awaiting (on_child_error n msg s) = awaiting (on_child_exit n code signal s) \<and>
        exitStatus (on_child_error n msg s) = exitStatus (on_child_exit n code signal s))"
proof (intro conjI impI)
  show "on_child_error n msg s =
     handleProcessFailure n
       (log ''ERROR'' (name_str n @ '' process error: '' @ msg) (toUpperCase (name_str n)) s)"
    by (simp add: on_child_error_def)
next
  assume ns: "\<not> isShuttingDown s"
  let ?e = "log ''ERROR'' (name_str n @ '' process error: '' @ msg) (toUpperCase (name_str n)) s"
  let ?x = "log ''ERROR'' (name_str n @ '' process exited unexpectedly (code: '' @ js_num code
                         @ '', signal: '' @ js_str signal @ '')'') (toUpperCase (name_str n)) s"
  have "without_logs ?e = without_logs ?x"
    by (rule without_logs_log_any)
  then have "without_logs (handleProcessFailure n ?e) = without_logs (handleProcessFailure n ?x)"
    by (rule failure_cong)
  then have eq: "without_logs (on_child_error n msg s) = without_logs (on_child_exit n code signal s)"
    using ns by (simp add: on_child_error_def on_child_exit_unexpected)
  show "without_logs (on_child_error n msg s) = without_logs (on_child_exit n code signal s)"
    by (rule eq)
  from eq have "restartCounts (without_logs (on_child_error n msg s))
                 = restartCounts (without_logs (on_child_exit n code signal s))" by simp
  then show "restartCounts (on_child_error n msg s) = restartCounts (on_child_exit n code signal s)"
    by simp
  from eq have "timers (without_logs (on_child_error n msg s))
                 = timers (without_logs (on_child_exit n code signal s))" by simp
  then show "timers (on_child_error n msg s) = timers (on_child_exit n code signal s)"
    by simp
  from eq have "trace (without_logs (on_child_error n msg s))
                 = trace (without_logs (on_child_exit n code signal s))" by simp
  then show "trace (on_child_error n msg s) = trace (on_child_exit n code signal s)"
    by simp
  from eq have "isShuttingDown (without_logs (on_child_error n msg s))
                 = isShuttingDown (without_logs (on_child_exit n code signal s))" by simp
  then show "isShuttingDown (on_child_error n msg s) = isShuttingDown (on_child_exit n code signal s)"
    by simp
  from eq have "awaiting (without_logs (on_child_error n msg s))
                 = awaiting (without_logs (on_child_exit n code signal s))" by simp
  then show "awaiting (on_child_error n msg s) = awaiting (on_child_exit n code signal s)"
    by simp
  from eq have "exitStatus (without_logs (on_child_error n msg s))
                 = exitStatus (without_logs (on_child_exit n code signal s))" by simp
  then show "exitStatus (on_child_error n msg s) = exitStatus (on_child_exit n code signal s)"
    by simp
qed

text \<open>
  Claim C9 at the example supervisor: a spawn error and an unexpected exit of stagehand
  both bring its counter from 0 to 1.
\<close>

theorem error_counts_as_exit_witness:
  "\<not> isShuttingDown main0 \<and>
   restartCounts (on_child_error Stagehand ''spawn node ENOENT'' main0) Stagehand = 1 \<and>
   restartCounts (on_child_exit Stagehand (Some 1) None main0) Stagehand = 1"
proof -
  have h: "\<not> isShuttingDown main0" by (simp add: main0_facts)
  have e: "restartCounts (on_child_error Stagehand ''spawn node ENOENT'' main0) Stagehand = 1"
    by (simp add: on_child_error_def handleProcessFailure_def Let_def maxRestarts_def main0_facts)
  from h error_counts_as_exit [where s = main0 and n = Stagehand and msg = "''spawn node ENOENT''"
      and code = "Some 1" and signal = None]
  have "restartCounts (on_child_error Stagehand ''spawn node ENOENT'' main0)
          = restartCounts (on_child_exit Stagehand (Some 1) None main0)"
    by blast
  with h e show ?thesis by simp
qed

section \<open>A health check that times out (claim C6)\<close>

text \<open>
  Claim C6. Let \<open>start\<close> wait for the first health check of service \<open>n\<close>, and let the
  check fail 30 times, the 2 second timer firing after each of the first 29 failures.
  Then the supervisor has made exactly these 30 checks and set these 29 timers, has
  logged the timeout warning, and \<open>start\<close> has gone on to its next step (the cleanup
  request after stagehand, the health check of the frontend after the backend, the end
  after the frontend). No restart counter, restart timer, process or shutdown state has
  changed and the supervisor has not exited. After stagehand, the backend is spawned as
  soon as the cleanup request returns.
\<close>

theorem health_timeout_not_fatal:
  assumes "exitStatus s = None" and "pc s = PcHealth n 1"
  shows "(let t = run (failed_rounds (maxAttempts - 1) @ [HealthCurl False]) s
          in trace t = trace s @ failed_trace n 1 (maxAttempts - 1) @ [EHealthResult n maxAttempts False]
                         @ (case n of Stagehand \<Rightarrow> [EFetchCleanup]
                            | Backend \<Rightarrow> [ECurlHealth (healthUrl Frontend)] | Frontend \<Rightarrow> []) \<and>
             pc t = next_pc n \<and>
             restartCounts t = restartCounts s \<and> isShuttingDown t = isShuttingDown s \<and>
             exitStatus t = None \<and> awaiting t = awaiting s \<and> pending t = pending s \<and>
             processes t = processes s \<and>
             (\<forall>m. (TRestart m \<in> set (timers t)) = (TRestart m \<in> set (timers s))) \<and>
             (\<not> logEnded s \<longrightarrow>
                log_line (now s (tick s)) ''WARNING'' (toUpperCase (name_str n))
                  (name_str n @ '' health check timed out after 60 seconds'') \<in> set (logFile t)))
         \<and> (n = Stagehand \<longrightarrow>
              ESpawn Backend (nextHandle s)
                \<in> set (trace (run (failed_rounds (maxAttempts - 1) @ [HealthCurl False, FetchDone r]) s)))"
proof -
  let ?u = "run (failed_rounds (maxAttempts - 1)) s"
  let ?w = "log ''WARNING'' (name_str n @ '' health check timed out after 60 seconds'')
              (toUpperCase (name_str n)) (emit (EHealthResult n maxAttempts False) ?u)"
  let ?t = "run (failed_rounds (maxAttempts - 1) @ [HealthCurl False]) s"
  have "1 + (maxAttempts - 1) \<le> maxAttempts" by (simp add: maxAttempts_def)
  from failed_rounds_run [OF assms this]
  have u: "untouched s ?u" "pc ?u = PcHealth n maxAttempts"
    "trace ?u = trace s @ failed_trace n 1 (maxAttempts - 1)"
    by (simp_all add: maxAttempts_def)
  have eu: "exitStatus ?u = None" using u(1) assms(1) by (simp add: untouched_def)
  have t: "?t = after_health n ?w"
    using last_failed_check [OF eu u(2)] by (simp add: run_append)
  have tr: "trace ?t = trace s @ failed_trace n 1 (maxAttempts - 1) @ [EHealthResult n maxAttempts False]
                         @ (case n of Stagehand \<Rightarrow> [EFetchCleanup]
                            | Backend \<Rightarrow> [ECurlHealth (healthUrl Frontend)] | Frontend \<Rightarrow> [])"
    unfolding t using u(3) by (cases n) simp_all
  have fr: "pc ?t = next_pc n" "restartCounts ?t = restartCounts s" "isShuttingDown ?t = isShuttingDown s"
    "exitStatus ?t = None" "awaiting ?t = awaiting s" "pending ?t = pending s" "processes ?t = processes s"
    "nextHandle ?t = nextHandle s"
    "\<forall>m. (TRestart m \<in> set (timers ?t)) = (TRestart m \<in> set (timers s))"
    unfolding t using u(1) assms(1) by (simp_all add: after_health_untouched untouched_def)
  have lg: "log_line (now s (tick s)) ''WARNING'' (toUpperCase (name_str n))
                  (name_str n @ '' health check timed out after 60 seconds'') \<in> set (logFile ?t)"
    if "\<not> logEnded s"
  proof -
    have "log_line (now s (tick s)) ''WARNING'' (toUpperCase (name_str n))
                  (name_str n @ '' health check timed out after 60 seconds'') \<in> set (logFile ?w)"
      using that u(1) by (simp add: untouched_def)
    then show ?thesis unfolding t using logFile_after_health by blast
  qed
  have sp: "ESpawn Backend (nextHandle s)
                \<in> set (trace (run (failed_rounds (maxAttempts - 1) @ [HealthCurl False, FetchDone r]) s))"
    if "n = Stagehand"
  proof -
    have "run (failed_rounds (maxAttempts - 1) @ [HealthCurl False, FetchDone r]) s
            = step (FetchDone r) ?t"
      by (simp add: run_append)
    also have "\<dots> = start_after_fetch r ?t"
      using fr(1,4) that by (simp add: step_def)
    finally show ?thesis using fr(8) by simp
  qed
  show ?thesis
    unfolding Let_def using tr fr lg sp by blast
qed

lemma main0_waiting: "exitStatus main0 = None \<and> pc main0 = PcHealth Stagehand 1"
  by (simp add: main0_facts main0_state)

text \<open>
  Claim C6 at the example supervisor: stagehand never becomes healthy, and the backend
  is spawned all the same.
\<close>

theorem health_timeout_not_fatal_witness:
  "(exitStatus main0 = None \<and> pc main0 = PcHealth Stagehand 1) \<and>
   pc (run (failed_rounds (maxAttempts - 1) @ [HealthCurl False]) main0) = PcFetch \<and>
   restartCounts (run (failed_rounds (maxAttempts - 1) @ [HealthCurl False]) main0) = restartCounts main0 \<and>
   ESpawn Backend (nextHandle main0)
     \<in> set (trace (run (failed_rounds (maxAttempts - 1)
                          @ [HealthCurl False, FetchDone (FetchError ''ECONNREFUSED'')]) main0))"
proof -
  have h: "exitStatus main0 = None" "pc main0 = PcHealth Stagehand 1"
    using main0_waiting by simp_all
  from health_timeout_not_fatal [OF h, of "FetchError ''ECONNREFUSED''"] h
  show ?thesis by (simp add: Let_def)
qed

section \<open>Termination signals and session cleanup (claim C5)\<close>

lemma shutdown_not_cleanup: "shutdown_effect e \<Longrightarrow> shutdown_effect e \<and> \<not> cleanup_effect e"
  by (cases e rule: shutdown_effect.cases) simp_all

text \<open>
  Claim C5 as the specification words it fails: the supervisor with its three services
  running receives SIGTERM, and what it does then is to set kill timers and to send
  SIGTERM to its children; no cleanup request comes first, or at all.
\<close>

theorem signal_cleanup_counterexample:
  "\<not> cleanup_first (drop (length (trace running0)) (trace (step (Signal ''SIGTERM'') running0)))"
  by (simp add: signal_running0)

text \<open>
  Claim C5, as the code has it: the handler of a termination signal logs and calls
  \<open>shutdown(0)\<close>. All it adds to the trace are effects of the shutdown (kill timers,
  signals to the children, closing the log and exiting), none of which is a cleanup
  request. In every run of the supervisor, when the signal arrives before any shutdown,
  the handler sets the kill timer of every tracked child and sends it SIGTERM, and the
  supervisor has exited with status 0 if no child is waited for and otherwise waits with
  exit status 0. When the signal arrives during a shutdown, the handler only logs two
  lines: no effect is added, and the timers, the children waited for and the exit status
  asked for stay as they are.
\<close>

theorem signal_starts_shutdown:
  "on_signal signal s =
     shutdown 0 (log ''INFO'' (''Received '' @ signal @ '', starting graceful shutdown...'') ''MAIN'' s)
   \<and> grows_by (\<lambda>e. shutdown_effect e \<and> \<not> cleanup_effect e) s (step (Signal signal) s)
   \<and> (let r = run evs (main clock dir env pid fs)
      in \<not> isShuttingDown r \<and> exitStatus r = None \<longrightarrow>
           (let t = step (Signal signal) r
            in (processes r n = Some h \<longrightarrow> stop_sent (length (trace r)) h n t) \<and>
               isShuttingDown t \<and>
               (if pending t = [] then exitStatus t = Some 0
                else awaiting t = Some 0 \<and> exitStatus t = None)))
   \<and> (isShuttingDown b \<and> exitStatus b = None \<longrightarrow>
        (let t = step (Signal signal) b
         in t = log ''WARNING'' ''Shutdown already in progress...'' ''MAIN''
                  (log ''INFO'' (''Received '' @ signal @ '', starting graceful shutdown...'') ''MAIN'' b) \<and>
            trace t = trace b \<and> timers t = timers b \<and> pending t = pending b \<and>
            awaiting t = awaiting b \<and> exitStatus t = None))"
proof (intro conjI impI)
  show "on_signal signal s =
     shutdown 0 (log ''INFO'' (''Received '' @ signal @ '', starting graceful shutdown...'') ''MAIN'' s)"
    by (simp add: on_signal_def)
next
  let ?l = "log ''INFO'' (''Received '' @ signal @ '', starting graceful shutdown...'') ''MAIN'' s"
  have "grows_by shutdown_effect ?l (shutdown 0 ?l)" by (rule shutdown_grows)
  then have "grows_by shutdown_effect s (on_signal signal s)"
    by (simp add: on_signal_def grows_by_def)
  then have "grows_by (\<lambda>e. shutdown_effect e \<and> \<not> cleanup_effect e) s (on_signal signal s)"
    by (rule grows_by_weaken) (rule shutdown_not_cleanup)
  moreover have "grows_by (\<lambda>e. shutdown_effect e \<and> \<not> cleanup_effect e) s s"
    by (simp add: grows_by_def)
  ultimately show "grows_by (\<lambda>e. shutdown_effect e \<and> \<not> cleanup_effect e) s (step (Signal signal) s)"
    by (simp add: step_def)
next
  let ?r = "run evs (main clock dir env pid fs)"
  let ?l = "log ''INFO'' (''Received '' @ signal @ '', starting graceful shutdown...'') ''MAIN'' ?r"
  have "(processes ?r n = Some h \<longrightarrow> stop_sent (length (trace ?r)) h n (step (Signal signal) ?r)) \<and>
               isShuttingDown (step (Signal signal) ?r) \<and>
               (if pending (step (Signal signal) ?r) = [] then exitStatus (step (Signal signal) ?r) = Some 0
                else awaiting (step (Signal signal) ?r) = Some 0 \<and> exitStatus (step (Signal signal) ?r) = None)"
    if h: "\<not> isShuttingDown ?r \<and> exitStatus ?r = None"
  proof -
    have st: "step (Signal signal) ?r = shutdown 0 ?l"
      using h by (simp add: step_def on_signal_def)
    have hk: "handles_ok ?l" using handles_ok_run [of evs clock dir env pid fs] by simp
    have ns: "\<not> isShuttingDown ?l" "exitStatus ?l = None" using h by simp_all
    have sent: "stop_sent (length (trace ?r)) h n (shutdown 0 ?l)" if "processes ?r n = Some h"
      using shutdown_sends_tracked [OF hk ns(1), of n h 0] that by simp
    show ?thesis
      unfolding st using sent shutdown_starts [OF ns(1), of 0] ns(2) by simp
  qed
  then show "let r = run evs (main clock dir env pid fs)
      in \<not> isShuttingDown r \<and> exitStatus r = None \<longrightarrow>
           (let t = step (Signal signal) r
            in (processes r n = Some h \<longrightarrow> stop_sent (length (trace r)) h n t) \<and>
               isShuttingDown t \<and>
               (if pending t = [] then exitStatus t = Some 0
                else awaiting t = Some 0 \<and> exitStatus t = None))"
    unfolding Let_def by blast
next
  assume "isShuttingDown b \<and> exitStatus b = None"
  then show "let t = step (Signal signal) b
         in t = log ''WARNING'' ''Shutdown already in progress...'' ''MAIN''
                  (log ''INFO'' (''Received '' @ signal @ '', starting graceful shutdown...'') ''MAIN'' b) \<and>
            trace t = trace b \<and> timers t = timers b \<and> pending t = pending b \<and>
            awaiting t = awaiting b \<and> exitStatus t = None"
    by (simp add: step_def on_signal_def shutdown_again)
qed

text \<open>
  Claim C5, the amended statement at the example supervisor: SIGTERM with its three
  services running, and a second SIGTERM while it waits for stagehand.
\<close>

theorem signal_starts_shutdown_witness:
  "(\<not> isShuttingDown running0 \<and> exitStatus running0 = None) \<and>
   processes running0 Backend = Some 1 \<and>
   (isShuttingDown stopping0 \<and> exitStatus stopping0 = None) \<and>
   stop_sent (length (trace running0)) 1 Backend (step (Signal ''SIGTERM'') running0) \<and>
   awaiting (step (Signal ''SIGTERM'') running0) = Some 0 \<and>
   trace (step (Signal ''SIGTERM'') stopping0) = trace stopping0"
proof -
  have h: "\<not> isShuttingDown running0 \<and> exitStatus running0 = None"
    "processes running0 Backend = Some 1"
    "isShuttingDown stopping0 \<and> exitStatus stopping0 = None"
    by (simp_all add: running0_state stopping0_state)
  have p: "pending (step (Signal ''SIGTERM'') running0) \<noteq> []"
    by (simp add: step_def on_signal_def shutdown_def service_keys_def stopProcess_def Let_def
          running0_state)
  note a = signal_starts_shutdown [where signal = "''SIGTERM''" and b = stopping0 and n = Backend
      and h = 1 and clock = clock0 and dir = "''/app''" and env = None and pid = 4242 and fs = fs_ok
      and evs = "[HealthCurl True, Timer TCleanupDelay, FetchDone (FetchOk None),
                  Timer TBackendDelay, HealthCurl True, HealthCurl True]",
      folded main0_def, folded running0_def]
  from a h p show ?thesis unfolding Let_def by auto
qed

section \<open>Spawning after shutdown has begun (claim C10)\<close>

text \<open>
  Claim C10 holds for restarts: the callback of a restart timer does nothing but consume
  the timer once shutdown has begun.
\<close>

lemma restart_suppressed:
  "isShuttingDown s \<Longrightarrow> exitStatus s = None \<Longrightarrow> TRestart n \<in> set (timers s) \<Longrightarrow>
   step (Timer (TRestart n)) s = s\<lparr>timers := remove1 (TRestart n) (timers s)\<rparr>"
  by (simp add: step_def on_timer_set restart_callback_def)

text \<open>
  Claim C10 fails for \<open>start\<close>, which never looks at the flag. The example supervisor
  receives SIGINT while \<open>start\<close> waits for the answer to its cleanup request: shutdown
  has begun and waits for stagehand, no backend is tracked. Then the request fails, \<open>start\<close>
  goes on, and the backend is spawned and tracked; \<open>shutdown\<close> does not wait for it and
  never signals it.
\<close>

theorem spawn_during_shutdown:
  "isShuttingDown interrupted0 \<and> exitStatus interrupted0 = None \<and>
   processes interrupted0 Backend = None \<and>
   (let t = step (FetchDone (FetchError ''ECONNRESET'')) interrupted0
    in isShuttingDown t \<and> exitStatus t = None \<and> processes t Backend = Some 1 \<and>
       trace t = trace interrupted0 @ [ESpawn Backend 1, ESetTimeout TBackendDelay 3000] \<and>
       pending t = [0])"
  by (simp add: interrupted0_state step_def start_after_fetch_def)

section \<open>The format of the log file (claim C7)\<close>

text \<open>
  Claim C7 as the specification words it fails: the backend, running under the example
  supervisor, prints a line of its own log, which starts with a timestamp. The supervisor
  writes one record for it, and that record is not of the form
  \<open>[timestamp] [LEVEL] [SERVICE] message\<close>: it starts with the level.
\<close>

theorem log_format_counterexample:
  "logFile (step (ChildData 1 backend_line) running0) = logFile running0 @ [backend_record] \<and>
   \<not> spec_log_format backend_record"
proof -
  have "step (ChildData 1 backend_line) running0 = on_child_data Backend backend_line running0"
    by (simp add: step_def running0_state running0_log)
  then have "logFile (step (ChildData 1 backend_line) running0) = logFile running0 @ [backend_record]"
    by (simp add: on_child_data_def logProcessOutput_def write_line_def Let_def running0_log
          backend_line_facts backend_record_def)
  with backend_record_not_spec show ?thesis by simp
qed

text \<open>
  Claim C7, as the code has it. While the log stream is open, every call of \<open>log\<close> hands
  one record to it, of the form \<open>[timestamp] [LEVEL] [SERVICE] message\<close> with the reading
  of the clock at the call, and every non-blank chunk of output of a child hands one record
  to it: level and service in brackets and then the trimmed chunk when the chunk starts
  with a timestamp, and the record of \<open>log\<close> otherwise. In every run of the supervisor,
  every record handed to the log stream has one of these two forms, with one of the levels
  INFO, WARNING, ERROR and one of the services MAIN, BACKEND, FRONTEND, STAGEHAND, and ends
  with a line feed; a record of the first form is of the form of the specification.
\<close>

theorem log_record_format:
  "(\<not> logEnded s \<longrightarrow>
      logFile (log level message service s) =
        logFile s @ [log_line (now s (tick s)) level service message]) \<and>
   (\<not> logEnded s \<and> trim data \<noteq> [] \<longrightarrow>
      logFile (on_child_data n data s) =
        logFile s @
          [if hasTimestamp (trim data)
           then ''['' @ detectedLevel (trim data) @ ''] ['' @ toUpperCase (name_str n) @ ''] ''
                  @ trim data @ [CHR 0x0A]
           else log_line (now s (tick s)) (detectedLevel (trim data)) (toUpperCase (name_str n))
                  (trim data)]) \<and>
   (\<forall>r\<in>set (logFile (run evs (main clock dir env pid fs))).
      (own_log_format clock r \<and> spec_log_format r \<or> child_log_format r) \<and>
      r \<noteq> [] \<and> last r = CHR 0x0A)"
proof (intro conjI impI ballI)
  assume "\<not> logEnded s"
  then show "logFile (log level message service s) =
        logFile s @ [log_line (now s (tick s)) level service message]"
    by simp
next
  assume "\<not> logEnded s \<and> trim data \<noteq> []"
  then show "logFile (on_child_data n data s) =
        logFile s @
          [if hasTimestamp (trim data)
           then ''['' @ detectedLevel (trim data) @ ''] ['' @ toUpperCase (name_str n) @ ''] ''
                  @ trim data @ [CHR 0x0A]
           else log_line (now s (tick s)) (detectedLevel (trim data)) (toUpperCase (name_str n))
                  (trim data)]"
    by (simp add: on_child_data_def logProcessOutput_def write_line_def Let_def)
next
  fix r
  assume "r \<in> set (logFile (run evs (main clock dir env pid fs)))"
  with records_ok_run [of evs clock dir env pid fs]
  have a: "own_log_format clock r \<or> child_log_format r"
    by (simp add: records_ok_def)
  then show "own_log_format clock r \<and> spec_log_format r \<or> child_log_format r"
    unfolding own_log_format_def spec_log_format_def by blast
  from a show "r \<noteq> []"
    unfolding own_log_format_def child_log_format_def by (auto simp: log_line_def)
  from a show "last r = CHR 0x0A"
    unfolding own_log_format_def child_log_format_def by (auto simp: log_line_def)
qed

text \<open>
  Claim C7, the statement above at the example supervisor: the first record of its log,
  and the record it writes for the line of the backend.
\<close>

theorem log_record_format_witness:
  "\<not> logEnded main0 \<and>
   (\<not> logEnded running0 \<and> trim backend_line \<noteq> []) \<and>
   log_line (clock0 0) ''INFO'' ''MAIN'' ''LinkedIn Research Suite - Unified Server Starting''
     \<in> set (logFile (run [] main0)) \<and>
   logFile (log ''INFO'' ''Starting services...'' ''MAIN'' main0) =
     logFile main0 @ [log_line (now main0 (tick main0)) ''INFO'' ''MAIN'' ''Starting services...''] \<and>
   logFile (on_child_data Backend backend_line running0) = logFile running0 @ [backend_record] \<and>
   spec_log_format
     (log_line (clock0 0) ''INFO'' ''MAIN'' ''LinkedIn Research Suite - Unified Server Starting'') \<and>
   last (log_line (clock0 0) ''INFO'' ''MAIN'' ''LinkedIn Research Suite - Unified Server Starting'')
     = CHR 0x0A"
proof -
  let ?r = "log_line (clock0 0) ''INFO'' ''MAIN'' ''LinkedIn Research Suite - Unified Server Starting''"
  have h: "\<not> logEnded main0" "\<not> logEnded running0 \<and> trim backend_line \<noteq> []"
    "?r \<in> set (logFile (run [] main0))"
    by (simp_all add: main0_log running0_log backend_line_facts)
  have n: "\<not> child_log_format ?r"
    by (auto simp: child_log_format_def log_line_def clock0_def log_levels_def)
  note a = log_record_format [where s = main0 and level = "''INFO''" and service = "''MAIN''"
      and message = "''Starting services...''" and evs = "[]" and clock = clock0
      and dir = "''/app''" and env = None and pid = 4242 and fs = fs_ok, folded main0_def]
  note b = log_record_format [where s = running0 and n = Backend and data = backend_line]
  from a h(1) have c: "logFile (log ''INFO'' ''Starting services...'' ''MAIN'' main0) =
     logFile main0 @ [log_line (now main0 (tick main0)) ''INFO'' ''MAIN'' ''Starting services...'']"
    by simp
  from b h(2) have d: "logFile (on_child_data Backend backend_line running0) = logFile running0 @ [backend_record]"
    by (simp add: backend_line_facts backend_record_def)
  from a h(3) n have e: "spec_log_format ?r \<and> last ?r = CHR 0x0A" by blast
  from h c d e show ?thesis by simp
qed

end
